theory Spec2Isabelle
  imports Main "HOL-Library.Word"
begin

unbundle bit_operations_syntax

section \<open>The H5 (three-wire UART) transport of pc-ble-driver\<close>

text \<open>
  A shallow embedding of \<^verbatim>\<open>src/common/transport/h5_transport.cpp\<close>. Bytes are
  8-bit words, \<^verbatim>\<open>payload_t\<close> (a \<^verbatim>\<open>std::vector<uint8_t>\<close>) is a list of
  bytes, the object's members are record fields, and every call the object makes to
  its collaborators (the lower transport, the upper callbacks, the condition
  variables) is appended to a list of effects in call order.
\<close>

subsection \<open>Types\<close>

type_synonym u8 = "8 word"
type_synonym payload_t = "u8 list"

datatype h5_state_t =
    STATE_UNKNOWN | STATE_START | STATE_RESET | STATE_UNINITIALIZED
  | STATE_INITIALIZED | STATE_ACTIVE | STATE_FAILED | STATE_CLOSED

datatype h5_pkt_type_t =
    ACK_PACKET | HCI_COMMAND_PACKET | ACL_DATA_PACKET | SYNC_DATA_PACKET
  | HCI_EVENT_PACKET | RESET_PACKET | VENDOR_SPECIFIC_PACKET | LINK_CONTROL_PACKET

datatype control_pkt_type =
    CONTROL_PKT_RESET | CONTROL_PKT_ACK | CONTROL_PKT_SYNC | CONTROL_PKT_SYNC_RESPONSE
  | CONTROL_PKT_SYNC_CONFIG | CONTROL_PKT_SYNC_CONFIG_RESPONSE

datatype sd_rpc_app_status_t =
    PKT_SEND_MAX_RETRIES_REACHED | PKT_UNEXPECTED | PKT_ENCODE_ERROR | PKT_DECODE_ERROR
  | PKT_SEND_ERROR | IO_RESOURCES_UNAVAILABLE | RESET_PERFORMED | CONNECTION_ACTIVE

datatype nrf_error_t =
    NRF_SUCCESS | NRF_ERROR_INTERNAL | NRF_ERROR_INVALID_STATE | NRF_ERROR_TIMEOUT

text \<open>
  What C++ leaves undefined or answers with an exception: a write through the null
  pointer a failed \<^verbatim>\<open>dynamic_cast\<close> returns, and a call of an empty
  \<^verbatim>\<open>std::function\<close>.
\<close>

datatype fault = NullPointerWrite | BadFunctionCall

text \<open>
  The exit criteria: one class per state, all derived from \<^verbatim>\<open>ExitCriterias\<close>,
  which holds the two flags every state has.
\<close>

record ExitCriterias =
  ioResourceError :: bool
  close :: bool

record StartExitCriterias = ExitCriterias +
  isOpened :: bool

record ResetExitCriterias = ExitCriterias +
  resetSent :: bool
  resetWait :: bool

record UninitializedExitCriterias = ExitCriterias +
  syncSent :: bool
  syncRspReceived :: bool

record InitializedExitCriterias = ExitCriterias +
  syncConfigSent :: bool
  syncConfigRspReceived :: bool

record ActiveExitCriterias = ExitCriterias +
  syncReceived :: bool
  irrecoverableSyncError :: bool

text \<open>The dynamic class of an exit-criteria object, which \<^verbatim>\<open>dynamic_cast\<close> tests.\<close>

datatype exit_class =
    StartExit | ResetExit | UninitializedExit | InitializedExit | ActiveExit

text \<open>The three condition variables and the calls made to collaborators.\<close>

datatype condition_t = stateMachineChange | ackWaitCondition | stateWaitCondition

datatype effect =
    LowerSend payload_t
  | LowerOpen
  | LowerClose
  | UpperData payload_t
  | UpperStatus sd_rpc_app_status_t
  | NotifyAll condition_t
  | Wait condition_t
  | WaitFor condition_t nat
  | LogStateTransition h5_state_t h5_state_t
  | JoinStateMachineThread

text \<open>
  The members of the object other than the two the byte reassembler owns. The packet
  counters are the ones \<^verbatim>\<open>logPacket\<close> and \<^verbatim>\<open>processPacket\<close> increment; the text of
  the diagnostic log lines is not modelled. A \<^verbatim>\<open>std::function\<close> member is
  modelled by whether it holds a target.
\<close>

record H5Transport =
  seqNum :: u8
  ackNum :: u8
  currentState :: h5_state_t
  lastPacket :: payload_t
  retransmissionInterval :: nat
  incomingPacketCount :: nat
  outgoingPacketCount :: nat
  errorPacketCount :: nat
  stateMachineReady :: bool
  startExit :: StartExitCriterias
  resetExit :: ResetExitCriterias
  uninitializedExit :: UninitializedExitCriterias
  initializedExit :: InitializedExitCriterias
  activeExit :: ActiveExitCriterias
  upperStatusCallbackSet :: bool
  upperDataCallbackSet :: bool
  statusCallbackBound :: bool
  threadJoinable :: bool
  effects :: "effect list"

text \<open>
  The reassembler's two members, \<^verbatim>\<open>unprocessedData\<close> and \<^verbatim>\<open>c0Found\<close>, beside the
  rest of the object. \<^verbatim>\<open>dataHandler\<close> reads and writes only these two and hands
  every framed packet to \<^verbatim>\<open>processPacket\<close>, which touches neither; so the rest of
  the object is a type parameter here and the dispatcher a parameter of the loop.
\<close>

record 't reassembler =
  unprocessedData :: payload_t
  c0Found :: bool
  members :: 't

text \<open>
  The two codecs (\<^verbatim>\<open>slip.h\<close>, \<^verbatim>\<open>h5.h\<close>) and the configuration field of the
  SYNC CONFIG messages are not among the sources: they are parameters. A decoder
  returns \<open>None\<close> where the C++ one returns an error code other than
  \<^verbatim>\<open>NRF_SUCCESS\<close>. The arguments of \<open>h5_encode\<close> are, in the source's order, the
  payload, \<^verbatim>\<open>seq_num\<close>, \<^verbatim>\<open>ack_num\<close>, \<^verbatim>\<open>crc_present\<close>, \<^verbatim>\<open>reliable_packet\<close>
  and \<^verbatim>\<open>packet_type\<close>.
\<close>

record h5_decoded =
  h5Payload :: payload_t
  seq_num :: u8
  ack_num :: u8
  reliable_packet :: bool
  packet_type :: h5_pkt_type_t

record codec =
  slip_encode :: "payload_t \<Rightarrow> payload_t"
  slip_decode :: "payload_t \<Rightarrow> payload_t option"
  h5_encode :: "payload_t \<Rightarrow> u8 \<Rightarrow> u8 \<Rightarrow> bool \<Rightarrow> bool \<Rightarrow> h5_pkt_type_t \<Rightarrow> payload_t"
  h5_decode :: "payload_t \<Rightarrow> h5_decoded option"
  SyncConfigField :: u8

subsection \<open>The pattern predicate\<close>

text \<open>
  \<^verbatim>\<open>checkPattern\<close> walks the pattern while an iterator walks the packet from
  \<^verbatim>\<open>packet.begin() + offset\<close>; the first argument of the loop is what the iterator
  still has in front of it.
\<close>

fun checkPattern_loop :: "payload_t \<Rightarrow> payload_t \<Rightarrow> bool" where
  "checkPattern_loop rest [] = True"
| "checkPattern_loop [] (patternEntry # pattern) = False"
| "checkPattern_loop (b # rest) (patternEntry # pattern) =
     (if b \<noteq> patternEntry then False else checkPattern_loop rest pattern)"

definition checkPattern :: "payload_t \<Rightarrow> u8 \<Rightarrow> payload_t \<Rightarrow> bool" where
  "checkPattern packet offset pattern =
     (if unat offset \<ge> length packet then False
      else checkPattern_loop (drop (unat offset) packet) pattern)"

definition isSyncPacket :: "payload_t \<Rightarrow> u8 \<Rightarrow> bool" where
  "isSyncPacket packet offset = checkPattern packet offset [0x01, 0x7E]"

definition isSyncResponsePacket :: "payload_t \<Rightarrow> u8 \<Rightarrow> bool" where
  "isSyncResponsePacket packet offset = checkPattern packet offset [0x02, 0x7D]"

definition isSyncConfigPacket :: "payload_t \<Rightarrow> u8 \<Rightarrow> bool" where
  "isSyncConfigPacket packet offset = checkPattern packet offset [0x03, 0xFC]"

definition isSyncConfigResponsePacket :: "payload_t \<Rightarrow> u8 \<Rightarrow> bool" where
  "isSyncConfigResponsePacket packet offset = checkPattern packet offset [0x04, 0x7B]"

definition isResetPacket :: "payload_t \<Rightarrow> u8 \<Rightarrow> bool" where
  "isResetPacket packet offset = checkPattern packet offset [0x05]"

subsection \<open>Construction and the tables of \<^verbatim>\<open>setupStateMachine\<close>\<close>

text \<open>
  \<^verbatim>\<open>exitCriterias\<close> is a \<^verbatim>\<open>std::map\<close> from states to pointers, filled once by
  \<^verbatim>\<open>setupStateMachine\<close> with one object per state from START to ACTIVE; its
  \<^verbatim>\<open>operator[]\<close> answers every other state with a null pointer. The objects never
  move, so the table is a function to the class of the object, and the objects are
  the five fields of the record.
\<close>

fun exitCriterias :: "h5_state_t \<Rightarrow> exit_class option" where
  "exitCriterias STATE_START = Some StartExit"
| "exitCriterias STATE_RESET = Some ResetExit"
| "exitCriterias STATE_UNINITIALIZED = Some UninitializedExit"
| "exitCriterias STATE_INITIALIZED = Some InitializedExit"
| "exitCriterias STATE_ACTIVE = Some ActiveExit"
| "exitCriterias STATE_FAILED = None"
| "exitCriterias STATE_CLOSED = None"
| "exitCriterias STATE_UNKNOWN = None"

text \<open>A write to a flag of the base class through a pointer into the table.\<close>

fun set_ioResourceError :: "exit_class \<Rightarrow> H5Transport \<Rightarrow> H5Transport" where
  "set_ioResourceError StartExit s = s\<lparr>startExit := (startExit s)\<lparr>ioResourceError := True\<rparr>\<rparr>"
| "set_ioResourceError ResetExit s = s\<lparr>resetExit := (resetExit s)\<lparr>ioResourceError := True\<rparr>\<rparr>"
| "set_ioResourceError UninitializedExit s =
     s\<lparr>uninitializedExit := (uninitializedExit s)\<lparr>ioResourceError := True\<rparr>\<rparr>"
| "set_ioResourceError InitializedExit s =
     s\<lparr>initializedExit := (initializedExit s)\<lparr>ioResourceError := True\<rparr>\<rparr>"
| "set_ioResourceError ActiveExit s = s\<lparr>activeExit := (activeExit s)\<lparr>ioResourceError := True\<rparr>\<rparr>"

fun set_close :: "exit_class \<Rightarrow> H5Transport \<Rightarrow> H5Transport" where
  "set_close StartExit s = s\<lparr>startExit := (startExit s)\<lparr>close := True\<rparr>\<rparr>"
| "set_close ResetExit s = s\<lparr>resetExit := (resetExit s)\<lparr>close := True\<rparr>\<rparr>"
| "set_close UninitializedExit s =
     s\<lparr>uninitializedExit := (uninitializedExit s)\<lparr>close := True\<rparr>\<rparr>"
| "set_close InitializedExit s =
     s\<lparr>initializedExit := (initializedExit s)\<lparr>close := True\<rparr>\<rparr>"
| "set_close ActiveExit s = s\<lparr>activeExit := (activeExit s)\<lparr>close := True\<rparr>\<rparr>"

text \<open>
  The constructors and \<^verbatim>\<open>reset()\<close> of the exit-criteria classes are declared in
  \<^verbatim>\<open>h5_transport.h\<close>, which is not among the sources. The spec has every record reset
  on entry to its state; a reset record, like a new one, has no flag set.
\<close>

text \<open>Modelled from the spec: \<^verbatim>\<open>StartExitCriterias::reset()\<close>, of the missing header.\<close>

definition reset_StartExit :: StartExitCriterias where
  "reset_StartExit = \<lparr>ioResourceError = False, close = False, isOpened = False\<rparr>"

text \<open>Modelled from the spec: \<^verbatim>\<open>ResetExitCriterias::reset()\<close>, of the missing header.\<close>

definition reset_ResetExit :: ResetExitCriterias where
  "reset_ResetExit =
     \<lparr>ioResourceError = False, close = False, resetSent = False, resetWait = False\<rparr>"

text \<open>Modelled from the spec: \<^verbatim>\<open>UninitializedExitCriterias::reset()\<close>, of the missing header.\<close>

definition reset_UninitializedExit :: UninitializedExitCriterias where
  "reset_UninitializedExit =
     \<lparr>ioResourceError = False, close = False, syncSent = False, syncRspReceived = False\<rparr>"

text \<open>Modelled from the spec: \<^verbatim>\<open>InitializedExitCriterias::reset()\<close>, of the missing header.\<close>

definition reset_InitializedExit :: InitializedExitCriterias where
  "reset_InitializedExit =
     \<lparr>ioResourceError = False, close = False, syncConfigSent = False,
      syncConfigRspReceived = False\<rparr>"

text \<open>Modelled from the spec: \<^verbatim>\<open>ActiveExitCriterias::reset()\<close>, of the missing header.\<close>

definition reset_ActiveExit :: ActiveExitCriterias where
  "reset_ActiveExit =
     \<lparr>ioResourceError = False, close = False, syncReceived = False,
      irrecoverableSyncError = False\<rparr>"

text \<open>The constructor's initialiser list, followed by \<^verbatim>\<open>setupStateMachine()\<close>.\<close>

definition H5Transport_new :: "nat \<Rightarrow> H5Transport reassembler" where
  "H5Transport_new retransmission_interval =
     \<lparr>unprocessedData = [], c0Found = False,
      members =
        \<lparr>seqNum = 0, ackNum = 0, currentState = STATE_START, lastPacket = [],
         retransmissionInterval = retransmission_interval,
         incomingPacketCount = 0, outgoingPacketCount = 0, errorPacketCount = 0,
         stateMachineReady = False,
         startExit = reset_StartExit, resetExit = reset_ResetExit,
         uninitializedExit = reset_UninitializedExit,
         initializedExit = reset_InitializedExit, activeExit = reset_ActiveExit,
         upperStatusCallbackSet = False, upperDataCallbackSet = False,
         statusCallbackBound = False,
         threadJoinable = False, effects = []\<rparr>\<rparr>"

subsection \<open>Sending control packets, status, counters\<close>

definition emit :: "effect \<Rightarrow> H5Transport \<Rightarrow> H5Transport" where
  "emit e s = s\<lparr>effects := effects s @ [e]\<rparr>"

definition logPacket :: "bool \<Rightarrow> H5Transport \<Rightarrow> H5Transport" where
  "logPacket outgoing s =
     (if outgoing then s\<lparr>outgoingPacketCount := outgoingPacketCount s + 1\<rparr>
      else s\<lparr>incomingPacketCount := incomingPacketCount s + 1\<rparr>)"

text \<open>
  \<^verbatim>\<open>pkt_pattern\<close>, with the byte values of the table in the file's header comment. The
  map has no entry for \<^verbatim>\<open>CONTROL_PKT_ACK\<close>: \<^verbatim>\<open>operator[]\<close> answers with an empty
  vector.
\<close>

fun pkt_pattern :: "codec \<Rightarrow> control_pkt_type \<Rightarrow> payload_t" where
  "pkt_pattern cd CONTROL_PKT_RESET = []"
| "pkt_pattern cd CONTROL_PKT_SYNC = [0x01, 0x7E]"
| "pkt_pattern cd CONTROL_PKT_SYNC_RESPONSE = [0x02, 0x7D]"
| "pkt_pattern cd CONTROL_PKT_SYNC_CONFIG = [0x03, 0xFC, SyncConfigField cd]"
| "pkt_pattern cd CONTROL_PKT_SYNC_CONFIG_RESPONSE = [0x04, 0x7B, SyncConfigField cd]"
| "pkt_pattern cd CONTROL_PKT_ACK = []"

fun control_h5_packet :: "control_pkt_type \<Rightarrow> h5_pkt_type_t" where
  "control_h5_packet CONTROL_PKT_RESET = RESET_PACKET"
| "control_h5_packet CONTROL_PKT_SYNC = LINK_CONTROL_PACKET"
| "control_h5_packet CONTROL_PKT_SYNC_RESPONSE = LINK_CONTROL_PACKET"
| "control_h5_packet CONTROL_PKT_SYNC_CONFIG = LINK_CONTROL_PACKET"
| "control_h5_packet CONTROL_PKT_SYNC_CONFIG_RESPONSE = LINK_CONTROL_PACKET"
| "control_h5_packet CONTROL_PKT_ACK = ACK_PACKET"

text \<open>The bytes \<^verbatim>\<open>sendControlPacket\<close> hands to the lower transport.\<close>

definition controlPacket :: "codec \<Rightarrow> control_pkt_type \<Rightarrow> u8 \<Rightarrow> payload_t" where
  "controlPacket cd type ack =
     slip_encode cd
       (h5_encode cd (pkt_pattern cd type) 0 (if type = CONTROL_PKT_ACK then ack else 0)
          False False (control_h5_packet type))"

definition sendControlPacket :: "codec \<Rightarrow> control_pkt_type \<Rightarrow> H5Transport \<Rightarrow> H5Transport" where
  "sendControlPacket cd type s =
     emit (LowerSend (controlPacket cd type (ackNum s))) (logPacket True s)"

definition statusHandler :: "sd_rpc_app_status_t \<Rightarrow> H5Transport \<Rightarrow> H5Transport" where
  "statusHandler code s =
     (let s1 =
        (if code = IO_RESOURCES_UNAVAILABLE then
           emit (NotifyAll stateMachineChange)
             (case exitCriterias (currentState s) of
                Some exitCriteria \<Rightarrow> set_ioResourceError exitCriteria s
              | None \<Rightarrow> s)
         else s)
      in if upperStatusCallbackSet s1 then emit (UpperStatus code) s1 else s1)"

definition incrementSeqNum :: "H5Transport \<Rightarrow> H5Transport" where
  "incrementSeqNum s = s\<lparr>seqNum := (seqNum s + 1) AND 0x07\<rparr>"

definition incrementAckNum :: "H5Transport \<Rightarrow> H5Transport" where
  "incrementAckNum s = s\<lparr>ackNum := (ackNum s + 1) AND 0x07\<rparr>"

subsection \<open>The packet dispatcher\<close>

text \<open>
  \<^verbatim>\<open>processPacket\<close>. Each \<^verbatim>\<open>dynamic_cast\<close> of \<^verbatim>\<open>exitCriterias[currentState]\<close> to the
  class of one state gives that state's object when \<^verbatim>\<open>currentState\<close> is that state and
  a null pointer otherwise; the source writes through the result without a test. The
  three branches on the packet type are three definitions here, in the source's order.
\<close>

definition through_cast ::
  "exit_class \<Rightarrow> (H5Transport \<Rightarrow> H5Transport) \<Rightarrow> H5Transport \<Rightarrow> fault + H5Transport" where
  "through_cast cls wr s =
     (if exitCriterias (currentState s) = Some cls then Inr (wr s) else Inl NullPointerWrite)"

definition processLinkControl :: "codec \<Rightarrow> payload_t \<Rightarrow> H5Transport \<Rightarrow> fault + H5Transport" where
  "processLinkControl cd pl s =
     (if currentState s = STATE_UNINITIALIZED then
        (if isSyncResponsePacket pl 0 then
           through_cast UninitializedExit
             (\<lambda>s. emit (NotifyAll stateMachineChange)
                (s\<lparr>uninitializedExit := (uninitializedExit s)\<lparr>syncRspReceived := True\<rparr>\<rparr>)) s
         else if isSyncPacket pl 0 then
           Inr (sendControlPacket cd CONTROL_PKT_SYNC_RESPONSE s)
         else Inr s)
      else if currentState s = STATE_INITIALIZED then
        (if isSyncConfigResponsePacket pl 0 then
           through_cast InitializedExit
             (\<lambda>s. emit (NotifyAll stateMachineChange)
                (s\<lparr>initializedExit :=
                     (initializedExit s)\<lparr>syncConfigRspReceived := True\<rparr>\<rparr>)) s
         else if isSyncConfigPacket pl 0 then
           Inr (emit (NotifyAll stateMachineChange)
                  (sendControlPacket cd CONTROL_PKT_SYNC_CONFIG_RESPONSE s))
         else if isSyncPacket pl 0 then
           Inr (emit (NotifyAll stateMachineChange)
                  (sendControlPacket cd CONTROL_PKT_SYNC_RESPONSE s))
         else Inr s)
      else if currentState s = STATE_ACTIVE then
        (if isSyncPacket pl 0 then
           through_cast ActiveExit
             (\<lambda>s. emit (NotifyAll stateMachineChange)
                (s\<lparr>activeExit := (activeExit s)\<lparr>syncReceived := True\<rparr>\<rparr>)) s
         else if isSyncConfigPacket pl 0 then
           Inr (sendControlPacket cd CONTROL_PKT_SYNC_CONFIG_RESPONSE s)
         else Inr s)
      else Inr s)"

text \<open>
  The call \<^verbatim>\<open>upperDataCallback(h5Payload.data(), h5Payload.size())\<close>. The source
  makes it without testing the \<^verbatim>\<open>std::function\<close>: when no data callback is
  registered the call throws \<^verbatim>\<open>std::bad_function_call\<close>.
\<close>

definition upperDataCallback :: "payload_t \<Rightarrow> H5Transport \<Rightarrow> fault + H5Transport" where
  "upperDataCallback data s =
     (if upperDataCallbackSet s then Inr (emit (UpperData data) s) else Inl BadFunctionCall)"

text \<open>
  The branch of \<^verbatim>\<open>VENDOR_SPECIFIC_PACKET\<close>. For a frame in sequence the callback is
  called last, after \<^verbatim>\<open>incrementAckNum()\<close> and \<^verbatim>\<open>sendControlPacket(CONTROL_PKT_ACK)\<close>.
\<close>

definition processVendorSpecific ::
  "codec \<Rightarrow> h5_decoded \<Rightarrow> H5Transport \<Rightarrow> fault + H5Transport" where
  "processVendorSpecific cd h s =
     (if currentState s = STATE_ACTIVE then
        (if reliable_packet h then
           (if seq_num h = ackNum s then
              upperDataCallback (h5Payload h)
                (sendControlPacket cd CONTROL_PKT_ACK (incrementAckNum s))
            else Inr (sendControlPacket cd CONTROL_PKT_ACK s))
         else Inr s)
      else Inr s)"

definition processAck :: "h5_decoded \<Rightarrow> H5Transport \<Rightarrow> fault + H5Transport" where
  "processAck h s =
     (if ack_num h = (seqNum s + 1) AND 0x07 then
        Inr (emit (NotifyAll ackWaitCondition) (incrementSeqNum s))
      else if ack_num h = seqNum s then Inr s
      else
        through_cast ActiveExit
          (\<lambda>s. emit (NotifyAll stateMachineChange)
             (s\<lparr>activeExit := (activeExit s)\<lparr>irrecoverableSyncError := True\<rparr>\<rparr>)) s)"

definition processPacket :: "codec \<Rightarrow> payload_t \<Rightarrow> H5Transport \<Rightarrow> fault + H5Transport" where
  "processPacket cd packet s =
     (case slip_decode cd packet of
        None \<Rightarrow> Inr (s\<lparr>errorPacketCount := errorPacketCount s + 1\<rparr>)
      | Some slipPayload \<Rightarrow>
          (let s = logPacket False s in
           case h5_decode cd slipPayload of
             None \<Rightarrow> Inr (s\<lparr>errorPacketCount := errorPacketCount s + 1\<rparr>)
           | Some h \<Rightarrow>
               if currentState s = STATE_RESET then Inr (emit (NotifyAll stateMachineChange) s)
               else if packet_type h = LINK_CONTROL_PACKET then
                 processLinkControl cd (h5Payload h) s
               else if packet_type h = VENDOR_SPECIFIC_PACKET then processVendorSpecific cd h s
               else if packet_type h = ACK_PACKET then processAck h s
               else Inr s))"

subsection \<open>The byte reassembler\<close>

text \<open>
  The loop of \<^verbatim>\<open>dataHandler\<close> over the bytes of one chunk; \<open>packet\<close> is the local
  vector, \<open>pp\<close> the dispatcher. A fault of the dispatcher ends everything.
\<close>

fun dataHandler_loop ::
  "(payload_t \<Rightarrow> 't \<Rightarrow> fault + 't) \<Rightarrow> u8 list \<Rightarrow> payload_t \<Rightarrow> 't reassembler
     \<Rightarrow> fault + (payload_t \<times> 't reassembler)" where
  "dataHandler_loop pp [] packet r = Inr (packet, r)"
| "dataHandler_loop pp (b # bs) packet r =
     (if b = 0xC0 then
        (if c0Found r then
           (if length (packet @ [b]) = 2 then dataHandler_loop pp bs [0xC0] r
            else
              (case pp (packet @ [b]) (members r) of
                 Inl f \<Rightarrow> Inl f
               | Inr m \<Rightarrow>
                   dataHandler_loop pp bs []
                     (r\<lparr>members := m, unprocessedData := [], c0Found := False\<rparr>)))
         else dataHandler_loop pp bs [0xC0] (r\<lparr>c0Found := True\<rparr>))
      else dataHandler_loop pp bs (packet @ [b]) r)"

definition dataHandler_with ::
  "(payload_t \<Rightarrow> 't \<Rightarrow> fault + 't) \<Rightarrow> u8 list \<Rightarrow> 't reassembler \<Rightarrow> fault + 't reassembler" where
  "dataHandler_with pp data r =
     (case dataHandler_loop pp data
             (if unprocessedData r \<noteq> [] then [] @ unprocessedData r else []) r of
        Inl f \<Rightarrow> Inl f
      | Inr (packet, r') \<Rightarrow>
          Inr (if packet \<noteq> [] then r'\<lparr>unprocessedData := packet\<rparr> else r'))"

definition dataHandler ::
  "codec \<Rightarrow> u8 list \<Rightarrow> H5Transport reassembler \<Rightarrow> fault + H5Transport reassembler" where
  "dataHandler cd = dataHandler_with (processPacket cd)"



text \<open>What \<^verbatim>\<open>dataHandler\<close> keeps for its next call: the local vector, stored.\<close>

definition carried :: "payload_t \<times> 't reassembler \<Rightarrow> 't reassembler" where
  "carried x = (snd x)\<lparr>unprocessedData := fst x\<rparr>"

subsection \<open>The reliable sender\<close>

definition PACKET_RETRANSMISSIONS :: nat where
  "PACKET_RETRANSMISSIONS = 6"

definition NON_ACTIVE_STATE_TIMEOUT :: nat where
  "NON_ACTIVE_STATE_TIMEOUT = 250"

definition OPEN_WAIT_TIMEOUT :: nat where
  "OPEN_WAIT_TIMEOUT = 2000"

definition RESET_WAIT_DURATION :: nat where
  "RESET_WAIT_DURATION = 300"

text \<open>
  While \<^verbatim>\<open>send\<close> is blocked in \<^verbatim>\<open>wait_for\<close> the other threads write the two
  counters: the dispatcher through \<^verbatim>\<open>incrementSeqNum\<close> and \<^verbatim>\<open>incrementAckNum\<close>, the
  state machine by zeroing both on entry to ACTIVE. One list of such writes stands for
  what happens during one wait; a wait nobody disturbs is the empty list. The
  predicate of the wait is read when the wait ends.
\<close>

datatype counter_write = IncrementSeqNum | IncrementAckNum | ZeroCounters

fun other_thread_write :: "counter_write \<Rightarrow> H5Transport \<Rightarrow> H5Transport" where
  "other_thread_write IncrementSeqNum s = incrementSeqNum s"
| "other_thread_write IncrementAckNum s = incrementAckNum s"
| "other_thread_write ZeroCounters s = s\<lparr>seqNum := 0, ackNum := 0\<rparr>"

fun send_loop ::
  "nat \<Rightarrow> counter_write list list \<Rightarrow> H5Transport \<Rightarrow> nrf_error_t \<times> H5Transport" where
  "send_loop 0 waits s = (NRF_ERROR_TIMEOUT, s\<lparr>lastPacket := []\<rparr>)"
| "send_loop (Suc remainingRetransmissions) waits s =
     (let s1 = emit (LowerSend (lastPacket s)) (logPacket True s);
          seqNumBefore = seqNum s1;
          s2 = fold other_thread_write (case waits of [] \<Rightarrow> [] | w # _ \<Rightarrow> w)
                 (emit (WaitFor ackWaitCondition (retransmissionInterval s1)) s1)
      in if seqNum s2 \<noteq> seqNumBefore then (NRF_SUCCESS, s2\<lparr>lastPacket := []\<rparr>)
         else send_loop remainingRetransmissions (tl waits) s2)"

definition send ::
  "codec \<Rightarrow> payload_t \<Rightarrow> counter_write list list \<Rightarrow> H5Transport \<Rightarrow> nrf_error_t \<times> H5Transport" where
  "send cd data waits s =
     (if currentState s \<noteq> STATE_ACTIVE then (NRF_ERROR_INVALID_STATE, s)
      else
        send_loop PACKET_RETRANSMISSIONS waits
          (s\<lparr>lastPacket :=
               slip_encode cd
                 (h5_encode cd data (seqNum s) (ackNum s) True True VENDOR_SPECIFIC_PACKET)\<rparr>))"

subsection \<open>Opening and closing\<close>

text \<open>
  Modelled from the spec: \<^verbatim>\<open>Transport::open\<close> of the base class, which is not among
  the sources. The spec has it register the upper callbacks: \<open>status_callback\<close> and
  \<open>data_callback\<close> say whether the caller passed one. Its return code is a parameter of
  \<open>open_transport\<close> below.
\<close>

definition Transport_open :: "bool \<Rightarrow> bool \<Rightarrow> H5Transport \<Rightarrow> H5Transport" where
  "Transport_open status_callback data_callback s =
     s\<lparr>upperStatusCallbackSet := status_callback, upperDataCallbackSet := data_callback\<rparr>"

text \<open>
  Modelled from the spec: \<^verbatim>\<open>Transport::close\<close> of the base class, which is not among
  the sources. The spec has it release the upper callbacks; its return code is a
  parameter of \<open>close_transport\<close> below.
\<close>

definition Transport_close :: "H5Transport \<Rightarrow> H5Transport" where
  "Transport_close s = s\<lparr>upperStatusCallbackSet := False, upperDataCallbackSet := False\<rparr>"

definition stopStateMachine :: "H5Transport \<Rightarrow> H5Transport" where
  "stopStateMachine s =
     (if threadJoinable s then emit JoinStateMachineThread (s\<lparr>threadJoinable := False\<rparr>) else s)"

text \<open>
  \<^verbatim>\<open>close()\<close>, as the calling thread runs it; \<open>errorCode1\<close> and \<open>errorCode2\<close> are
  what the lower transport and the base class return. What the state-machine thread
  does between the notification and the end of the join is the state actions below.
\<close>

definition close_transport ::
  "nrf_error_t \<Rightarrow> nrf_error_t \<Rightarrow> H5Transport \<Rightarrow> nrf_error_t \<times> H5Transport" where
  "close_transport errorCode1 errorCode2 s =
     (let s1 = (case exitCriterias (currentState s) of
                  Some exitCriteria \<Rightarrow> set_close exitCriteria s
                | None \<Rightarrow> s);
          s2 = emit (NotifyAll stateMachineChange) s1;
          s3 = stopStateMachine s2;
          s4 = emit LowerClose s3;
          s5 = Transport_close s4
      in (if errorCode1 \<noteq> NRF_SUCCESS then errorCode1 else errorCode2, s5))"

text \<open>
  \<^verbatim>\<open>open()\<close>, as the calling thread runs it: \<open>errorCode0\<close> is what the base class
  returns, \<open>errorCode\<close> what the lower transport's \<^verbatim>\<open>open\<close> returns and \<open>reached\<close>
  what \<^verbatim>\<open>waitForState\<close> returns. \<^verbatim>\<open>startStateMachine\<close> calls \<^verbatim>\<open>std::terminate\<close>
  when the thread already exists: the result is then \<open>None\<close>.
\<close>

definition open_transport ::
  "nrf_error_t \<Rightarrow> bool \<Rightarrow> bool \<Rightarrow> nrf_error_t \<Rightarrow> bool \<Rightarrow> H5Transport
     \<Rightarrow> (nrf_error_t \<times> H5Transport) option" where
  "open_transport errorCode0 status_callback data_callback errorCode reached s =
     (let s1 = Transport_open status_callback data_callback s in
      if errorCode0 \<noteq> NRF_SUCCESS then Some (errorCode0, s1)
      else if currentState s1 \<noteq> STATE_START then Some (NRF_ERROR_INTERNAL, s1)
      else if threadJoinable s1 then None
      else
        (let s2 = emit (Wait stateMachineChange)
                    (s1\<lparr>currentState := STATE_START, threadJoinable := True\<rparr>);
             s3 = emit LowerOpen (s2\<lparr>lastPacket := [], statusCallbackBound := True\<rparr>)
         in if errorCode \<noteq> NRF_SUCCESS then
              Some (NRF_ERROR_INTERNAL,
                    emit (NotifyAll stateMachineChange)
                      (s3\<lparr>startExit := (startExit s3)\<lparr>ioResourceError := True\<rparr>\<rparr>))
            else
              (let s4 = emit (WaitFor stateWaitCondition OPEN_WAIT_TIMEOUT)
                          (emit (NotifyAll stateMachineChange)
                             (s3\<lparr>startExit := (startExit s3)\<lparr>isOpened := True\<rparr>\<rparr>))
               in Some (if reached then NRF_SUCCESS else NRF_ERROR_TIMEOUT, s4))))"

subsection \<open>The state machine\<close>

text \<open>
  \<^verbatim>\<open>isFullfilled()\<close> of the five exit-criteria classes is declared in
  \<^verbatim>\<open>h5_transport.h\<close>, which is not among the sources: the state actions take the five
  predicates as a parameter.
\<close>

record fulfilment =
  isFullfilled_Start :: "StartExitCriterias \<Rightarrow> bool"
  isFullfilled_Reset :: "ResetExitCriterias \<Rightarrow> bool"
  isFullfilled_Uninitialized :: "UninitializedExitCriterias \<Rightarrow> bool"
  isFullfilled_Initialized :: "InitializedExitCriterias \<Rightarrow> bool"
  isFullfilled_Active :: "ActiveExitCriterias \<Rightarrow> bool"

text \<open>
  Modelled from the spec: \<^verbatim>\<open>isFullfilled()\<close>. The spec has a record fulfilled when a
  flag that ends the state is set, and lists per state the conditions under which the
  state is left: the two shared flags and the state's own success condition.
\<close>

definition isFullfilled_spec :: fulfilment where
  "isFullfilled_spec =
     \<lparr>isFullfilled_Start = (\<lambda>e. ioResourceError e \<or> close e \<or> isOpened e),
      isFullfilled_Reset = (\<lambda>e. ioResourceError e \<or> close e \<or> (resetSent e \<and> resetWait e)),
      isFullfilled_Uninitialized =
        (\<lambda>e. ioResourceError e \<or> close e \<or> (syncSent e \<and> syncRspReceived e)),
      isFullfilled_Initialized =
        (\<lambda>e. ioResourceError e \<or> close e \<or> (syncConfigSent e \<and> syncConfigRspReceived e)),
      isFullfilled_Active =
        (\<lambda>e. ioResourceError e \<or> close e \<or> syncReceived e \<or> irrecoverableSyncError e)\<rparr>"

text \<open>
  While the state-machine thread is blocked on \<^verbatim>\<open>stateMachineChange\<close> the mutex is
  released and the other threads write members of the object. They set flags of the
  record of the current state: \<^verbatim>\<open>statusHandler\<close> sets \<^verbatim>\<open>ioResourceError\<close>, \<^verbatim>\<open>close\<close>
  sets \<^verbatim>\<open>close\<close>, \<^verbatim>\<open>open\<close> sets \<^verbatim>\<open>isOpened\<close> and the dispatcher the four flags of
  received packets. The dispatcher also advances the two counters: it calls
  \<^verbatim>\<open>incrementAckNum\<close> for a reliable frame in sequence, which it accepts in
  \<^verbatim>\<open>STATE_ACTIVE\<close> only, and \<^verbatim>\<open>incrementSeqNum\<close> for an acknowledgement of the next
  number, in every state but \<^verbatim>\<open>STATE_RESET\<close>, where it returns before it looks at the
  packet type. One list of writes stands for what is written during one blocking call,
  in order; a write that cannot happen in the state of the waiting action changes
  nothing. What those threads send and call is not part of the state action's run. An
  untimed wait with no list left never returns; a timed one then returns at its
  timeout with nothing written.
\<close>

datatype shared_write =
    IoResourceError | Close | IsOpened | SyncRspReceived | SyncConfigRspReceived
  | SyncReceived | IrrecoverableSyncError | SeqNumIncremented | AckNumIncremented

fun write_shared :: "exit_class \<Rightarrow> shared_write \<Rightarrow> H5Transport \<Rightarrow> H5Transport" where
  "write_shared cls IoResourceError s = set_ioResourceError cls s"
| "write_shared cls Close s = set_close cls s"
| "write_shared StartExit IsOpened s = s\<lparr>startExit := (startExit s)\<lparr>isOpened := True\<rparr>\<rparr>"
| "write_shared UninitializedExit SyncRspReceived s =
     s\<lparr>uninitializedExit := (uninitializedExit s)\<lparr>syncRspReceived := True\<rparr>\<rparr>"
| "write_shared InitializedExit SyncConfigRspReceived s =
     s\<lparr>initializedExit := (initializedExit s)\<lparr>syncConfigRspReceived := True\<rparr>\<rparr>"
| "write_shared ActiveExit SyncReceived s =
     s\<lparr>activeExit := (activeExit s)\<lparr>syncReceived := True\<rparr>\<rparr>"
| "write_shared ActiveExit IrrecoverableSyncError s =
     s\<lparr>activeExit := (activeExit s)\<lparr>irrecoverableSyncError := True\<rparr>\<rparr>"
| "write_shared ActiveExit AckNumIncremented s = incrementAckNum s"
| "write_shared StartExit SeqNumIncremented s = incrementSeqNum s"
| "write_shared UninitializedExit SeqNumIncremented s = incrementSeqNum s"
| "write_shared InitializedExit SeqNumIncremented s = incrementSeqNum s"
| "write_shared ActiveExit SeqNumIncremented s = incrementSeqNum s"
| "write_shared cls w s = s"

definition interfere :: "exit_class \<Rightarrow> shared_write list \<Rightarrow> H5Transport \<Rightarrow> H5Transport" where
  "interfere cls wake s = fold (write_shared cls) wake s"

datatype blocking = Resumed H5Transport "shared_write list list" | Blocked H5Transport

text \<open>\<^verbatim>\<open>do { wait(lock); } while (!fulfilled)\<close>, of the START action.\<close>

fun wait_do_while ::
  "exit_class \<Rightarrow> (H5Transport \<Rightarrow> bool) \<Rightarrow> shared_write list list \<Rightarrow> H5Transport \<Rightarrow> blocking" where
  "wait_do_while cls fulfilled [] s = Blocked (emit (Wait stateMachineChange) s)"
| "wait_do_while cls fulfilled (wake # wakes) s =
     (let s1 = interfere cls wake (emit (Wait stateMachineChange) s)
      in if fulfilled s1 then Resumed s1 wakes else wait_do_while cls fulfilled wakes s1)"

text \<open>\<^verbatim>\<open>while (!fulfilled) { wait(lock); }\<close>, of the ACTIVE action.\<close>

fun wait_while ::
  "exit_class \<Rightarrow> (H5Transport \<Rightarrow> bool) \<Rightarrow> shared_write list list \<Rightarrow> H5Transport \<Rightarrow> blocking" where
  "wait_while cls fulfilled [] s =
     (if fulfilled s then Resumed s [] else Blocked (emit (Wait stateMachineChange) s))"
| "wait_while cls fulfilled (wake # wakes) s =
     (if fulfilled s then Resumed s (wake # wakes)
      else wait_while cls fulfilled wakes (interfere cls wake (emit (Wait stateMachineChange) s)))"

text \<open>
  \<^verbatim>\<open>wait_for(lock, timeout, predicate)\<close>: it returns at once when the predicate
  holds, and otherwise when the predicate has come to hold or the timeout has passed.
\<close>

definition wait_for ::
  "exit_class \<Rightarrow> nat \<Rightarrow> (H5Transport \<Rightarrow> bool) \<Rightarrow> shared_write list list \<Rightarrow> H5Transport
     \<Rightarrow> H5Transport \<times> shared_write list list" where
  "wait_for cls timeout fulfilled wakes s =
     (let s1 = emit (WaitFor stateMachineChange timeout) s in
      if fulfilled s1 then (s1, wakes)
      else (case wakes of [] \<Rightarrow> (s1, []) | wake # wakes' \<Rightarrow> (interfere cls wake s1, wakes')))"

datatype action_result =
    Returns h5_state_t H5Transport "shared_write list list"
  | NeverReturns H5Transport
  | Throws fault H5Transport

definition action_START :: "fulfilment \<Rightarrow> shared_write list list \<Rightarrow> H5Transport \<Rightarrow> action_result" where
  "action_START ful wakes s =
     (case wait_do_while StartExit (\<lambda>s. isFullfilled_Start ful (startExit s)) wakes
             (emit (NotifyAll stateMachineChange)
                (s\<lparr>startExit := reset_StartExit, stateMachineReady := True\<rparr>)) of
        Blocked s1 \<Rightarrow> NeverReturns s1
      | Resumed s1 wakes1 \<Rightarrow>
          if ioResourceError (startExit s1) then Returns STATE_FAILED s1 wakes1
          else if close (startExit s1) then Returns STATE_CLOSED s1 wakes1
          else if isOpened (startExit s1) then Returns STATE_RESET s1 wakes1
          else Returns STATE_FAILED s1 wakes1)"

definition action_RESET ::
  "fulfilment \<Rightarrow> codec \<Rightarrow> shared_write list list \<Rightarrow> H5Transport \<Rightarrow> action_result" where
  "action_RESET ful cd wakes s =
     (let s1 = sendControlPacket cd CONTROL_PKT_RESET (s\<lparr>resetExit := reset_ResetExit\<rparr>);
          s2 = (if statusCallbackBound s1 then statusHandler RESET_PERFORMED s1 else s1);
          s3 = s2\<lparr>resetExit := (resetExit s2)\<lparr>resetSent := True\<rparr>\<rparr>
      in case wait_for ResetExit RESET_WAIT_DURATION
                (\<lambda>s. isFullfilled_Reset ful (resetExit s)) wakes s3 of
           (s4, wakes1) \<Rightarrow>
             (let s5 = s4\<lparr>resetExit := (resetExit s4)\<lparr>resetWait := True\<rparr>\<rparr> in
              if ioResourceError (resetExit s5) then Returns STATE_FAILED s5 wakes1
              else if close (resetExit s5) then Returns STATE_CLOSED s5 wakes1
              else if resetSent (resetExit s5) \<and> resetWait (resetExit s5)
                then Returns STATE_UNINITIALIZED s5 wakes1
              else Returns STATE_FAILED s5 wakes1))"

text \<open>
  The \<^verbatim>\<open>while\<close> loop of the UNINITIALIZED action; the first argument is
  \<^verbatim>\<open>syncRetransmission\<close>, and its value at the end of the loop is returned.
\<close>

fun sync_loop ::
  "fulfilment \<Rightarrow> codec \<Rightarrow> nat \<Rightarrow> shared_write list list \<Rightarrow> H5Transport
     \<Rightarrow> nat \<times> H5Transport \<times> shared_write list list" where
  "sync_loop ful cd 0 wakes s = (0, s, wakes)"
| "sync_loop ful cd (Suc n) wakes s =
     (if isFullfilled_Uninitialized ful (uninitializedExit s) then (Suc n, s, wakes)
      else
        (let s1 = sendControlPacket cd CONTROL_PKT_SYNC s;
             s2 = s1\<lparr>uninitializedExit := (uninitializedExit s1)\<lparr>syncSent := True\<rparr>\<rparr>
         in case wait_for UninitializedExit NON_ACTIVE_STATE_TIMEOUT
                   (\<lambda>s. isFullfilled_Uninitialized ful (uninitializedExit s)) wakes s2 of
              (s3, wakes1) \<Rightarrow> sync_loop ful cd n wakes1 s3))"

definition action_UNINITIALIZED ::
  "fulfilment \<Rightarrow> codec \<Rightarrow> shared_write list list \<Rightarrow> H5Transport \<Rightarrow> action_result" where
  "action_UNINITIALIZED ful cd wakes s =
     (case sync_loop ful cd PACKET_RETRANSMISSIONS wakes
             (s\<lparr>uninitializedExit := reset_UninitializedExit\<rparr>) of
        (syncRetransmission, s1, wakes1) \<Rightarrow>
          if ioResourceError (uninitializedExit s1) then Returns STATE_FAILED s1 wakes1
          else if close (uninitializedExit s1) then Returns STATE_CLOSED s1 wakes1
          else if syncSent (uninitializedExit s1) \<and> syncRspReceived (uninitializedExit s1)
            then Returns STATE_INITIALIZED s1 wakes1
          else
            Returns STATE_FAILED
              (if syncRetransmission \<le> 0 then statusHandler PKT_SEND_MAX_RETRIES_REACHED s1
               else s1)
              wakes1)"

fun sync_config_loop ::
  "fulfilment \<Rightarrow> codec \<Rightarrow> nat \<Rightarrow> shared_write list list \<Rightarrow> H5Transport
     \<Rightarrow> nat \<times> H5Transport \<times> shared_write list list" where
  "sync_config_loop ful cd 0 wakes s = (0, s, wakes)"
| "sync_config_loop ful cd (Suc n) wakes s =
     (if isFullfilled_Initialized ful (initializedExit s) then (Suc n, s, wakes)
      else
        (let s1 = sendControlPacket cd CONTROL_PKT_SYNC_CONFIG s;
             s2 = s1\<lparr>initializedExit := (initializedExit s1)\<lparr>syncConfigSent := True\<rparr>\<rparr>
         in case wait_for InitializedExit NON_ACTIVE_STATE_TIMEOUT
                   (\<lambda>s. isFullfilled_Initialized ful (initializedExit s)) wakes s2 of
              (s3, wakes1) \<Rightarrow> sync_config_loop ful cd n wakes1 s3))"

definition action_INITIALIZED ::
  "fulfilment \<Rightarrow> codec \<Rightarrow> shared_write list list \<Rightarrow> H5Transport \<Rightarrow> action_result" where
  "action_INITIALIZED ful cd wakes s =
     (case sync_config_loop ful cd PACKET_RETRANSMISSIONS wakes
             (s\<lparr>initializedExit := reset_InitializedExit\<rparr>) of
        (syncRetransmission, s1, wakes1) \<Rightarrow>
          if ioResourceError (initializedExit s1) then Returns STATE_FAILED s1 wakes1
          else if close (initializedExit s1) then Returns STATE_CLOSED s1 wakes1
          else if syncConfigSent (initializedExit s1) \<and> syncConfigRspReceived (initializedExit s1)
            then Returns STATE_ACTIVE s1 wakes1
          else
            Returns STATE_FAILED
              (if syncRetransmission \<le> 0 then statusHandler PKT_SEND_MAX_RETRIES_REACHED s1
               else s1)
              wakes1)"

definition action_ACTIVE :: "fulfilment \<Rightarrow> shared_write list list \<Rightarrow> H5Transport \<Rightarrow> action_result" where
  "action_ACTIVE ful wakes s =
     (case wait_while ActiveExit (\<lambda>s. isFullfilled_Active ful (activeExit s)) wakes
             (statusHandler CONNECTION_ACTIVE
                (s\<lparr>activeExit := reset_ActiveExit, seqNum := 0, ackNum := 0\<rparr>)) of
        Blocked s1 \<Rightarrow> NeverReturns s1
      | Resumed s1 wakes1 \<Rightarrow>
          if ioResourceError (activeExit s1) then Returns STATE_FAILED s1 wakes1
          else if close (activeExit s1) then Returns STATE_CLOSED s1 wakes1
          else if syncReceived (activeExit s1) \<or> irrecoverableSyncError (activeExit s1)
            then Returns STATE_RESET s1 wakes1
          else Returns STATE_FAILED s1 wakes1)"

text \<open>
  \<^verbatim>\<open>stateActions\<close>: the map has no closure for \<^verbatim>\<open>STATE_UNKNOWN\<close>, and calling the
  empty \<^verbatim>\<open>std::function\<close> that \<^verbatim>\<open>operator[]\<close> answers with throws.
\<close>

fun stateActions ::
  "fulfilment \<Rightarrow> codec \<Rightarrow> h5_state_t \<Rightarrow> shared_write list list \<Rightarrow> H5Transport \<Rightarrow> action_result" where
  "stateActions ful cd STATE_START wakes s = action_START ful wakes s"
| "stateActions ful cd STATE_RESET wakes s = action_RESET ful cd wakes s"
| "stateActions ful cd STATE_UNINITIALIZED wakes s = action_UNINITIALIZED ful cd wakes s"
| "stateActions ful cd STATE_INITIALIZED wakes s = action_INITIALIZED ful cd wakes s"
| "stateActions ful cd STATE_ACTIVE wakes s = action_ACTIVE ful wakes s"
| "stateActions ful cd STATE_FAILED wakes s = Returns STATE_FAILED s wakes"
| "stateActions ful cd STATE_CLOSED wakes s = Returns STATE_CLOSED s wakes"
| "stateActions ful cd STATE_UNKNOWN wakes s = Throws BadFunctionCall s"

text \<open>
  \<^verbatim>\<open>stateMachineWorker\<close>. The loop may run for ever, so it is given fuel: the number
  of state actions it may still call. The state it has reached is part of every result.
\<close>

datatype worker_result =
    Exited H5Transport
  | StillRunning H5Transport
  | Stuck H5Transport
  | Terminated fault H5Transport

fun stateMachineWorker ::
  "nat \<Rightarrow> fulfilment \<Rightarrow> codec \<Rightarrow> shared_write list list \<Rightarrow> H5Transport \<Rightarrow> worker_result" where
  "stateMachineWorker 0 ful cd wakes s =
     (if currentState s \<noteq> STATE_FAILED \<and> currentState s \<noteq> STATE_CLOSED then StillRunning s
      else Exited s)"
| "stateMachineWorker (Suc fuel) ful cd wakes s =
     (if currentState s \<noteq> STATE_FAILED \<and> currentState s \<noteq> STATE_CLOSED then
        (case stateActions ful cd (currentState s) wakes s of
           NeverReturns s1 \<Rightarrow> Stuck s1
         | Throws f s1 \<Rightarrow> Terminated f s1
         | Returns nextState s1 wakes1 \<Rightarrow>
             stateMachineWorker fuel ful cd wakes1
               (emit (NotifyAll stateWaitCondition)
                  ((emit (LogStateTransition (currentState s1) nextState) s1)
                     \<lparr>currentState := nextState\<rparr>)))
      else Exited s)"

text \<open>
  The order in which section 4.4 of the specification resolves the exit of a state:
  an IO error first, then close, then the state's own way out, else failure.
\<close>

definition next_by_priority :: "bool \<Rightarrow> bool \<Rightarrow> bool \<Rightarrow> h5_state_t \<Rightarrow> h5_state_t" where
  "next_by_priority io_error closing success target =
     (if io_error then STATE_FAILED
      else if closing then STATE_CLOSED
      else if success then target
      else STATE_FAILED)"

text \<open>The edges of the state machine, as section 4.4 of the specification lists them.\<close>

fun h5_edge :: "h5_state_t \<Rightarrow> h5_state_t \<Rightarrow> bool" where
  "h5_edge STATE_START t = (t = STATE_FAILED \<or> t = STATE_CLOSED \<or> t = STATE_RESET)"
| "h5_edge STATE_RESET t = (t = STATE_FAILED \<or> t = STATE_CLOSED \<or> t = STATE_UNINITIALIZED)"
| "h5_edge STATE_UNINITIALIZED t =
     (t = STATE_FAILED \<or> t = STATE_CLOSED \<or> t = STATE_INITIALIZED)"
| "h5_edge STATE_INITIALIZED t = (t = STATE_FAILED \<or> t = STATE_CLOSED \<or> t = STATE_ACTIVE)"
| "h5_edge STATE_ACTIVE t = (t = STATE_FAILED \<or> t = STATE_CLOSED \<or> t = STATE_RESET)"
| "h5_edge STATE_FAILED t = False"
| "h5_edge STATE_CLOSED t = False"
| "h5_edge STATE_UNKNOWN t = False"

subsection \<open>Runs, observations and reachable objects\<close>

text \<open>The two decoding steps of \<^verbatim>\<open>processPacket\<close>, as one partial function.\<close>

definition decode :: "codec \<Rightarrow> payload_t \<Rightarrow> h5_decoded option" where
  "decode cd packet =
     (case slip_decode cd packet of
        None \<Rightarrow> None
      | Some slipPayload \<Rightarrow> h5_decode cd slipPayload)"


text \<open>What the upper data callback was given, and what the lower transport was sent.\<close>

fun delivered :: "effect list \<Rightarrow> payload_t list" where
  "delivered [] = []"
| "delivered (UpperData p # es) = p # delivered es"
| "delivered (e # es) = delivered es"

fun transmitted :: "effect list \<Rightarrow> payload_t list" where
  "transmitted [] = []"
| "transmitted (LowerSend p # es) = p # transmitted es"
| "transmitted (e # es) = transmitted es"



text \<open>The value of \<^verbatim>\<open>seqNum\<close> after the writes of the other threads during one wait.\<close>

fun seq_after :: "counter_write list \<Rightarrow> u8 \<Rightarrow> u8" where
  "seq_after [] n = n"
| "seq_after (IncrementSeqNum # ws) n = seq_after ws ((n + 1) AND 0x07)"
| "seq_after (IncrementAckNum # ws) n = seq_after ws n"
| "seq_after (ZeroCounters # ws) n = seq_after ws 0"

text \<open>The state transitions the worker logged, and a walk along edges of section 4.4.\<close>

fun transitions :: "effect list \<Rightarrow> (h5_state_t \<times> h5_state_t) list" where
  "transitions [] = []"
| "transitions (LogStateTransition a b # es) = (a, b) # transitions es"
| "transitions (e # es) = transitions es"

fun h5_walk :: "h5_state_t \<Rightarrow> (h5_state_t \<times> h5_state_t) list \<Rightarrow> h5_state_t \<Rightarrow> bool" where
  "h5_walk a [] b = (a = b)"
| "h5_walk a ((x, y) # ts) b = (x = a \<and> h5_edge x y \<and> h5_walk y ts b)"

text \<open>The object as a state action leaves it, however the action ends.\<close>

fun action_state :: "action_result \<Rightarrow> H5Transport" where
  "action_state (Returns nextState s wakes) = s"
| "action_state (NeverReturns s) = s"
| "action_state (Throws f s) = s"

fun worker_state :: "worker_result \<Rightarrow> H5Transport" where
  "worker_state (Exited s) = s"
| "worker_state (StillRunning s) = s"
| "worker_state (Stuck s) = s"
| "worker_state (Terminated f s) = s"

text \<open>
  What the state actions and the dispatcher have in common: they leave \<^verbatim>\<open>currentState\<close>
  and \<^verbatim>\<open>lastPacket\<close> alone, keep the counters below 8 when they were, and add to the
  effects without logging a state transition.
\<close>

definition quiet_step :: "H5Transport \<Rightarrow> H5Transport \<Rightarrow> bool" where
  "quiet_step s s' =
     (currentState s' = currentState s \<and> lastPacket s' = lastPacket s \<and>
      (seqNum s \<le> 7 \<and> ackNum s \<le> 7 \<longrightarrow> seqNum s' \<le> 7 \<and> ackNum s' \<le> 7) \<and>
      (\<exists>es. effects s' = effects s @ es \<and> transitions es = []))"

text \<open>The counters are in range and no packet awaits retransmission.\<close>

definition settled :: "H5Transport \<Rightarrow> bool" where
  "settled s = (seqNum s \<le> 7 \<and> ackNum s \<le> 7 \<and> lastPacket s = [])"

text \<open>
  The objects a program can reach: the constructor's, and from any reached object the
  one a call of \<^verbatim>\<open>dataHandler\<close>, \<^verbatim>\<open>statusHandler\<close>, \<^verbatim>\<open>send\<close>, \<^verbatim>\<open>open\<close> or \<^verbatim>\<open>close\<close>
  leaves behind, and the one the state-machine thread has reached after any number of
  state actions.
\<close>

inductive reachable :: "fulfilment \<Rightarrow> codec \<Rightarrow> H5Transport reassembler \<Rightarrow> bool"
  for ful :: fulfilment and cd :: codec where
  constructed: "reachable ful cd (H5Transport_new retransmission_interval)"
| received:
    "reachable ful cd r \<Longrightarrow> dataHandler cd data r = Inr r' \<Longrightarrow> reachable ful cd r'"
| status:
    "reachable ful cd r \<Longrightarrow> reachable ful cd (r\<lparr>members := statusHandler code (members r)\<rparr>)"
| sent:
    "reachable ful cd r \<Longrightarrow> send cd data waits (members r) = (rc, m)
       \<Longrightarrow> reachable ful cd (r\<lparr>members := m\<rparr>)"
| opened:
    "reachable ful cd r
       \<Longrightarrow> open_transport errorCode0 status_callback data_callback errorCode reached (members r)
             = Some (rc, m)
       \<Longrightarrow> reachable ful cd (r\<lparr>members := m\<rparr>)"
| closed:
    "reachable ful cd r \<Longrightarrow> close_transport errorCode1 errorCode2 (members r) = (rc, m)
       \<Longrightarrow> reachable ful cd (r\<lparr>members := m\<rparr>)"
| worked:
    "reachable ful cd r
       \<Longrightarrow> worker_state (stateMachineWorker fuel ful cd wakes (members r)) = m
       \<Longrightarrow> reachable ful cd (r\<lparr>members := m\<rparr>)"

subsection \<open>A codec for concrete runs\<close>

text \<open>
  A stand-in for the two codecs, used where a run is evaluated on concrete bytes: the
  frame is the payload between two 0xC0 bytes with nothing escaped, and the header is
  four bytes holding the sequence number, the acknowledgement number, the reliable flag
  and the packet type.
\<close>

definition plain_pkt_type :: "u8 \<Rightarrow> h5_pkt_type_t option" where
  "plain_pkt_type b =
     (if b = 0 then Some ACK_PACKET
      else if b = 1 then Some HCI_COMMAND_PACKET
      else if b = 2 then Some ACL_DATA_PACKET
      else if b = 3 then Some SYNC_DATA_PACKET
      else if b = 4 then Some HCI_EVENT_PACKET
      else if b = 5 then Some RESET_PACKET
      else if b = 14 then Some VENDOR_SPECIFIC_PACKET
      else if b = 15 then Some LINK_CONTROL_PACKET
      else None)"

fun plain_pkt_code :: "h5_pkt_type_t \<Rightarrow> u8" where
  "plain_pkt_code ACK_PACKET = 0"
| "plain_pkt_code HCI_COMMAND_PACKET = 1"
| "plain_pkt_code ACL_DATA_PACKET = 2"
| "plain_pkt_code SYNC_DATA_PACKET = 3"
| "plain_pkt_code HCI_EVENT_PACKET = 4"
| "plain_pkt_code RESET_PACKET = 5"
| "plain_pkt_code VENDOR_SPECIFIC_PACKET = 14"
| "plain_pkt_code LINK_CONTROL_PACKET = 15"

fun plain_h5_decode :: "payload_t \<Rightarrow> h5_decoded option" where
  "plain_h5_decode (sq # ak # rel # ty # pl) =
     (case plain_pkt_type ty of
        None \<Rightarrow> None
      | Some t \<Rightarrow>
          Some \<lparr>h5Payload = pl, seq_num = sq, ack_num = ak, reliable_packet = (rel \<noteq> 0),
                packet_type = t\<rparr>)"
| "plain_h5_decode p = None"

definition plain_slip_decode :: "payload_t \<Rightarrow> payload_t option" where
  "plain_slip_decode p =
     (if 2 \<le> length p \<and> hd p = 0xC0 \<and> last p = 0xC0 then Some (butlast (tl p)) else None)"

definition plain_codec :: codec where
  "plain_codec =
     \<lparr>slip_encode = (\<lambda>p. 0xC0 # p @ [0xC0]),
      slip_decode = plain_slip_decode,
      h5_encode = (\<lambda>pl sq ak crc rel ty. [sq, ak, if rel then 1 else 0, plain_pkt_code ty] @ pl),
      h5_decode = plain_h5_decode,
      SyncConfigField = 0x11\<rparr>"

section \<open>Verification\<close>

subsection \<open>What the small operations leave alone\<close>

lemma emit_fields [simp]:
  "seqNum (emit e s) = seqNum s"
  "ackNum (emit e s) = ackNum s"
  "currentState (emit e s) = currentState s"
  "lastPacket (emit e s) = lastPacket s"
  "retransmissionInterval (emit e s) = retransmissionInterval s"
  "startExit (emit e s) = startExit s"
  "resetExit (emit e s) = resetExit s"
  "uninitializedExit (emit e s) = uninitializedExit s"
  "initializedExit (emit e s) = initializedExit s"
  "activeExit (emit e s) = activeExit s"
  "upperStatusCallbackSet (emit e s) = upperStatusCallbackSet s"
  "upperDataCallbackSet (emit e s) = upperDataCallbackSet s"
  "statusCallbackBound (emit e s) = statusCallbackBound s"
  "threadJoinable (emit e s) = threadJoinable s"
  "effects (emit e s) = effects s @ [e]"
  by (simp_all add: emit_def)

lemma logPacket_fields [simp]:
  "seqNum (logPacket out s) = seqNum s"
  "ackNum (logPacket out s) = ackNum s"
  "currentState (logPacket out s) = currentState s"
  "lastPacket (logPacket out s) = lastPacket s"
  "retransmissionInterval (logPacket out s) = retransmissionInterval s"
  "startExit (logPacket out s) = startExit s"
  "resetExit (logPacket out s) = resetExit s"
  "uninitializedExit (logPacket out s) = uninitializedExit s"
  "initializedExit (logPacket out s) = initializedExit s"
  "activeExit (logPacket out s) = activeExit s"
  "upperStatusCallbackSet (logPacket out s) = upperStatusCallbackSet s"
  "upperDataCallbackSet (logPacket out s) = upperDataCallbackSet s"
  "statusCallbackBound (logPacket out s) = statusCallbackBound s"
  "threadJoinable (logPacket out s) = threadJoinable s"
  "effects (logPacket out s) = effects s"
  by (simp_all add: logPacket_def)

lemma sendControlPacket_fields [simp]:
  "seqNum (sendControlPacket cd ty s) = seqNum s"
  "ackNum (sendControlPacket cd ty s) = ackNum s"
  "currentState (sendControlPacket cd ty s) = currentState s"
  "lastPacket (sendControlPacket cd ty s) = lastPacket s"
  "retransmissionInterval (sendControlPacket cd ty s) = retransmissionInterval s"
  "startExit (sendControlPacket cd ty s) = startExit s"
  "resetExit (sendControlPacket cd ty s) = resetExit s"
  "uninitializedExit (sendControlPacket cd ty s) = uninitializedExit s"
  "initializedExit (sendControlPacket cd ty s) = initializedExit s"
  "activeExit (sendControlPacket cd ty s) = activeExit s"
  "upperStatusCallbackSet (sendControlPacket cd ty s) = upperStatusCallbackSet s"
  "upperDataCallbackSet (sendControlPacket cd ty s) = upperDataCallbackSet s"
  "statusCallbackBound (sendControlPacket cd ty s) = statusCallbackBound s"
  "threadJoinable (sendControlPacket cd ty s) = threadJoinable s"
  "effects (sendControlPacket cd ty s) = effects s @ [LowerSend (controlPacket cd ty (ackNum s))]"
  by (simp_all add: sendControlPacket_def)

lemma set_ioResourceError_fields [simp]:
  "seqNum (set_ioResourceError c s) = seqNum s"
  "ackNum (set_ioResourceError c s) = ackNum s"
  "currentState (set_ioResourceError c s) = currentState s"
  "lastPacket (set_ioResourceError c s) = lastPacket s"
  "retransmissionInterval (set_ioResourceError c s) = retransmissionInterval s"
  "upperStatusCallbackSet (set_ioResourceError c s) = upperStatusCallbackSet s"
  "upperDataCallbackSet (set_ioResourceError c s) = upperDataCallbackSet s"
  "statusCallbackBound (set_ioResourceError c s) = statusCallbackBound s"
  "threadJoinable (set_ioResourceError c s) = threadJoinable s"
  "effects (set_ioResourceError c s) = effects s"
  by (cases c; simp)+

lemma set_close_fields [simp]:
  "seqNum (set_close c s) = seqNum s"
  "ackNum (set_close c s) = ackNum s"
  "currentState (set_close c s) = currentState s"
  "lastPacket (set_close c s) = lastPacket s"
  "retransmissionInterval (set_close c s) = retransmissionInterval s"
  "upperStatusCallbackSet (set_close c s) = upperStatusCallbackSet s"
  "upperDataCallbackSet (set_close c s) = upperDataCallbackSet s"
  "statusCallbackBound (set_close c s) = statusCallbackBound s"
  "threadJoinable (set_close c s) = threadJoinable s"
  "effects (set_close c s) = effects s"
  by (cases c; simp)+

lemma statusHandler_fields [simp]:
  "seqNum (statusHandler code s) = seqNum s"
  "ackNum (statusHandler code s) = ackNum s"
  "currentState (statusHandler code s) = currentState s"
  "lastPacket (statusHandler code s) = lastPacket s"
  "retransmissionInterval (statusHandler code s) = retransmissionInterval s"
  "upperStatusCallbackSet (statusHandler code s) = upperStatusCallbackSet s"
  "upperDataCallbackSet (statusHandler code s) = upperDataCallbackSet s"
  "statusCallbackBound (statusHandler code s) = statusCallbackBound s"
  "threadJoinable (statusHandler code s) = threadJoinable s"
  by (simp_all add: statusHandler_def Let_def split: option.split)

lemma statusHandler_other:
  "code \<noteq> IO_RESOURCES_UNAVAILABLE \<Longrightarrow>
   statusHandler code s = (if upperStatusCallbackSet s then emit (UpperStatus code) s else s)"
  by (simp add: statusHandler_def)


lemma incr_fields [simp]:
  "seqNum (incrementSeqNum s) = (seqNum s + 1) AND 0x07"
  "ackNum (incrementSeqNum s) = ackNum s"
  "seqNum (incrementAckNum s) = seqNum s"
  "ackNum (incrementAckNum s) = (ackNum s + 1) AND 0x07"
  "currentState (incrementSeqNum s) = currentState s"
  "currentState (incrementAckNum s) = currentState s"
  "lastPacket (incrementSeqNum s) = lastPacket s"
  "lastPacket (incrementAckNum s) = lastPacket s"
  "effects (incrementSeqNum s) = effects s"
  "effects (incrementAckNum s) = effects s"
  "retransmissionInterval (incrementSeqNum s) = retransmissionInterval s"
  "retransmissionInterval (incrementAckNum s) = retransmissionInterval s"
  "upperStatusCallbackSet (incrementSeqNum s) = upperStatusCallbackSet s"
  "upperStatusCallbackSet (incrementAckNum s) = upperStatusCallbackSet s"
  "upperDataCallbackSet (incrementSeqNum s) = upperDataCallbackSet s"
  "upperDataCallbackSet (incrementAckNum s) = upperDataCallbackSet s"
  "startExit (incrementSeqNum s) = startExit s"
  "startExit (incrementAckNum s) = startExit s"
  "resetExit (incrementSeqNum s) = resetExit s"
  "resetExit (incrementAckNum s) = resetExit s"
  "uninitializedExit (incrementSeqNum s) = uninitializedExit s"
  "uninitializedExit (incrementAckNum s) = uninitializedExit s"
  "initializedExit (incrementSeqNum s) = initializedExit s"
  "initializedExit (incrementAckNum s) = initializedExit s"
  "activeExit (incrementSeqNum s) = activeExit s"
  "activeExit (incrementAckNum s) = activeExit s"
  by (simp_all add: incrementSeqNum_def incrementAckNum_def)

lemma and7_le: "(x :: u8) AND 0x07 \<le> 7"
  by (rule word_and_le1)

lemma controlPacket_not_ack:
  "type \<noteq> CONTROL_PKT_ACK \<Longrightarrow> controlPacket cd type a = controlPacket cd type b"
  by (simp add: controlPacket_def)


subsection \<open>The packet dispatcher\<close>

lemma processPacket_decoded:
  assumes "slip_decode cd packet = Some slipPayload" and "h5_decode cd slipPayload = Some h"
  shows "processPacket cd packet s =
     (let s = logPacket False s in
      if currentState s = STATE_RESET then Inr (emit (NotifyAll stateMachineChange) s)
      else if packet_type h = LINK_CONTROL_PACKET then processLinkControl cd (h5Payload h) s
      else if packet_type h = VENDOR_SPECIFIC_PACKET then processVendorSpecific cd h s
      else if packet_type h = ACK_PACKET then processAck h s
      else Inr s)"
  using assms by (simp add: processPacket_def)




lemma delivered_append [simp]: "delivered (xs @ ys) = delivered xs @ delivered ys"
  by (induction xs rule: delivered.induct) simp_all

lemma transmitted_append [simp]: "transmitted (xs @ ys) = transmitted xs @ transmitted ys"
  by (induction xs rule: transmitted.induct) simp_all





lemma processAck_cases:
  "processAck h s =
     (if ack_num h = (seqNum s + 1) AND 0x07 then
        Inr (s\<lparr>seqNum := (seqNum s + 1) AND 0x07,
               effects := effects s @ [NotifyAll ackWaitCondition]\<rparr>)
      else if ack_num h = seqNum s then Inr s
      else if currentState s = STATE_ACTIVE then
        Inr (s\<lparr>activeExit := (activeExit s)\<lparr>irrecoverableSyncError := True\<rparr>,
               effects := effects s @ [NotifyAll stateMachineChange]\<rparr>)
      else Inl NullPointerWrite)"
  by (cases "currentState s")
     (simp_all add: processAck_def through_cast_def incrementSeqNum_def emit_def)

text \<open>
  C1: what \<^verbatim>\<open>processPacket\<close> does with a decoded ACK packet in every state but
  \<^verbatim>\<open>STATE_RESET\<close>. The branch does not test \<^verbatim>\<open>currentState\<close>: an acknowledgement
  number one above \<^verbatim>\<open>seqNum\<close> advances \<^verbatim>\<open>seqNum\<close> and notifies the ack condition in any
  state, and any other number but \<^verbatim>\<open>seqNum\<close> itself is a write through a null pointer
  unless the state is \<^verbatim>\<open>STATE_ACTIVE\<close>. The evaluation below is in
  \<^verbatim>\<open>STATE_UNINITIALIZED\<close>, on a fresh object.
\<close>

theorem ack_ignores_state:
  "decode cd packet = Some h \<longrightarrow> packet_type h = ACK_PACKET \<longrightarrow>
   currentState s \<noteq> STATE_RESET \<longrightarrow>
   processPacket cd packet s =
     (if ack_num h = (seqNum s + 1) AND 0x07 then
        Inr (s\<lparr>seqNum := (seqNum s + 1) AND 0x07,
               incomingPacketCount := incomingPacketCount s + 1,
               effects := effects s @ [NotifyAll ackWaitCondition]\<rparr>)
      else if ack_num h = seqNum s then
        Inr (s\<lparr>incomingPacketCount := incomingPacketCount s + 1\<rparr>)
      else if currentState s = STATE_ACTIVE then
        Inr (s\<lparr>incomingPacketCount := incomingPacketCount s + 1,
               activeExit := (activeExit s)\<lparr>irrecoverableSyncError := True\<rparr>,
               effects := effects s @ [NotifyAll stateMachineChange]\<rparr>)
      else Inl NullPointerWrite)"
proof (intro impI)
  assume dec: "decode cd packet = Some h" and ty: "packet_type h = ACK_PACKET"
    and st: "currentState s \<noteq> STATE_RESET"
  from dec obtain slipPayload where
    a: "slip_decode cd packet = Some slipPayload" and b: "h5_decode cd slipPayload = Some h"
    by (auto simp add: decode_def split: option.splits)
  show "processPacket cd packet s =
     (if ack_num h = (seqNum s + 1) AND 0x07 then
        Inr (s\<lparr>seqNum := (seqNum s + 1) AND 0x07,
               incomingPacketCount := incomingPacketCount s + 1,
               effects := effects s @ [NotifyAll ackWaitCondition]\<rparr>)
      else if ack_num h = seqNum s then
        Inr (s\<lparr>incomingPacketCount := incomingPacketCount s + 1\<rparr>)
      else if currentState s = STATE_ACTIVE then
        Inr (s\<lparr>incomingPacketCount := incomingPacketCount s + 1,
               activeExit := (activeExit s)\<lparr>irrecoverableSyncError := True\<rparr>,
               effects := effects s @ [NotifyAll stateMachineChange]\<rparr>)
      else Inl NullPointerWrite)"
    using ty st
    by (simp add: processPacket_decoded [OF a b] Let_def processAck_cases logPacket_def)
qed

theorem ack_ignores_state_witness:
  "processPacket plain_codec [0xC0, 0, 1, 0, 0, 0xC0]
     ((members (H5Transport_new 250))\<lparr>currentState := STATE_UNINITIALIZED\<rparr>) =
   Inr ((members (H5Transport_new 250))
          \<lparr>currentState := STATE_UNINITIALIZED, seqNum := 1, incomingPacketCount := 1,
           effects := [NotifyAll ackWaitCondition]\<rparr>) \<and>
   processPacket plain_codec [0xC0, 0, 2, 0, 0, 0xC0]
     ((members (H5Transport_new 250))\<lparr>currentState := STATE_UNINITIALIZED\<rparr>) =
   Inl NullPointerWrite"
proof -
  let ?s = "(members (H5Transport_new 250))\<lparr>currentState := STATE_UNINITIALIZED\<rparr>"
  let ?h1 = "\<lparr>h5Payload = [], seq_num = 0, ack_num = 1, reliable_packet = False,
              packet_type = ACK_PACKET\<rparr>"
  let ?h2 = "\<lparr>h5Payload = [], seq_num = 0, ack_num = 2, reliable_packet = False,
              packet_type = ACK_PACKET\<rparr>"
  have d1: "decode plain_codec [0xC0, 0, 1, 0, 0, 0xC0] = Some ?h1"
    by (simp add: decode_def plain_codec_def plain_slip_decode_def plain_pkt_type_def)
  have d2: "decode plain_codec [0xC0, 0, 2, 0, 0, 0xC0] = Some ?h2"
    by (simp add: decode_def plain_codec_def plain_slip_decode_def plain_pkt_type_def)
  have t1: "packet_type ?h1 = ACK_PACKET" and t2: "packet_type ?h2 = ACK_PACKET"
    by simp_all
  have st: "currentState ?s \<noteq> STATE_RESET"
    by simp
  show ?thesis
    using ack_ignores_state [rule_format, OF d1 t1 st]
      ack_ignores_state [rule_format, OF d2 t2 st]
    by (simp add: H5Transport_new_def)
qed

subsection \<open>The byte reassembler\<close>


lemma dataHandler_loop_buffer:
  "dataHandler_loop pp data packet r = Inr (p, r') \<Longrightarrow>
   (packet = [] \<longrightarrow> unprocessedData r = []) \<Longrightarrow> (p = [] \<longrightarrow> unprocessedData r' = [])"
proof (induction data arbitrary: packet r)
  case Nil
  then show ?case by simp
next
  case (Cons b bs)
  then show ?case
    by (auto split: if_splits sum.splits)
qed


lemma dataHandler_with_carried:
  "dataHandler_with pp data r =
     map_sum id carried (dataHandler_loop pp data (unprocessedData r) r)"
proof -
  have start: "(if unprocessedData r \<noteq> [] then [] @ unprocessedData r else []) = unprocessedData r"
    by simp
  show ?thesis
  proof (cases "dataHandler_loop pp data (unprocessedData r) r")
    case (Inl f)
    then show ?thesis
      unfolding dataHandler_with_def start by simp
  next
    case (Inr pr)
    obtain p :: payload_t and r' :: "'a reassembler" where pr: "pr = (p, r')"
      by (cases pr)
    have run: "dataHandler_loop pp data (unprocessedData r) r = Inr (p, r')"
      using Inr pr by simp
    have "p = [] \<longrightarrow> unprocessedData r' = []"
      by (rule dataHandler_loop_buffer [OF run]) simp
    then have "(if p \<noteq> [] then r'\<lparr>unprocessedData := p\<rparr> else r') = r'\<lparr>unprocessedData := p\<rparr>"
      by auto
    with run show ?thesis
      unfolding dataHandler_with_def start by (simp add: carried_def)
  qed
qed









subsection \<open>The reliable sender\<close>

lemma fold_other_thread_write:
  "seqNum (fold other_thread_write w s) = seq_after w (seqNum s)"
  "lastPacket (fold other_thread_write w s) = lastPacket s"
  "effects (fold other_thread_write w s) = effects s"
  "retransmissionInterval (fold other_thread_write w s) = retransmissionInterval s"
  "currentState (fold other_thread_write w s) = currentState s"
proof (induction w arbitrary: s)
  case Nil
  {
    case 1 show ?case by simp
  next
    case 2 show ?case by simp
  next
    case 3 show ?case by simp
  next
    case 4 show ?case by simp
  next
    case 5 show ?case by simp
  }
next
  case (Cons a w)
  {
    case 1 show ?case by (cases a) (simp_all add: Cons.IH)
  next
    case 2 show ?case by (cases a) (simp_all add: Cons.IH)
  next
    case 3 show ?case by (cases a) (simp_all add: Cons.IH)
  next
    case 4 show ?case by (cases a) (simp_all add: Cons.IH)
  next
    case 5 show ?case by (cases a) (simp_all add: Cons.IH)
  }
qed

lemma ex_nth_Cons:
  "(\<exists>i<Suc n. i < length (w # ws) \<and> P ((w # ws) ! i)) =
   (P w \<or> (\<exists>i<n. i < length ws \<and> P (ws ! i)))"
proof
  assume "\<exists>i<Suc n. i < length (w # ws) \<and> P ((w # ws) ! i)"
  then obtain i where i: "i < Suc n" "i < length (w # ws)" "P ((w # ws) ! i)"
    by blast
  show "P w \<or> (\<exists>i<n. i < length ws \<and> P (ws ! i))"
  proof (cases i)
    case 0
    with i show ?thesis by simp
  next
    case (Suc j)
    with i have "j < n" "j < length ws" "P (ws ! j)" by simp_all
    then show ?thesis by blast
  qed
next
  assume "P w \<or> (\<exists>i<n. i < length ws \<and> P (ws ! i))"
  then show "\<exists>i<Suc n. i < length (w # ws) \<and> P ((w # ws) ! i)"
  proof
    assume "P w"
    then have "0 < Suc n \<and> 0 < length (w # ws) \<and> P ((w # ws) ! 0)" by simp
    then show ?thesis by blast
  next
    assume "\<exists>i<n. i < length ws \<and> P (ws ! i)"
    then obtain j where "j < n" "j < length ws" "P (ws ! j)" by blast
    then have "Suc j < Suc n \<and> Suc j < length (w # ws) \<and> P ((w # ws) ! Suc j)" by simp
    then show ?thesis by blast
  qed
qed

lemma send_loop_outcome:
  "\<exists>k. k \<le> n \<and> (0 < n \<longrightarrow> 1 \<le> k) \<and>
     effects (snd (send_loop n waits s)) =
       effects s @ concat (replicate k
         [LowerSend (lastPacket s), WaitFor ackWaitCondition (retransmissionInterval s)]) \<and>
     (fst (send_loop n waits s) = NRF_ERROR_TIMEOUT \<longrightarrow> k = n) \<and>
     lastPacket (snd (send_loop n waits s)) = [] \<and>
     (fst (send_loop n waits s) = NRF_SUCCESS) =
       (\<exists>i<n. i < length waits \<and> seq_after (waits ! i) (seqNum s) \<noteq> seqNum s) \<and>
     (fst (send_loop n waits s) = NRF_ERROR_TIMEOUT) =
       (\<not> (\<exists>i<n. i < length waits \<and> seq_after (waits ! i) (seqNum s) \<noteq> seqNum s))"
proof (induction n arbitrary: waits s)
  case 0
  show ?case by simp
next
  case (Suc n)
  define w where "w = (case waits of [] \<Rightarrow> [] | w # _ \<Rightarrow> w)"
  define s1 where "s1 = emit (LowerSend (lastPacket s)) (logPacket True s)"
  define s2 where "s2 = fold other_thread_write w
      (emit (WaitFor ackWaitCondition (retransmissionInterval s1)) s1)"
  let ?pair = "[LowerSend (lastPacket s), WaitFor ackWaitCondition (retransmissionInterval s)]"
  have seq2: "seqNum s2 = seq_after w (seqNum s)"
    and last2: "lastPacket s2 = lastPacket s"
    and int2: "retransmissionInterval s2 = retransmissionInterval s"
    and eff2: "effects s2 = effects s @ ?pair"
    by (simp_all add: s2_def s1_def fold_other_thread_write)
  have unfold: "send_loop (Suc n) waits s =
      (if seqNum s2 \<noteq> seqNum s then (NRF_SUCCESS, s2\<lparr>lastPacket := []\<rparr>)
       else send_loop n (tl waits) s2)"
    by (simp add: Let_def s2_def s1_def w_def)
  have ex: "(\<exists>i<Suc n. i < length waits \<and> seq_after (waits ! i) (seqNum s) \<noteq> seqNum s) =
      (seq_after w (seqNum s) \<noteq> seqNum s \<or>
       (\<exists>i<n. i < length (tl waits) \<and> seq_after (tl waits ! i) (seqNum s) \<noteq> seqNum s))"
  proof (cases waits)
    case Nil
    then show ?thesis by (simp add: w_def)
  next
    case (Cons a ws)
    show ?thesis
      unfolding Cons w_def
      using ex_nth_Cons [of n a ws "\<lambda>x. seq_after x (seqNum s) \<noteq> seqNum s"]
      by simp
  qed
  show ?case
  proof (cases "seqNum s2 \<noteq> seqNum s")
    case True
    have "(1::nat) \<le> Suc n \<and> (0 < Suc n \<longrightarrow> (1::nat) \<le> 1) \<and>
      effects (snd (send_loop (Suc n) waits s)) = effects s @ concat (replicate 1 ?pair) \<and>
      (fst (send_loop (Suc n) waits s) = NRF_ERROR_TIMEOUT \<longrightarrow> 1 = Suc n) \<and>
      lastPacket (snd (send_loop (Suc n) waits s)) = [] \<and>
      (fst (send_loop (Suc n) waits s) = NRF_SUCCESS) =
        (\<exists>i<Suc n. i < length waits \<and> seq_after (waits ! i) (seqNum s) \<noteq> seqNum s) \<and>
      (fst (send_loop (Suc n) waits s) = NRF_ERROR_TIMEOUT) =
        (\<not> (\<exists>i<Suc n. i < length waits \<and> seq_after (waits ! i) (seqNum s) \<noteq> seqNum s))"
      using True seq2 eff2 unfolding unfold ex by simp
    then show ?thesis by blast
  next
    case False
    then have same: "seqNum s2 = seqNum s" by simp
    from Suc.IH [of "tl waits" s2] obtain k where k: "k \<le> n"
      and e: "effects (snd (send_loop n (tl waits) s2)) = effects s2 @ concat (replicate k
         [LowerSend (lastPacket s2), WaitFor ackWaitCondition (retransmissionInterval s2)])"
      and t: "fst (send_loop n (tl waits) s2) = NRF_ERROR_TIMEOUT \<longrightarrow> k = n"
      and l: "lastPacket (snd (send_loop n (tl waits) s2)) = []"
      and ok: "(fst (send_loop n (tl waits) s2) = NRF_SUCCESS) =
       (\<exists>i<n. i < length (tl waits) \<and> seq_after (tl waits ! i) (seqNum s2) \<noteq> seqNum s2)"
      and to: "(fst (send_loop n (tl waits) s2) = NRF_ERROR_TIMEOUT) =
       (\<not> (\<exists>i<n. i < length (tl waits) \<and> seq_after (tl waits ! i) (seqNum s2) \<noteq> seqNum s2))"
      by blast
    have nochange: "\<not> seq_after w (seqNum s) \<noteq> seqNum s"
      using same seq2 by simp
    have "Suc k \<le> Suc n \<and> (0 < Suc n \<longrightarrow> 1 \<le> Suc k) \<and>
      effects (snd (send_loop (Suc n) waits s)) = effects s @ concat (replicate (Suc k) ?pair) \<and>
      (fst (send_loop (Suc n) waits s) = NRF_ERROR_TIMEOUT \<longrightarrow> Suc k = Suc n) \<and>
      lastPacket (snd (send_loop (Suc n) waits s)) = [] \<and>
      (fst (send_loop (Suc n) waits s) = NRF_SUCCESS) =
        (\<exists>i<Suc n. i < length waits \<and> seq_after (waits ! i) (seqNum s) \<noteq> seqNum s) \<and>
      (fst (send_loop (Suc n) waits s) = NRF_ERROR_TIMEOUT) =
        (\<not> (\<exists>i<Suc n. i < length waits \<and> seq_after (waits ! i) (seqNum s) \<noteq> seqNum s))"
      using k e t l ok to nochange unfolding unfold ex same last2 int2 eff2 by simp
    then show ?thesis by blast
  qed
qed


lemma send_loop_currentState:
  "currentState (snd (send_loop n waits s)) = currentState s"
proof (induction n arbitrary: waits s)
  case 0
  show ?case by simp
next
  case (Suc n)
  define s2 where "s2 = fold other_thread_write (case waits of [] \<Rightarrow> [] | w # _ \<Rightarrow> w)
      (emit (WaitFor ackWaitCondition
              (retransmissionInterval (emit (LowerSend (lastPacket s)) (logPacket True s))))
         (emit (LowerSend (lastPacket s)) (logPacket True s)))"
  have c2: "currentState s2 = currentState s"
    by (simp add: s2_def fold_other_thread_write)
  have "send_loop (Suc n) waits s =
      (if seqNum s2 \<noteq> seqNum s then (NRF_SUCCESS, s2\<lparr>lastPacket := []\<rparr>)
       else send_loop n (tl waits) s2)"
    by (simp add: Let_def s2_def)
  then show ?case
    using c2 Suc.IH [of "tl waits" s2] by simp
qed

lemma send_currentState: "currentState (snd (send cd data waits s)) = currentState s"
  by (simp add: send_def send_loop_currentState)

subsection \<open>The state machine\<close>

lemma transitions_append [simp]: "transitions (xs @ ys) = transitions xs @ transitions ys"
  by (induction xs rule: transitions.induct) simp_all

lemma quiet_refl [simp]: "quiet_step s s"
  by (simp add: quiet_step_def)

lemma quiet_trans: "quiet_step a b \<Longrightarrow> quiet_step b c \<Longrightarrow> quiet_step a c"
  unfolding quiet_step_def
proof (intro conjI)
  assume ab: "currentState b = currentState a \<and> lastPacket b = lastPacket a \<and>
      (seqNum a \<le> 7 \<and> ackNum a \<le> 7 \<longrightarrow> seqNum b \<le> 7 \<and> ackNum b \<le> 7) \<and>
      (\<exists>es. effects b = effects a @ es \<and> transitions es = [])"
    and bc: "currentState c = currentState b \<and> lastPacket c = lastPacket b \<and>
      (seqNum b \<le> 7 \<and> ackNum b \<le> 7 \<longrightarrow> seqNum c \<le> 7 \<and> ackNum c \<le> 7) \<and>
      (\<exists>es. effects c = effects b @ es \<and> transitions es = [])"
  from ab bc show "currentState c = currentState a" by simp
  from ab bc show "lastPacket c = lastPacket a" by simp
  from ab bc show "seqNum a \<le> 7 \<and> ackNum a \<le> 7 \<longrightarrow> seqNum c \<le> 7 \<and> ackNum c \<le> 7" by blast
  from ab obtain e1 where e1: "effects b = effects a @ e1" "transitions e1 = []" by blast
  from bc obtain e2 where e2: "effects c = effects b @ e2" "transitions e2 = []" by blast
  have "effects c = effects a @ (e1 @ e2) \<and> transitions (e1 @ e2) = []"
    using e1 e2 by simp
  then show "\<exists>es. effects c = effects a @ es \<and> transitions es = []" by blast
qed

lemma quiet_emit: "transitions [e] = [] \<Longrightarrow> quiet_step s (emit e s)"
  by (simp add: quiet_step_def)

lemma quiet_flags [simp]:
  "quiet_step s (s\<lparr>startExit := a\<rparr>)"
  "quiet_step s (s\<lparr>resetExit := b\<rparr>)"
  "quiet_step s (s\<lparr>uninitializedExit := c\<rparr>)"
  "quiet_step s (s\<lparr>initializedExit := d\<rparr>)"
  "quiet_step s (s\<lparr>activeExit := e\<rparr>)"
  "quiet_step s (s\<lparr>stateMachineReady := f\<rparr>)"
  by (simp_all add: quiet_step_def)

lemma quiet_set_ioResourceError [simp]: "quiet_step s (set_ioResourceError cls s)"
  by (cases cls) simp_all

lemma quiet_set_close [simp]: "quiet_step s (set_close cls s)"
  by (cases cls) simp_all

lemma quiet_counters [simp]:
  "quiet_step s (incrementSeqNum s)"
  "quiet_step s (incrementAckNum s)"
  by (simp_all add: quiet_step_def and7_le)

lemma quiet_write_shared [simp]: "quiet_step s (write_shared cls flag s)"
  by (cases cls; cases flag) simp_all

lemma quiet_interfere [simp]: "quiet_step s (interfere cls wake s)"
  unfolding interfere_def
proof (induction wake arbitrary: s)
  case Nil
  show ?case by simp
next
  case (Cons flag wake)
  have a: "quiet_step s (write_shared cls flag s)" by simp
  have b: "quiet_step (write_shared cls flag s) (fold (write_shared cls) wake (write_shared cls flag s))"
    by (rule Cons.IH)
  from quiet_trans [OF a b] show ?case
    by simp
qed

lemma quiet_logPacket [simp]: "quiet_step s (logPacket outgoing s)"
  by (simp add: quiet_step_def)

lemma quiet_sendControlPacket [simp]: "quiet_step s (sendControlPacket cd type s)"
  by (simp add: quiet_step_def)

lemma quiet_statusHandler [simp]: "quiet_step s (statusHandler code s)"
proof -
  define s0 where "s0 = (case exitCriterias (currentState s) of
                Some exitCriteria \<Rightarrow> set_ioResourceError exitCriteria s
              | None \<Rightarrow> s)"
  define s1 where "s1 = (if code = IO_RESOURCES_UNAVAILABLE
      then emit (NotifyAll stateMachineChange) s0 else s)"
  have a: "quiet_step s s0"
    by (simp add: s0_def split: option.split)
  have b: "quiet_step s0 (emit (NotifyAll stateMachineChange) s0)"
    by (simp add: quiet_emit)
  have c: "quiet_step s s1"
    using quiet_trans [OF a b] by (simp add: s1_def)
  have d: "quiet_step s1 (emit (UpperStatus code) s1)"
    by (simp add: quiet_emit)
  have "statusHandler code s = (if upperStatusCallbackSet s1 then emit (UpperStatus code) s1 else s1)"
    by (simp add: statusHandler_def s1_def s0_def)
  then show ?thesis
    using c quiet_trans [OF c d] by simp
qed

lemma quiet_wait_for:
  "wait_for cls timeout fulfilled wakes s = (s', wakes') \<Longrightarrow> quiet_step s s'"
proof -
  assume run: "wait_for cls timeout fulfilled wakes s = (s', wakes')"
  have a: "quiet_step s (emit (WaitFor stateMachineChange timeout) s)"
    by (simp add: quiet_emit)
  from run show ?thesis
    by (auto simp add: wait_for_def Let_def a split: if_splits list.splits
        intro: quiet_trans [OF a quiet_interfere])
qed

lemma quiet_wait_do_while:
  "wait_do_while cls fulfilled wakes s = Resumed s' wakes' \<or>
   wait_do_while cls fulfilled wakes s = Blocked s' \<Longrightarrow> quiet_step s s'"
proof (induction wakes arbitrary: s)
  case Nil
  then show ?case by (auto simp add: quiet_emit)
next
  case (Cons wake wakes)
  let ?s1 = "interfere cls wake (emit (Wait stateMachineChange) s)"
  have a: "quiet_step s ?s1"
    by (rule quiet_trans [OF quiet_emit quiet_interfere]) simp
  show ?case
  proof (cases "fulfilled ?s1")
    case True
    with Cons.prems a show ?thesis by (simp add: Let_def)
  next
    case False
    with Cons.prems have "wait_do_while cls fulfilled wakes ?s1 = Resumed s' wakes' \<or>
        wait_do_while cls fulfilled wakes ?s1 = Blocked s'"
      by (simp add: Let_def)
    then have "quiet_step ?s1 s'" by (rule Cons.IH)
    with a show ?thesis by (rule quiet_trans)
  qed
qed

lemma quiet_wait_while:
  "wait_while cls fulfilled wakes s = Resumed s' wakes' \<or>
   wait_while cls fulfilled wakes s = Blocked s' \<Longrightarrow> quiet_step s s'"
proof (induction wakes arbitrary: s)
  case Nil
  then show ?case by (auto simp add: quiet_emit split: if_splits)
next
  case (Cons wake wakes)
  let ?s1 = "interfere cls wake (emit (Wait stateMachineChange) s)"
  have a: "quiet_step s ?s1"
    by (rule quiet_trans [OF quiet_emit quiet_interfere]) simp
  show ?case
  proof (cases "fulfilled s")
    case True
    with Cons.prems show ?thesis by simp
  next
    case False
    with Cons.prems have "wait_while cls fulfilled wakes ?s1 = Resumed s' wakes' \<or>
        wait_while cls fulfilled wakes ?s1 = Blocked s'"
      by simp
    then have "quiet_step ?s1 s'" by (rule Cons.IH)
    with a show ?thesis by (rule quiet_trans)
  qed
qed


lemma quiet_sync_loop:
  "sync_loop ful cd n wakes s = (n', s', wakes') \<Longrightarrow> quiet_step s s'"
proof (induction n arbitrary: wakes s)
  case 0
  then show ?case by simp
next
  case (Suc n)
  show ?case
  proof (cases "isFullfilled_Uninitialized ful (uninitializedExit s)")
    case True
    with Suc.prems show ?thesis by simp
  next
    case False
    let ?s1 = "sendControlPacket cd CONTROL_PKT_SYNC s"
    let ?s2 = "?s1\<lparr>uninitializedExit := (uninitializedExit ?s1)\<lparr>syncSent := True\<rparr>\<rparr>"
    obtain s3 wakes1 where w: "wait_for UninitializedExit NON_ACTIVE_STATE_TIMEOUT
        (\<lambda>s. isFullfilled_Uninitialized ful (uninitializedExit s)) wakes ?s2 = (s3, wakes1)"
      by (cases "wait_for UninitializedExit NON_ACTIVE_STATE_TIMEOUT
        (\<lambda>s. isFullfilled_Uninitialized ful (uninitializedExit s)) wakes ?s2")
    have a: "quiet_step s ?s2"
      by (rule quiet_trans [OF quiet_sendControlPacket quiet_flags(3)])
    have b: "quiet_step ?s2 s3"
      by (rule quiet_wait_for [OF w])
    from Suc.prems False w have "sync_loop ful cd n wakes1 s3 = (n', s', wakes')"
      by (simp add: Let_def)
    then have "quiet_step s3 s'" by (rule Suc.IH)
    with quiet_trans [OF a b] show ?thesis by (rule quiet_trans)
  qed
qed

lemma quiet_sync_config_loop:
  "sync_config_loop ful cd n wakes s = (n', s', wakes') \<Longrightarrow> quiet_step s s'"
proof (induction n arbitrary: wakes s)
  case 0
  then show ?case by simp
next
  case (Suc n)
  show ?case
  proof (cases "isFullfilled_Initialized ful (initializedExit s)")
    case True
    with Suc.prems show ?thesis by simp
  next
    case False
    let ?s1 = "sendControlPacket cd CONTROL_PKT_SYNC_CONFIG s"
    let ?s2 = "?s1\<lparr>initializedExit := (initializedExit ?s1)\<lparr>syncConfigSent := True\<rparr>\<rparr>"
    obtain s3 wakes1 where w: "wait_for InitializedExit NON_ACTIVE_STATE_TIMEOUT
        (\<lambda>s. isFullfilled_Initialized ful (initializedExit s)) wakes ?s2 = (s3, wakes1)"
      by (cases "wait_for InitializedExit NON_ACTIVE_STATE_TIMEOUT
        (\<lambda>s. isFullfilled_Initialized ful (initializedExit s)) wakes ?s2")
    have a: "quiet_step s ?s2"
      by (rule quiet_trans [OF quiet_sendControlPacket quiet_flags(4)])
    have b: "quiet_step ?s2 s3"
      by (rule quiet_wait_for [OF w])
    from Suc.prems False w have "sync_config_loop ful cd n wakes1 s3 = (n', s', wakes')"
      by (simp add: Let_def)
    then have "quiet_step s3 s'" by (rule Suc.IH)
    with quiet_trans [OF a b] show ?thesis by (rule quiet_trans)
  qed
qed

lemma action_START_result:
  assumes "action_START ful wakes s = r"
  shows "(r = NeverReturns s' \<longrightarrow> quiet_step s s') \<and> r \<noteq> Throws f s' \<and>
     (r = Returns n s' wakes' \<longrightarrow> quiet_step s s' \<and>
        n = next_by_priority (ioResourceError (startExit s')) (close (startExit s'))
              (isOpened (startExit s')) STATE_RESET)"
proof -
  let ?s0 = "emit (NotifyAll stateMachineChange)
                (s\<lparr>startExit := reset_StartExit, stateMachineReady := True\<rparr>)"
  let ?w = "wait_do_while StartExit (\<lambda>s. isFullfilled_Start ful (startExit s)) wakes ?s0"
  have a: "quiet_step s ?s0"
    by (simp add: quiet_step_def)
  show ?thesis
  proof (cases ?w)
    case (Blocked s1)
    then have "quiet_step ?s0 s1" by (rule quiet_wait_do_while [OF disjI2])
    with a have "quiet_step s s1" by (rule quiet_trans)
    with Blocked assms show ?thesis by (auto simp add: action_START_def)
  next
    case (Resumed s1 wakes1)
    then have "quiet_step ?s0 s1" by (rule quiet_wait_do_while [OF disjI1])
    with a have q: "quiet_step s s1" by (rule quiet_trans)
    have "r = Returns (next_by_priority (ioResourceError (startExit s1)) (close (startExit s1))
              (isOpened (startExit s1)) STATE_RESET) s1 wakes1"
      using Resumed assms [symmetric] by (simp add: action_START_def next_by_priority_def)
    with q show ?thesis by auto
  qed
qed

lemma action_ACTIVE_result:
  assumes "action_ACTIVE ful wakes s = r"
  shows "(r = NeverReturns s' \<longrightarrow> quiet_step s s') \<and> r \<noteq> Throws f s' \<and>
     (r = Returns n s' wakes' \<longrightarrow> quiet_step s s' \<and>
        n = next_by_priority (ioResourceError (activeExit s')) (close (activeExit s'))
              (syncReceived (activeExit s') \<or> irrecoverableSyncError (activeExit s')) STATE_RESET)"
proof -
  let ?z = "s\<lparr>activeExit := reset_ActiveExit, seqNum := 0, ackNum := 0\<rparr>"
  let ?s0 = "statusHandler CONNECTION_ACTIVE ?z"
  let ?w = "wait_while ActiveExit (\<lambda>s. isFullfilled_Active ful (activeExit s)) wakes ?s0"
  have "quiet_step s ?z"
    by (simp add: quiet_step_def)
  then have a: "quiet_step s ?s0"
    by (rule quiet_trans) simp
  show ?thesis
  proof (cases ?w)
    case (Blocked s1)
    then have "quiet_step ?s0 s1" by (rule quiet_wait_while [OF disjI2])
    with a have "quiet_step s s1" by (rule quiet_trans)
    with Blocked assms show ?thesis by (auto simp add: action_ACTIVE_def)
  next
    case (Resumed s1 wakes1)
    then have "quiet_step ?s0 s1" by (rule quiet_wait_while [OF disjI1])
    with a have q: "quiet_step s s1" by (rule quiet_trans)
    have "r = Returns (next_by_priority (ioResourceError (activeExit s1)) (close (activeExit s1))
              (syncReceived (activeExit s1) \<or> irrecoverableSyncError (activeExit s1)) STATE_RESET)
            s1 wakes1"
      using Resumed assms [symmetric] by (simp add: action_ACTIVE_def next_by_priority_def)
    with q show ?thesis by auto
  qed
qed

lemma action_RESET_result:
  assumes "action_RESET ful cd wakes s = r"
  shows "r \<noteq> NeverReturns s' \<and> r \<noteq> Throws f s' \<and>
     (r = Returns n s' wakes' \<longrightarrow> quiet_step s s' \<and>
        n = next_by_priority (ioResourceError (resetExit s')) (close (resetExit s'))
              (resetSent (resetExit s') \<and> resetWait (resetExit s')) STATE_UNINITIALIZED)"
proof -
  let ?s1 = "sendControlPacket cd CONTROL_PKT_RESET (s\<lparr>resetExit := reset_ResetExit\<rparr>)"
  let ?s2 = "if statusCallbackBound ?s1 then statusHandler RESET_PERFORMED ?s1 else ?s1"
  let ?s3 = "?s2\<lparr>resetExit := (resetExit ?s2)\<lparr>resetSent := True\<rparr>\<rparr>"
  obtain s4 wakes1 where w: "wait_for ResetExit RESET_WAIT_DURATION
      (\<lambda>s. isFullfilled_Reset ful (resetExit s)) wakes ?s3 = (s4, wakes1)"
    by (cases "wait_for ResetExit RESET_WAIT_DURATION
      (\<lambda>s. isFullfilled_Reset ful (resetExit s)) wakes ?s3")
  let ?s5 = "s4\<lparr>resetExit := (resetExit s4)\<lparr>resetWait := True\<rparr>\<rparr>"
  have a: "quiet_step s ?s1"
    by (rule quiet_trans [OF quiet_flags(2) quiet_sendControlPacket])
  have b: "quiet_step ?s1 ?s2"
    by simp
  have c: "quiet_step ?s2 ?s3"
    by (rule quiet_flags(2))
  have d: "quiet_step ?s3 s4"
    by (rule quiet_wait_for [OF w])
  have e: "quiet_step s4 ?s5"
    by (rule quiet_flags(2))
  have q: "quiet_step s ?s5"
    by (rule quiet_trans [OF quiet_trans [OF quiet_trans [OF quiet_trans [OF a b] c] d] e])
  have "r = Returns (next_by_priority (ioResourceError (resetExit ?s5)) (close (resetExit ?s5))
              (resetSent (resetExit ?s5) \<and> resetWait (resetExit ?s5)) STATE_UNINITIALIZED)
            ?s5 wakes1"
    using assms [symmetric] w unfolding action_RESET_def Let_def next_by_priority_def by simp
  with q show ?thesis by auto
qed


lemma write_shared_fields [simp]:
  "upperStatusCallbackSet (write_shared cls flag s) = upperStatusCallbackSet s"
  "upperDataCallbackSet (write_shared cls flag s) = upperDataCallbackSet s"
  "effects (write_shared cls flag s) = effects s"
  by (cases cls; cases flag; simp)+

lemma write_shared_syncSent:
  "syncSent (uninitializedExit s) \<Longrightarrow> syncSent (uninitializedExit (write_shared cls flag s))"
  by (cases cls; cases flag) simp_all

lemma interfere_fields [simp]:
  "upperStatusCallbackSet (interfere cls wake s) = upperStatusCallbackSet s"
  "upperDataCallbackSet (interfere cls wake s) = upperDataCallbackSet s"
  "effects (interfere cls wake s) = effects s"
  unfolding interfere_def by (induction wake arbitrary: s; simp)+

lemma interfere_syncSent:
  "syncSent (uninitializedExit s) \<Longrightarrow> syncSent (uninitializedExit (interfere cls wake s))"
  unfolding interfere_def by (induction wake arbitrary: s) (simp_all add: write_shared_syncSent)

lemma wait_for_fields:
  assumes "wait_for cls timeout fulfilled wakes s = (s', wakes')"
  shows "upperStatusCallbackSet s' = upperStatusCallbackSet s"
    "effects s' = effects s @ [WaitFor stateMachineChange timeout]"
    "syncSent (uninitializedExit s) \<Longrightarrow> syncSent (uninitializedExit s')"
    "fulfilled (emit (WaitFor stateMachineChange timeout) s) \<Longrightarrow>
       s' = emit (WaitFor stateMachineChange timeout) s"
  using assms
  by (auto simp add: wait_for_def Let_def interfere_syncSent split: if_splits list.splits)

lemma sync_loop_trace:
  "sync_loop ful cd n wakes s = (n', s', wakes') \<Longrightarrow>
   n' \<le> n \<and>
   effects s' = effects s @ concat (replicate (n - n')
     [LowerSend (controlPacket cd CONTROL_PKT_SYNC a),
      WaitFor stateMachineChange NON_ACTIVE_STATE_TIMEOUT]) \<and>
   upperStatusCallbackSet s' = upperStatusCallbackSet s \<and>
   (0 < n' \<longrightarrow> isFullfilled_Uninitialized ful (uninitializedExit s')) \<and>
   (n' < n \<or> syncSent (uninitializedExit s) \<longrightarrow> syncSent (uninitializedExit s'))"
proof (induction n arbitrary: wakes s)
  case 0
  then show ?case by simp
next
  case (Suc n)
  show ?case
  proof (cases "isFullfilled_Uninitialized ful (uninitializedExit s)")
    case True
    with Suc.prems show ?thesis by auto
  next
    case False
    let ?s1 = "sendControlPacket cd CONTROL_PKT_SYNC s"
    let ?s2 = "?s1\<lparr>uninitializedExit := (uninitializedExit ?s1)\<lparr>syncSent := True\<rparr>\<rparr>"
    obtain s3 wakes1 where w: "wait_for UninitializedExit NON_ACTIVE_STATE_TIMEOUT
        (\<lambda>s. isFullfilled_Uninitialized ful (uninitializedExit s)) wakes ?s2 = (s3, wakes1)"
      by (cases "wait_for UninitializedExit NON_ACTIVE_STATE_TIMEOUT
        (\<lambda>s. isFullfilled_Uninitialized ful (uninitializedExit s)) wakes ?s2")
    note f = wait_for_fields [OF w]
    have sync: "controlPacket cd CONTROL_PKT_SYNC (ackNum s) = controlPacket cd CONTROL_PKT_SYNC a"
      by (rule controlPacket_not_ack) simp
    have cb3: "upperStatusCallbackSet s3 = upperStatusCallbackSet s"
      and eff3: "effects s3 = effects s @
        [LowerSend (controlPacket cd CONTROL_PKT_SYNC a),
         WaitFor stateMachineChange NON_ACTIVE_STATE_TIMEOUT]"
      and sent3: "syncSent (uninitializedExit s3)"
      using f(1) f(2) f(3) sync by simp_all
    from Suc.prems False w have rest: "sync_loop ful cd n wakes1 s3 = (n', s', wakes')"
      by (simp add: Let_def)
    from Suc.IH [OF rest] have le: "n' \<le> n"
      and eff: "effects s' = effects s3 @ concat (replicate (n - n')
         [LowerSend (controlPacket cd CONTROL_PKT_SYNC a),
          WaitFor stateMachineChange NON_ACTIVE_STATE_TIMEOUT])"
      and cb: "upperStatusCallbackSet s' = upperStatusCallbackSet s3"
      and ful: "0 < n' \<longrightarrow> isFullfilled_Uninitialized ful (uninitializedExit s')"
      and sent: "n' < n \<or> syncSent (uninitializedExit s3) \<longrightarrow> syncSent (uninitializedExit s')"
      by simp_all
    have "Suc n - n' = Suc (n - n')"
      using le by simp
    then show ?thesis
      using le eff cb ful sent sent3 cb3 eff3 by simp
  qed
qed

lemma action_UNINITIALIZED_eq:
  "\<exists>k s1 wakes1. k \<le> 6 \<and>
     quiet_step s s1 \<and>
     effects s1 = effects s @ concat (replicate k
       [LowerSend (controlPacket cd CONTROL_PKT_SYNC (ackNum s)),
        WaitFor stateMachineChange NON_ACTIVE_STATE_TIMEOUT]) \<and>
     upperStatusCallbackSet s1 = upperStatusCallbackSet s \<and>
     (k < 6 \<longrightarrow> isFullfilled_Uninitialized ful (uninitializedExit s1)) \<and>
     (0 < k \<longrightarrow> syncSent (uninitializedExit s1)) \<and>
     action_UNINITIALIZED ful cd wakes s =
       Returns
         (next_by_priority (ioResourceError (uninitializedExit s1)) (close (uninitializedExit s1))
            (syncSent (uninitializedExit s1) \<and> syncRspReceived (uninitializedExit s1))
            STATE_INITIALIZED)
         (if \<not> ioResourceError (uninitializedExit s1) \<and> \<not> close (uninitializedExit s1) \<and>
             \<not> (syncSent (uninitializedExit s1) \<and> syncRspReceived (uninitializedExit s1)) \<and> k = 6
          then statusHandler PKT_SEND_MAX_RETRIES_REACHED s1 else s1)
         wakes1"
proof -
  let ?s0 = "s\<lparr>uninitializedExit := reset_UninitializedExit\<rparr>"
  obtain n' s1 wakes1 where run: "sync_loop ful cd 6 wakes ?s0 = (n', s1, wakes1)"
    by (cases "sync_loop ful cd 6 wakes ?s0") auto
  from sync_loop_trace [OF run, where a = "ackNum s"] have le: "n' \<le> 6"
    and eff: "effects s1 = effects s @ concat (replicate (6 - n')
       [LowerSend (controlPacket cd CONTROL_PKT_SYNC (ackNum s)),
        WaitFor stateMachineChange NON_ACTIVE_STATE_TIMEOUT])"
    and cb: "upperStatusCallbackSet s1 = upperStatusCallbackSet s"
    and ful: "0 < n' \<longrightarrow> isFullfilled_Uninitialized ful (uninitializedExit s1)"
    and sent: "n' < 6 \<longrightarrow> syncSent (uninitializedExit s1)"
    by simp_all
  have q: "quiet_step s s1"
    by (rule quiet_trans [OF quiet_flags(3) quiet_sync_loop [OF run]])
  have k6: "(6 - n' = 6) = (n' \<le> 0)"
    using le by auto
  have act: "action_UNINITIALIZED ful cd wakes s =
       Returns
         (next_by_priority (ioResourceError (uninitializedExit s1)) (close (uninitializedExit s1))
            (syncSent (uninitializedExit s1) \<and> syncRspReceived (uninitializedExit s1))
            STATE_INITIALIZED)
         (if \<not> ioResourceError (uninitializedExit s1) \<and> \<not> close (uninitializedExit s1) \<and>
             \<not> (syncSent (uninitializedExit s1) \<and> syncRspReceived (uninitializedExit s1)) \<and>
             6 - n' = 6
          then statusHandler PKT_SEND_MAX_RETRIES_REACHED s1 else s1)
         wakes1"
    unfolding k6 action_UNINITIALIZED_def PACKET_RETRANSMISSIONS_def run next_by_priority_def
    by simp
  have "6 - n' \<le> 6 \<and> quiet_step s s1 \<and>
     effects s1 = effects s @ concat (replicate (6 - n')
       [LowerSend (controlPacket cd CONTROL_PKT_SYNC (ackNum s)),
        WaitFor stateMachineChange NON_ACTIVE_STATE_TIMEOUT]) \<and>
     upperStatusCallbackSet s1 = upperStatusCallbackSet s \<and>
     (6 - n' < 6 \<longrightarrow> isFullfilled_Uninitialized ful (uninitializedExit s1)) \<and>
     (0 < 6 - n' \<longrightarrow> syncSent (uninitializedExit s1)) \<and>
     action_UNINITIALIZED ful cd wakes s =
       Returns
         (next_by_priority (ioResourceError (uninitializedExit s1)) (close (uninitializedExit s1))
            (syncSent (uninitializedExit s1) \<and> syncRspReceived (uninitializedExit s1))
            STATE_INITIALIZED)
         (if \<not> ioResourceError (uninitializedExit s1) \<and> \<not> close (uninitializedExit s1) \<and>
             \<not> (syncSent (uninitializedExit s1) \<and> syncRspReceived (uninitializedExit s1)) \<and>
             6 - n' = 6
          then statusHandler PKT_SEND_MAX_RETRIES_REACHED s1 else s1)
         wakes1"
    using le eff cb ful sent q act by auto
  then show ?thesis
    by (intro exI [of _ "6 - n'"] exI [of _ s1] exI [of _ wakes1])
qed

lemma statusHandler_exits:
  "code \<noteq> IO_RESOURCES_UNAVAILABLE \<Longrightarrow> startExit (statusHandler code s) = startExit s"
  "code \<noteq> IO_RESOURCES_UNAVAILABLE \<Longrightarrow> resetExit (statusHandler code s) = resetExit s"
  "code \<noteq> IO_RESOURCES_UNAVAILABLE \<Longrightarrow>
     uninitializedExit (statusHandler code s) = uninitializedExit s"
  "code \<noteq> IO_RESOURCES_UNAVAILABLE \<Longrightarrow>
     initializedExit (statusHandler code s) = initializedExit s"
  "code \<noteq> IO_RESOURCES_UNAVAILABLE \<Longrightarrow> activeExit (statusHandler code s) = activeExit s"
  by (simp_all add: statusHandler_other)

lemma action_UNINITIALIZED_result:
  assumes "action_UNINITIALIZED ful cd wakes s = r"
  shows "r \<noteq> NeverReturns s' \<and> r \<noteq> Throws f s' \<and>
     (r = Returns n s' wakes' \<longrightarrow> quiet_step s s' \<and>
        n = next_by_priority (ioResourceError (uninitializedExit s'))
              (close (uninitializedExit s'))
              (syncSent (uninitializedExit s') \<and> syncRspReceived (uninitializedExit s'))
              STATE_INITIALIZED)"
proof -
  from action_UNINITIALIZED_eq [of s cd ful wakes] obtain k :: nat and s1 wakes1 where
    q: "quiet_step s s1" and
    act: "action_UNINITIALIZED ful cd wakes s =
       Returns
         (next_by_priority (ioResourceError (uninitializedExit s1)) (close (uninitializedExit s1))
            (syncSent (uninitializedExit s1) \<and> syncRspReceived (uninitializedExit s1))
            STATE_INITIALIZED)
         (if \<not> ioResourceError (uninitializedExit s1) \<and> \<not> close (uninitializedExit s1) \<and>
             \<not> (syncSent (uninitializedExit s1) \<and> syncRspReceived (uninitializedExit s1)) \<and> k = 6
          then statusHandler PKT_SEND_MAX_RETRIES_REACHED s1 else s1)
         wakes1"
    by blast
  let ?s2 = "if \<not> ioResourceError (uninitializedExit s1) \<and> \<not> close (uninitializedExit s1) \<and>
             \<not> (syncSent (uninitializedExit s1) \<and> syncRspReceived (uninitializedExit s1)) \<and> k = 6
          then statusHandler PKT_SEND_MAX_RETRIES_REACHED s1 else s1"
  have same: "uninitializedExit ?s2 = uninitializedExit s1"
    by (simp add: statusHandler_exits)
  have "quiet_step s1 ?s2"
    by simp
  with q have q2: "quiet_step s ?s2"
    by (rule quiet_trans)
  have "r = Returns
         (next_by_priority (ioResourceError (uninitializedExit ?s2)) (close (uninitializedExit ?s2))
            (syncSent (uninitializedExit ?s2) \<and> syncRspReceived (uninitializedExit ?s2))
            STATE_INITIALIZED) ?s2 wakes1"
    unfolding same using assms [symmetric] act by simp
  with q2 show ?thesis
    by auto
qed

lemma action_INITIALIZED_result:
  assumes "action_INITIALIZED ful cd wakes s = r"
  shows "r \<noteq> NeverReturns s' \<and> r \<noteq> Throws f s' \<and>
     (r = Returns n s' wakes' \<longrightarrow> quiet_step s s' \<and>
        n = next_by_priority (ioResourceError (initializedExit s'))
              (close (initializedExit s'))
              (syncConfigSent (initializedExit s') \<and> syncConfigRspReceived (initializedExit s'))
              STATE_ACTIVE)"
proof -
  let ?s0 = "s\<lparr>initializedExit := reset_InitializedExit\<rparr>"
  obtain n' s1 wakes1 where
    run: "sync_config_loop ful cd PACKET_RETRANSMISSIONS wakes ?s0 = (n', s1, wakes1)"
    by (cases "sync_config_loop ful cd PACKET_RETRANSMISSIONS wakes ?s0") auto
  have q: "quiet_step s s1"
    by (rule quiet_trans [OF quiet_flags(4) quiet_sync_config_loop [OF run]])
  let ?s2 = "if \<not> ioResourceError (initializedExit s1) \<and> \<not> close (initializedExit s1) \<and>
             \<not> (syncConfigSent (initializedExit s1) \<and> syncConfigRspReceived (initializedExit s1)) \<and>
             n' \<le> 0
          then statusHandler PKT_SEND_MAX_RETRIES_REACHED s1 else s1"
  have same: "initializedExit ?s2 = initializedExit s1"
    by (simp add: statusHandler_exits)
  have "quiet_step s1 ?s2"
    by simp
  with q have q2: "quiet_step s ?s2"
    by (rule quiet_trans)
  have "r = Returns
         (next_by_priority (ioResourceError (initializedExit ?s2)) (close (initializedExit ?s2))
            (syncConfigSent (initializedExit ?s2) \<and> syncConfigRspReceived (initializedExit ?s2))
            STATE_ACTIVE) ?s2 wakes1"
    unfolding same using assms [symmetric]
    by (simp add: action_INITIALIZED_def run next_by_priority_def)
  with q2 show ?thesis
    by auto
qed

lemma next_by_priority_edge:
  "next_by_priority a b c t = STATE_FAILED \<or> next_by_priority a b c t = STATE_CLOSED \<or>
   next_by_priority a b c t = t"
  by (simp add: next_by_priority_def)

lemma stateActions_result:
  assumes "stateActions ful cd st wakes s = r"
  shows "(r = NeverReturns s' \<longrightarrow> quiet_step s s') \<and> (r = Throws f s' \<longrightarrow> s' = s) \<and>
     (r = Returns n s' wakes' \<longrightarrow>
        quiet_step s s' \<and> (st \<noteq> STATE_FAILED \<longrightarrow> st \<noteq> STATE_CLOSED \<longrightarrow> h5_edge st n))"
proof (cases st)
  case STATE_UNKNOWN
  with assms show ?thesis by auto
next
  case STATE_START
  with assms have "action_START ful wakes s = r" by simp
  from action_START_result [OF this, of s' f n wakes']
    next_by_priority_edge [of "ioResourceError (startExit s')" "close (startExit s')"
      "isOpened (startExit s')" STATE_RESET]
  show ?thesis unfolding STATE_START by auto
next
  case STATE_RESET
  with assms have "action_RESET ful cd wakes s = r" by simp
  from action_RESET_result [OF this, of s' f n wakes']
    next_by_priority_edge [of "ioResourceError (resetExit s')" "close (resetExit s')"
      "resetSent (resetExit s') \<and> resetWait (resetExit s')" STATE_UNINITIALIZED]
  show ?thesis unfolding STATE_RESET by auto
next
  case STATE_UNINITIALIZED
  with assms have "action_UNINITIALIZED ful cd wakes s = r" by simp
  from action_UNINITIALIZED_result [OF this, of s' f n wakes']
    next_by_priority_edge [of "ioResourceError (uninitializedExit s')"
      "close (uninitializedExit s')"
      "syncSent (uninitializedExit s') \<and> syncRspReceived (uninitializedExit s')" STATE_INITIALIZED]
  show ?thesis unfolding STATE_UNINITIALIZED by auto
next
  case STATE_INITIALIZED
  with assms have "action_INITIALIZED ful cd wakes s = r" by simp
  from action_INITIALIZED_result [OF this, of s' f n wakes']
    next_by_priority_edge [of "ioResourceError (initializedExit s')"
      "close (initializedExit s')"
      "syncConfigSent (initializedExit s') \<and> syncConfigRspReceived (initializedExit s')"
      STATE_ACTIVE]
  show ?thesis unfolding STATE_INITIALIZED by auto
next
  case STATE_ACTIVE
  with assms have "action_ACTIVE ful wakes s = r" by simp
  from action_ACTIVE_result [OF this, of s' f n wakes']
    next_by_priority_edge [of "ioResourceError (activeExit s')" "close (activeExit s')"
      "syncReceived (activeExit s') \<or> irrecoverableSyncError (activeExit s')" STATE_RESET]
  show ?thesis unfolding STATE_ACTIVE by auto
next
  case STATE_FAILED
  with assms show ?thesis by auto
next
  case STATE_CLOSED
  with assms show ?thesis by auto
qed


lemma worker_walk:
  "\<exists>es. effects (worker_state (stateMachineWorker fuel ful cd wakes s)) = effects s @ es \<and>
        h5_walk (currentState s) (transitions es)
          (currentState (worker_state (stateMachineWorker fuel ful cd wakes s))) \<and>
        lastPacket (worker_state (stateMachineWorker fuel ful cd wakes s)) = lastPacket s \<and>
        (seqNum s \<le> 7 \<and> ackNum s \<le> 7 \<longrightarrow>
           seqNum (worker_state (stateMachineWorker fuel ful cd wakes s)) \<le> 7 \<and>
           ackNum (worker_state (stateMachineWorker fuel ful cd wakes s)) \<le> 7)"
proof (induction fuel arbitrary: wakes s)
  case 0
  have "effects (worker_state (stateMachineWorker 0 ful cd wakes s)) = effects s @ [] \<and>
        h5_walk (currentState s) (transitions [])
          (currentState (worker_state (stateMachineWorker 0 ful cd wakes s))) \<and>
        lastPacket (worker_state (stateMachineWorker 0 ful cd wakes s)) = lastPacket s \<and>
        (seqNum s \<le> 7 \<and> ackNum s \<le> 7 \<longrightarrow>
           seqNum (worker_state (stateMachineWorker 0 ful cd wakes s)) \<le> 7 \<and>
           ackNum (worker_state (stateMachineWorker 0 ful cd wakes s)) \<le> 7)"
    by simp
  then show ?case by (rule exI)
next
  case (Suc fuel)
  let ?res = "stateMachineWorker (Suc fuel) ful cd wakes s"
  show ?case
  proof (cases "currentState s \<noteq> STATE_FAILED \<and> currentState s \<noteq> STATE_CLOSED")
    case False
    then have "effects (worker_state ?res) = effects s @ [] \<and>
        h5_walk (currentState s) (transitions []) (currentState (worker_state ?res)) \<and>
        lastPacket (worker_state ?res) = lastPacket s \<and>
        (seqNum s \<le> 7 \<and> ackNum s \<le> 7 \<longrightarrow>
           seqNum (worker_state ?res) \<le> 7 \<and> ackNum (worker_state ?res) \<le> 7)"
      by auto
    then show ?thesis by (rule exI)
  next
    case running: True
    show ?thesis
    proof (cases "stateActions ful cd (currentState s) wakes s")
      case (NeverReturns s1)
      from stateActions_result [OF NeverReturns, where s' = s1] have "quiet_step s s1"
        by simp
      then obtain es where "effects s1 = effects s @ es" "transitions es = []"
        "currentState s1 = currentState s" "lastPacket s1 = lastPacket s"
        "seqNum s \<le> 7 \<and> ackNum s \<le> 7 \<longrightarrow> seqNum s1 \<le> 7 \<and> ackNum s1 \<le> 7"
        unfolding quiet_step_def by blast
      then have "effects (worker_state ?res) = effects s @ es \<and>
        h5_walk (currentState s) (transitions es) (currentState (worker_state ?res)) \<and>
        lastPacket (worker_state ?res) = lastPacket s \<and>
        (seqNum s \<le> 7 \<and> ackNum s \<le> 7 \<longrightarrow>
           seqNum (worker_state ?res) \<le> 7 \<and> ackNum (worker_state ?res) \<le> 7)"
        using running NeverReturns by simp
      then show ?thesis by (rule exI)
    next
      case (Throws f s1)
      from stateActions_result [OF Throws, where s' = s1 and f = f] have "s1 = s"
        by simp
      then have "effects (worker_state ?res) = effects s @ [] \<and>
        h5_walk (currentState s) (transitions []) (currentState (worker_state ?res)) \<and>
        lastPacket (worker_state ?res) = lastPacket s \<and>
        (seqNum s \<le> 7 \<and> ackNum s \<le> 7 \<longrightarrow>
           seqNum (worker_state ?res) \<le> 7 \<and> ackNum (worker_state ?res) \<le> 7)"
        using running Throws by simp
      then show ?thesis by (rule exI)
    next
      case (Returns n s1 wakes1)
      from stateActions_result [OF Returns, where s' = s1 and n = n and wakes' = wakes1] running
      have q: "quiet_step s s1" and edge: "h5_edge (currentState s) n"
        by simp_all
      from q obtain es1 where es1: "effects s1 = effects s @ es1" "transitions es1 = []"
        and cur1: "currentState s1 = currentState s" and last1: "lastPacket s1 = lastPacket s"
        and cnt1: "seqNum s \<le> 7 \<and> ackNum s \<le> 7 \<longrightarrow> seqNum s1 \<le> 7 \<and> ackNum s1 \<le> 7"
        unfolding quiet_step_def by blast
      define s2 where "s2 = emit (NotifyAll stateWaitCondition)
                  ((emit (LogStateTransition (currentState s1) n) s1)\<lparr>currentState := n\<rparr>)"
      have res: "?res = stateMachineWorker fuel ful cd wakes1 s2"
        using running Returns by (simp add: s2_def)
      have s2: "effects s2 = effects s @ es1 @
          [LogStateTransition (currentState s) n, NotifyAll stateWaitCondition]"
        "currentState s2 = n" "lastPacket s2 = lastPacket s"
        "seqNum s2 = seqNum s1" "ackNum s2 = ackNum s1"
        by (simp_all add: s2_def es1 cur1 last1 emit_def)
      from Suc.IH [of wakes1 s2] obtain es2 where
        e2: "effects (worker_state ?res) = effects s2 @ es2"
        and w2: "h5_walk (currentState s2) (transitions es2) (currentState (worker_state ?res))"
        and l2: "lastPacket (worker_state ?res) = lastPacket s2"
        and c2: "seqNum s2 \<le> 7 \<and> ackNum s2 \<le> 7 \<longrightarrow>
           seqNum (worker_state ?res) \<le> 7 \<and> ackNum (worker_state ?res) \<le> 7"
        unfolding res by blast
      let ?es = "es1 @ [LogStateTransition (currentState s) n, NotifyAll stateWaitCondition] @ es2"
      have "effects (worker_state ?res) = effects s @ ?es \<and>
        h5_walk (currentState s) (transitions ?es) (currentState (worker_state ?res)) \<and>
        lastPacket (worker_state ?res) = lastPacket s \<and>
        (seqNum s \<le> 7 \<and> ackNum s \<le> 7 \<longrightarrow>
           seqNum (worker_state ?res) \<le> 7 \<and> ackNum (worker_state ?res) \<le> 7)"
        using e2 w2 l2 c2 s2 es1 edge cnt1 by simp
      then show ?thesis by (rule exI)
    qed
  qed
qed

lemma worker_Exited:
  "stateMachineWorker fuel ful cd wakes s = Exited s' \<Longrightarrow>
   currentState s' = STATE_FAILED \<or> currentState s' = STATE_CLOSED"
proof (induction fuel arbitrary: wakes s)
  case 0
  then show ?case by (auto split: if_splits)
next
  case (Suc fuel)
  show ?case
  proof (cases "currentState s \<noteq> STATE_FAILED \<and> currentState s \<noteq> STATE_CLOSED")
    case False
    with Suc.prems show ?thesis by auto
  next
    case True
    with Suc.prems show ?thesis
      by (cases "stateActions ful cd (currentState s) wakes s") (auto dest: Suc.IH)
  qed
qed

lemma quiet_processLinkControl:
  "processLinkControl cd pl s = Inr s' \<Longrightarrow> quiet_step s s'"
  by (auto simp add: processLinkControl_def through_cast_def quiet_step_def
      split: if_splits)

lemma quiet_processVendorSpecific:
  "processVendorSpecific cd h s = Inr s' \<Longrightarrow> quiet_step s s'"
  by (auto simp add: processVendorSpecific_def upperDataCallback_def quiet_step_def and7_le
      split: if_splits)

lemma quiet_processAck:
  "processAck h s = Inr s' \<Longrightarrow> quiet_step s s'"
  by (auto simp add: processAck_def through_cast_def quiet_step_def and7_le split: if_splits)

lemma quiet_processPacket:
  assumes "processPacket cd packet s = Inr s'"
  shows "quiet_step s s'"
proof (cases "slip_decode cd packet")
  case None
  with assms show ?thesis
    by (auto simp add: processPacket_def quiet_step_def)
next
  case (Some slipPayload)
  have l: "quiet_step s (logPacket False s)"
    by simp
  show ?thesis
  proof (cases "h5_decode cd slipPayload")
    case None
    with Some assms show ?thesis
      by (auto simp add: processPacket_def quiet_step_def Let_def)
  next
    case h: (Some h)
    from assms have "quiet_step (logPacket False s) s'"
      unfolding processPacket_decoded [OF Some h] Let_def
      by (auto simp add: quiet_emit quiet_processLinkControl quiet_processVendorSpecific
          quiet_processAck split: if_splits)
    with l show ?thesis
      by (rule quiet_trans)
  qed
qed

text \<open>
  C7: every state action that returns, returns the state the order of section 4.4 gives
  for the flags of its record as they are at the return: failure on an IO error, else
  closed on close, else the state's own successor when its condition holds, else
  failure. A state action of a state other than FAILED and CLOSED therefore returns
  along an edge of the state machine. The worker writes what the action returned: the
  transitions it logs, in order, are a walk along edges from the state it started in to
  the state it has reached, however long it runs and whatever the other threads set. In
  FAILED and in CLOSED the worker ends at once and leaves the object as it is, and it
  ends nowhere else. The dispatcher, the status handler, \<^verbatim>\<open>send\<close>, \<^verbatim>\<open>open\<close> and
  \<^verbatim>\<open>close\<close> leave \<^verbatim>\<open>currentState\<close> as it is.
\<close>

theorem transitions_follow_edges:
  "(action_START ful wakes s = Returns n s' wakes' \<longrightarrow>
      n = next_by_priority (ioResourceError (startExit s')) (close (startExit s'))
            (isOpened (startExit s')) STATE_RESET) \<and>
   (action_RESET ful cd wakes s = Returns n s' wakes' \<longrightarrow>
      n = next_by_priority (ioResourceError (resetExit s')) (close (resetExit s'))
            (resetSent (resetExit s') \<and> resetWait (resetExit s')) STATE_UNINITIALIZED) \<and>
   (action_UNINITIALIZED ful cd wakes s = Returns n s' wakes' \<longrightarrow>
      n = next_by_priority (ioResourceError (uninitializedExit s')) (close (uninitializedExit s'))
            (syncSent (uninitializedExit s') \<and> syncRspReceived (uninitializedExit s'))
            STATE_INITIALIZED) \<and>
   (action_INITIALIZED ful cd wakes s = Returns n s' wakes' \<longrightarrow>
      n = next_by_priority (ioResourceError (initializedExit s')) (close (initializedExit s'))
            (syncConfigSent (initializedExit s') \<and> syncConfigRspReceived (initializedExit s'))
            STATE_ACTIVE) \<and>
   (action_ACTIVE ful wakes s = Returns n s' wakes' \<longrightarrow>
      n = next_by_priority (ioResourceError (activeExit s')) (close (activeExit s'))
            (syncReceived (activeExit s') \<or> irrecoverableSyncError (activeExit s'))
            STATE_RESET) \<and>
   (st \<noteq> STATE_FAILED \<longrightarrow> st \<noteq> STATE_CLOSED \<longrightarrow>
      stateActions ful cd st wakes s = Returns n s' wakes' \<longrightarrow> h5_edge st n) \<and>
   (\<exists>es. effects (worker_state (stateMachineWorker fuel ful cd wakes s)) = effects s @ es \<and>
         h5_walk (currentState s) (transitions es)
           (currentState (worker_state (stateMachineWorker fuel ful cd wakes s)))) \<and>
   (currentState s = STATE_FAILED \<or> currentState s = STATE_CLOSED \<longrightarrow>
      stateMachineWorker fuel ful cd wakes s = Exited s) \<and>
   (stateMachineWorker fuel ful cd wakes s = Exited s' \<longrightarrow>
      currentState s' = STATE_FAILED \<or> currentState s' = STATE_CLOSED) \<and>
   (processPacket cd packet s = Inr s' \<longrightarrow> currentState s' = currentState s) \<and>
   currentState (statusHandler code s) = currentState s \<and>
   currentState (snd (send cd data waits s)) = currentState s \<and>
   (open_transport errorCode0 status_callback data_callback errorCode reached s = Some (rc, s')
      \<longrightarrow> currentState s' = currentState s) \<and>
   currentState (snd (close_transport errorCode1 errorCode2 s)) = currentState s"
proof (intro conjI impI)
  assume "action_START ful wakes s = Returns n s' wakes'"
  from action_START_result [OF this, where s' = s' and n = n and wakes' = wakes']
  show "n = next_by_priority (ioResourceError (startExit s')) (close (startExit s'))
            (isOpened (startExit s')) STATE_RESET"
    by simp
next
  assume "action_RESET ful cd wakes s = Returns n s' wakes'"
  from action_RESET_result [OF this, where s' = s' and n = n and wakes' = wakes']
  show "n = next_by_priority (ioResourceError (resetExit s')) (close (resetExit s'))
            (resetSent (resetExit s') \<and> resetWait (resetExit s')) STATE_UNINITIALIZED"
    by simp
next
  assume "action_UNINITIALIZED ful cd wakes s = Returns n s' wakes'"
  from action_UNINITIALIZED_result [OF this, where s' = s' and n = n and wakes' = wakes']
  show "n = next_by_priority (ioResourceError (uninitializedExit s')) (close (uninitializedExit s'))
            (syncSent (uninitializedExit s') \<and> syncRspReceived (uninitializedExit s'))
            STATE_INITIALIZED"
    by simp
next
  assume "action_INITIALIZED ful cd wakes s = Returns n s' wakes'"
  from action_INITIALIZED_result [OF this, where s' = s' and n = n and wakes' = wakes']
  show "n = next_by_priority (ioResourceError (initializedExit s')) (close (initializedExit s'))
            (syncConfigSent (initializedExit s') \<and> syncConfigRspReceived (initializedExit s'))
            STATE_ACTIVE"
    by simp
next
  assume "action_ACTIVE ful wakes s = Returns n s' wakes'"
  from action_ACTIVE_result [OF this, where s' = s' and n = n and wakes' = wakes']
  show "n = next_by_priority (ioResourceError (activeExit s')) (close (activeExit s'))
            (syncReceived (activeExit s') \<or> irrecoverableSyncError (activeExit s'))
            STATE_RESET"
    by simp
next
  assume "st \<noteq> STATE_FAILED" "st \<noteq> STATE_CLOSED"
    and "stateActions ful cd st wakes s = Returns n s' wakes'"
  from stateActions_result [OF this(3), where s' = s' and n = n and wakes' = wakes'] this(1,2)
  show "h5_edge st n"
    by simp
next
  from worker_walk [of fuel ful cd wakes s]
  show "\<exists>es. effects (worker_state (stateMachineWorker fuel ful cd wakes s)) = effects s @ es \<and>
         h5_walk (currentState s) (transitions es)
           (currentState (worker_state (stateMachineWorker fuel ful cd wakes s)))"
    by blast
next
  assume "currentState s = STATE_FAILED \<or> currentState s = STATE_CLOSED"
  then show "stateMachineWorker fuel ful cd wakes s = Exited s"
    by (cases fuel) auto
next
  assume "stateMachineWorker fuel ful cd wakes s = Exited s'"
  then show "currentState s' = STATE_FAILED \<or> currentState s' = STATE_CLOSED"
    by (rule worker_Exited)
next
  assume "processPacket cd packet s = Inr s'"
  from quiet_processPacket [OF this] show "currentState s' = currentState s"
    by (simp add: quiet_step_def)
next
  show "currentState (statusHandler code s) = currentState s"
    by simp
next
  show "currentState (snd (send cd data waits s)) = currentState s"
    by (rule send_currentState)
next
  assume "open_transport errorCode0 status_callback data_callback errorCode reached s
      = Some (rc, s')"
  then show "currentState s' = currentState s"
    by (auto simp add: open_transport_def Transport_open_def Let_def split: if_splits)
next
  show "currentState (snd (close_transport errorCode1 errorCode2 s)) = currentState s"
    by (simp add: close_transport_def Let_def stopStateMachine_def Transport_close_def
        split: option.split)
qed

theorem transitions_follow_edges_witness:
  "(\<exists>es. effects (worker_state (stateMachineWorker 10 isFullfilled_spec plain_codec
             [[IsOpened], [], [SyncRspReceived], [SyncConfigRspReceived], [], [Close]]
             (members (H5Transport_new 250)))) = effects (members (H5Transport_new 250)) @ es \<and>
         h5_walk (currentState (members (H5Transport_new 250))) (transitions es)
           (currentState (worker_state (stateMachineWorker 10 isFullfilled_spec plain_codec
             [[IsOpened], [], [SyncRspReceived], [SyncConfigRspReceived], [], [Close]]
             (members (H5Transport_new 250)))))) \<and>
   transitions (effects (worker_state (stateMachineWorker 10 isFullfilled_spec plain_codec
             [[IsOpened], [], [SyncRspReceived], [SyncConfigRspReceived], [], [Close]]
             (members (H5Transport_new 250))))) =
     [(STATE_START, STATE_RESET), (STATE_RESET, STATE_UNINITIALIZED),
      (STATE_UNINITIALIZED, STATE_INITIALIZED), (STATE_INITIALIZED, STATE_ACTIVE),
      (STATE_ACTIVE, STATE_CLOSED)]"
proof -
  have run: "transitions (effects (worker_state (stateMachineWorker 10 isFullfilled_spec plain_codec
             [[IsOpened], [], [SyncRspReceived], [SyncConfigRspReceived], [], [Close]]
             (members (H5Transport_new 250))))) =
     [(STATE_START, STATE_RESET), (STATE_RESET, STATE_UNINITIALIZED),
      (STATE_UNINITIALIZED, STATE_INITIALIZED), (STATE_INITIALIZED, STATE_ACTIVE),
      (STATE_ACTIVE, STATE_CLOSED)]"
    by (simp add: eval_nat_numeral H5Transport_new_def isFullfilled_spec_def action_START_def
        action_RESET_def action_UNINITIALIZED_def action_INITIALIZED_def action_ACTIVE_def
        PACKET_RETRANSMISSIONS_def wait_for_def interfere_def reset_StartExit_def
        reset_ResetExit_def reset_UninitializedExit_def reset_InitializedExit_def
        reset_ActiveExit_def emit_def sendControlPacket_def logPacket_def statusHandler_def
        Let_def)
  note walk = transitions_follow_edges [where fuel = 10 and ful = isFullfilled_spec
      and cd = plain_codec
      and wakes = "[[IsOpened], [], [SyncRspReceived], [SyncConfigRspReceived], [], [Close]]"
      and s = "members (H5Transport_new 250)",
      THEN conjunct2, THEN conjunct2, THEN conjunct2, THEN conjunct2, THEN conjunct2,
      THEN conjunct2, THEN conjunct1]
  from walk run show ?thesis
    by (rule conjI)
qed

text \<open>
  C8: the UNINITIALIZED action always returns. It sends SYNC \<open>k\<close> times, at most six,
  each send followed by one timed wait of 250 ms on the state-change condition, and
  stops before the sixth only with its record fulfilled. The state it returns is the
  one the order of section 4.4 gives: an IO error and close come first, then
  \<^verbatim>\<open>syncSent && syncRspReceived\<close> leads to INITIALIZED. When none of these holds and all
  six attempts are used, the status handler is called with
  \<^verbatim>\<open>PKT_SEND_MAX_RETRIES_REACHED\<close>, which reaches the upper status callback when one is
  registered, and the action returns FAILED; this is the case of the record not being
  fulfilled after six attempts.
\<close>

theorem sync_retries:
  "\<exists>k s1 wakes1. k \<le> 6 \<and>
     effects s1 = effects s @ concat (replicate k
       [LowerSend (controlPacket cd CONTROL_PKT_SYNC (ackNum s)),
        WaitFor stateMachineChange 250]) \<and>
     (k < 6 \<longrightarrow> isFullfilled_Uninitialized ful (uninitializedExit s1)) \<and>
     (0 < k \<longrightarrow> syncSent (uninitializedExit s1)) \<and>
     action_UNINITIALIZED ful cd wakes s =
       Returns
         (next_by_priority (ioResourceError (uninitializedExit s1)) (close (uninitializedExit s1))
            (syncSent (uninitializedExit s1) \<and> syncRspReceived (uninitializedExit s1))
            STATE_INITIALIZED)
         (if \<not> ioResourceError (uninitializedExit s1) \<and> \<not> close (uninitializedExit s1) \<and>
             \<not> (syncSent (uninitializedExit s1) \<and> syncRspReceived (uninitializedExit s1)) \<and> k = 6
          then statusHandler PKT_SEND_MAX_RETRIES_REACHED s1 else s1)
         wakes1 \<and>
     statusHandler PKT_SEND_MAX_RETRIES_REACHED s1 =
       (if upperStatusCallbackSet s then emit (UpperStatus PKT_SEND_MAX_RETRIES_REACHED) s1
        else s1) \<and>
     (k = 6 \<longrightarrow> \<not> isFullfilled_Uninitialized isFullfilled_spec (uninitializedExit s1) \<longrightarrow>
        action_UNINITIALIZED ful cd wakes s =
          Returns STATE_FAILED (statusHandler PKT_SEND_MAX_RETRIES_REACHED s1) wakes1)"
proof -
  from action_UNINITIALIZED_eq [of s cd ful wakes] obtain k :: nat and s1 wakes1 where
    all: "k \<le> 6 \<and>
     quiet_step s s1 \<and>
     effects s1 = effects s @ concat (replicate k
       [LowerSend (controlPacket cd CONTROL_PKT_SYNC (ackNum s)),
        WaitFor stateMachineChange NON_ACTIVE_STATE_TIMEOUT]) \<and>
     upperStatusCallbackSet s1 = upperStatusCallbackSet s \<and>
     (k < 6 \<longrightarrow> isFullfilled_Uninitialized ful (uninitializedExit s1)) \<and>
     (0 < k \<longrightarrow> syncSent (uninitializedExit s1)) \<and>
     action_UNINITIALIZED ful cd wakes s =
       Returns
         (next_by_priority (ioResourceError (uninitializedExit s1)) (close (uninitializedExit s1))
            (syncSent (uninitializedExit s1) \<and> syncRspReceived (uninitializedExit s1))
            STATE_INITIALIZED)
         (if \<not> ioResourceError (uninitializedExit s1) \<and> \<not> close (uninitializedExit s1) \<and>
             \<not> (syncSent (uninitializedExit s1) \<and> syncRspReceived (uninitializedExit s1)) \<and> k = 6
          then statusHandler PKT_SEND_MAX_RETRIES_REACHED s1 else s1)
         wakes1"
    by (elim exE) (erule that)
  from all have k: "k \<le> 6"
    and eff: "effects s1 = effects s @ concat (replicate k
       [LowerSend (controlPacket cd CONTROL_PKT_SYNC (ackNum s)),
        WaitFor stateMachineChange NON_ACTIVE_STATE_TIMEOUT])"
    and cb: "upperStatusCallbackSet s1 = upperStatusCallbackSet s"
    and ful: "k < 6 \<longrightarrow> isFullfilled_Uninitialized ful (uninitializedExit s1)"
    and sent: "0 < k \<longrightarrow> syncSent (uninitializedExit s1)"
    and act: "action_UNINITIALIZED ful cd wakes s =
       Returns
         (next_by_priority (ioResourceError (uninitializedExit s1)) (close (uninitializedExit s1))
            (syncSent (uninitializedExit s1) \<and> syncRspReceived (uninitializedExit s1))
            STATE_INITIALIZED)
         (if \<not> ioResourceError (uninitializedExit s1) \<and> \<not> close (uninitializedExit s1) \<and>
             \<not> (syncSent (uninitializedExit s1) \<and> syncRspReceived (uninitializedExit s1)) \<and> k = 6
          then statusHandler PKT_SEND_MAX_RETRIES_REACHED s1 else s1)
         wakes1"
    by blast+
  have st: "statusHandler PKT_SEND_MAX_RETRIES_REACHED s1 =
       (if upperStatusCallbackSet s then emit (UpperStatus PKT_SEND_MAX_RETRIES_REACHED) s1
        else s1)"
    by (simp add: statusHandler_other cb)
  have exhausted: "action_UNINITIALIZED ful cd wakes s =
          Returns STATE_FAILED (statusHandler PKT_SEND_MAX_RETRIES_REACHED s1) wakes1"
    if "k = 6" "\<not> isFullfilled_Uninitialized isFullfilled_spec (uninitializedExit s1)"
    using that act by (simp add: isFullfilled_spec_def next_by_priority_def)
  have "k \<le> 6 \<and>
     effects s1 = effects s @ concat (replicate k
       [LowerSend (controlPacket cd CONTROL_PKT_SYNC (ackNum s)),
        WaitFor stateMachineChange 250]) \<and>
     (k < 6 \<longrightarrow> isFullfilled_Uninitialized ful (uninitializedExit s1)) \<and>
     (0 < k \<longrightarrow> syncSent (uninitializedExit s1)) \<and>
     action_UNINITIALIZED ful cd wakes s =
       Returns
         (next_by_priority (ioResourceError (uninitializedExit s1)) (close (uninitializedExit s1))
            (syncSent (uninitializedExit s1) \<and> syncRspReceived (uninitializedExit s1))
            STATE_INITIALIZED)
         (if \<not> ioResourceError (uninitializedExit s1) \<and> \<not> close (uninitializedExit s1) \<and>
             \<not> (syncSent (uninitializedExit s1) \<and> syncRspReceived (uninitializedExit s1)) \<and> k = 6
          then statusHandler PKT_SEND_MAX_RETRIES_REACHED s1 else s1)
         wakes1 \<and>
     statusHandler PKT_SEND_MAX_RETRIES_REACHED s1 =
       (if upperStatusCallbackSet s then emit (UpperStatus PKT_SEND_MAX_RETRIES_REACHED) s1
        else s1) \<and>
     (k = 6 \<longrightarrow> \<not> isFullfilled_Uninitialized isFullfilled_spec (uninitializedExit s1) \<longrightarrow>
        action_UNINITIALIZED ful cd wakes s =
          Returns STATE_FAILED (statusHandler PKT_SEND_MAX_RETRIES_REACHED s1) wakes1)"
    using k eff [unfolded NON_ACTIVE_STATE_TIMEOUT_def] ful sent act st exhausted by blast
  then show ?thesis
    by (intro exI [of _ k] exI [of _ s1] exI [of _ wakes1])
qed

theorem sync_retries_witness:
  "(\<exists>k s1 wakes1. k \<le> 6 \<and>
     effects s1 =
       effects ((members (H5Transport_new 250))
                 \<lparr>currentState := STATE_UNINITIALIZED, upperStatusCallbackSet := True\<rparr>) @
       concat (replicate k
         [LowerSend (controlPacket plain_codec CONTROL_PKT_SYNC
            (ackNum ((members (H5Transport_new 250))
               \<lparr>currentState := STATE_UNINITIALIZED, upperStatusCallbackSet := True\<rparr>))),
          WaitFor stateMachineChange 250]) \<and>
     action_UNINITIALIZED isFullfilled_spec plain_codec []
       ((members (H5Transport_new 250))
          \<lparr>currentState := STATE_UNINITIALIZED, upperStatusCallbackSet := True\<rparr>) =
       Returns
         (next_by_priority (ioResourceError (uninitializedExit s1)) (close (uninitializedExit s1))
            (syncSent (uninitializedExit s1) \<and> syncRspReceived (uninitializedExit s1))
            STATE_INITIALIZED)
         (if \<not> ioResourceError (uninitializedExit s1) \<and> \<not> close (uninitializedExit s1) \<and>
             \<not> (syncSent (uninitializedExit s1) \<and> syncRspReceived (uninitializedExit s1)) \<and> k = 6
          then statusHandler PKT_SEND_MAX_RETRIES_REACHED s1 else s1)
         wakes1) \<and>
   action_UNINITIALIZED isFullfilled_spec plain_codec []
       ((members (H5Transport_new 250))
          \<lparr>currentState := STATE_UNINITIALIZED, upperStatusCallbackSet := True\<rparr>) =
     Returns STATE_FAILED
       ((members (H5Transport_new 250))
          \<lparr>currentState := STATE_UNINITIALIZED, upperStatusCallbackSet := True,
           outgoingPacketCount := 6,
           uninitializedExit :=
             \<lparr>ioResourceError = False, close = False, syncSent = True, syncRspReceived = False\<rparr>,
           effects :=
             concat (replicate 6
               [LowerSend [0xC0, 0, 0, 0, 15, 0x01, 0x7E, 0xC0], WaitFor stateMachineChange 250]) @
             [UpperStatus PKT_SEND_MAX_RETRIES_REACHED]\<rparr>) [] \<and>
   action_UNINITIALIZED isFullfilled_spec plain_codec [[], [SyncRspReceived], [Close]]
       ((members (H5Transport_new 250))
          \<lparr>currentState := STATE_UNINITIALIZED, upperStatusCallbackSet := True\<rparr>) =
     Returns STATE_INITIALIZED
       ((members (H5Transport_new 250))
          \<lparr>currentState := STATE_UNINITIALIZED, upperStatusCallbackSet := True,
           outgoingPacketCount := 2,
           uninitializedExit :=
             \<lparr>ioResourceError = False, close = False, syncSent = True, syncRspReceived = True\<rparr>,
           effects :=
             concat (replicate 2
               [LowerSend [0xC0, 0, 0, 0, 15, 0x01, 0x7E, 0xC0], WaitFor stateMachineChange 250])\<rparr>)
       [[Close]]"
proof -
  let ?s = "(members (H5Transport_new 250))
          \<lparr>currentState := STATE_UNINITIALIZED, upperStatusCallbackSet := True\<rparr>"
  from sync_retries [of ?s plain_codec isFullfilled_spec "[]"]
  have general: "\<exists>k s1 wakes1. k \<le> 6 \<and>
     effects s1 = effects ?s @
       concat (replicate k
         [LowerSend (controlPacket plain_codec CONTROL_PKT_SYNC (ackNum ?s)),
          WaitFor stateMachineChange 250]) \<and>
     action_UNINITIALIZED isFullfilled_spec plain_codec [] ?s =
       Returns
         (next_by_priority (ioResourceError (uninitializedExit s1)) (close (uninitializedExit s1))
            (syncSent (uninitializedExit s1) \<and> syncRspReceived (uninitializedExit s1))
            STATE_INITIALIZED)
         (if \<not> ioResourceError (uninitializedExit s1) \<and> \<not> close (uninitializedExit s1) \<and>
             \<not> (syncSent (uninitializedExit s1) \<and> syncRspReceived (uninitializedExit s1)) \<and> k = 6
          then statusHandler PKT_SEND_MAX_RETRIES_REACHED s1 else s1)
         wakes1"
    by (elim exE conjE) (intro exI conjI, assumption+)
  have silent: "action_UNINITIALIZED isFullfilled_spec plain_codec [] ?s =
     Returns STATE_FAILED
       ((members (H5Transport_new 250))
          \<lparr>currentState := STATE_UNINITIALIZED, upperStatusCallbackSet := True,
           outgoingPacketCount := 6,
           uninitializedExit :=
             \<lparr>ioResourceError = False, close = False, syncSent = True, syncRspReceived = False\<rparr>,
           effects :=
             concat (replicate 6
               [LowerSend [0xC0, 0, 0, 0, 15, 0x01, 0x7E, 0xC0], WaitFor stateMachineChange 250]) @
             [UpperStatus PKT_SEND_MAX_RETRIES_REACHED]\<rparr>) []"
    by (simp add: eval_nat_numeral H5Transport_new_def isFullfilled_spec_def
        action_UNINITIALIZED_def PACKET_RETRANSMISSIONS_def NON_ACTIVE_STATE_TIMEOUT_def
        wait_for_def interfere_def reset_UninitializedExit_def emit_def sendControlPacket_def
        logPacket_def statusHandler_def Let_def controlPacket_def plain_codec_def)
  have answered: "action_UNINITIALIZED isFullfilled_spec plain_codec
       [[], [SyncRspReceived], [Close]] ?s =
     Returns STATE_INITIALIZED
       ((members (H5Transport_new 250))
          \<lparr>currentState := STATE_UNINITIALIZED, upperStatusCallbackSet := True,
           outgoingPacketCount := 2,
           uninitializedExit :=
             \<lparr>ioResourceError = False, close = False, syncSent = True, syncRspReceived = True\<rparr>,
           effects :=
             concat (replicate 2
               [LowerSend [0xC0, 0, 0, 0, 15, 0x01, 0x7E, 0xC0], WaitFor stateMachineChange 250])\<rparr>)
       [[Close]]"
    by (simp add: eval_nat_numeral H5Transport_new_def isFullfilled_spec_def
        action_UNINITIALIZED_def PACKET_RETRANSMISSIONS_def NON_ACTIVE_STATE_TIMEOUT_def
        wait_for_def interfere_def reset_UninitializedExit_def emit_def sendControlPacket_def
        logPacket_def statusHandler_def Let_def controlPacket_def plain_codec_def
        next_by_priority_def)
  from general silent answered show ?thesis
    by (intro conjI)
qed

subsection \<open>Reachable objects\<close>

lemma dataHandler_loop_members:
  assumes pp: "\<And>p m m'. P m \<Longrightarrow> pp p m = Inr m' \<Longrightarrow> P m'"
  shows "dataHandler_loop pp data packet r = Inr (packet', r') \<Longrightarrow> P (members r)
    \<Longrightarrow> P (members r')"
proof (induction data arbitrary: packet r)
  case Nil
  then show ?case by simp
next
  case (Cons b bs)
  show ?case
  proof (cases "b = 0xC0 \<and> c0Found r \<and> length (packet @ [b]) \<noteq> 2")
    case True
    then obtain m where m: "pp (packet @ [b]) (members r) = Inr m"
      using Cons.prems(1) by (cases "pp (packet @ [b]) (members r)") auto
    from pp [OF Cons.prems(2) m] have "P m" .
    moreover from Cons.prems(1) True m have "dataHandler_loop pp bs []
        (r\<lparr>members := m, unprocessedData := [], c0Found := False\<rparr>) = Inr (packet', r')"
      by simp
    ultimately show ?thesis
      using Cons.IH [of "[]" "r\<lparr>members := m, unprocessedData := [], c0Found := False\<rparr>"]
      by simp
  next
    case False
    with Cons.prems show ?thesis
      using Cons.IH [of "[0xC0]" r] Cons.IH [of "[0xC0]" "r\<lparr>c0Found := True\<rparr>"]
        Cons.IH [of "packet @ [b]" r]
      by (auto split: if_splits)
  qed
qed

lemma dataHandler_with_members:
  assumes pp: "\<And>p m m'. P m \<Longrightarrow> pp p m = Inr m' \<Longrightarrow> P m'"
    and run: "dataHandler_with pp data r = Inr r'" and start: "P (members r)"
  shows "P (members r')"
proof -
  from run obtain packet' r1 where
    loop: "dataHandler_loop pp data (unprocessedData r) r = Inr (packet', r1)"
    and r': "r' = carried (packet', r1)"
    unfolding dataHandler_with_carried
    by (cases "dataHandler_loop pp data (unprocessedData r) r") auto
  from dataHandler_loop_members [of P pp, OF pp loop start] have "P (members r1)" .
  then show ?thesis
    by (simp add: r' carried_def)
qed

lemma quiet_settled: "quiet_step s s' \<Longrightarrow> settled s \<Longrightarrow> settled s'"
  by (auto simp add: quiet_step_def settled_def)

lemma other_thread_write_range:
  "seqNum s \<le> 7 \<and> ackNum s \<le> 7 \<Longrightarrow>
   seqNum (fold other_thread_write w s) \<le> 7 \<and> ackNum (fold other_thread_write w s) \<le> 7"
proof (induction w arbitrary: s)
  case Nil
  then show ?case by simp
next
  case (Cons a w)
  have "seqNum (other_thread_write a s) \<le> 7 \<and> ackNum (other_thread_write a s) \<le> 7"
    using Cons.prems by (cases a) (simp_all add: and7_le)
  from Cons.IH [OF this] show ?case by simp
qed

lemma send_loop_range:
  "seqNum s \<le> 7 \<and> ackNum s \<le> 7 \<Longrightarrow>
   seqNum (snd (send_loop n waits s)) \<le> 7 \<and> ackNum (snd (send_loop n waits s)) \<le> 7"
proof (induction n arbitrary: waits s)
  case 0
  then show ?case by simp
next
  case (Suc n)
  define s2 where "s2 = fold other_thread_write (case waits of [] \<Rightarrow> [] | w # _ \<Rightarrow> w)
      (emit (WaitFor ackWaitCondition
              (retransmissionInterval (emit (LowerSend (lastPacket s)) (logPacket True s))))
         (emit (LowerSend (lastPacket s)) (logPacket True s)))"
  have r2: "seqNum s2 \<le> 7 \<and> ackNum s2 \<le> 7"
    unfolding s2_def by (rule other_thread_write_range) (simp add: Suc.prems)
  have "send_loop (Suc n) waits s =
      (if seqNum s2 \<noteq> seqNum s then (NRF_SUCCESS, s2\<lparr>lastPacket := []\<rparr>)
       else send_loop n (tl waits) s2)"
    by (simp add: Let_def s2_def)
  then show ?case
    using r2 Suc.IH [OF r2, of "tl waits"] by simp
qed

lemma send_settled:
  assumes "settled s"
  shows "settled (snd (send cd data waits s))"
proof (cases "currentState s = STATE_ACTIVE")
  case False
  with assms show ?thesis by (simp add: send_def)
next
  case True
  let ?s0 = "s\<lparr>lastPacket := slip_encode cd
      (h5_encode cd data (seqNum s) (ackNum s) True True VENDOR_SPECIFIC_PACKET)\<rparr>"
  have r: "seqNum ?s0 \<le> 7 \<and> ackNum ?s0 \<le> 7"
    using assms by (simp add: settled_def)
  from send_loop_outcome [of PACKET_RETRANSMISSIONS waits ?s0]
  have "lastPacket (snd (send_loop PACKET_RETRANSMISSIONS waits ?s0)) = []"
    by blast
  with send_loop_range [OF r, of PACKET_RETRANSMISSIONS waits] True show ?thesis
    by (simp add: send_def settled_def)
qed

lemma open_settled:
  "settled s \<Longrightarrow>
   open_transport errorCode0 status_callback data_callback errorCode reached s = Some (rc, m)
   \<Longrightarrow> settled m"
  by (auto simp add: open_transport_def Transport_open_def Let_def settled_def
      split: if_splits)

lemma close_settled:
  "settled s \<Longrightarrow> settled (snd (close_transport errorCode1 errorCode2 s))"
proof -
  assume s: "settled s"
  have a: "quiet_step s (case exitCriterias (currentState s) of
                  Some exitCriteria \<Rightarrow> set_close exitCriteria s
                | None \<Rightarrow> s)"
    by (simp split: option.split)
  from quiet_settled [OF a s] show ?thesis
    by (simp add: close_transport_def Let_def stopStateMachine_def Transport_close_def
        settled_def)
qed

lemma worker_settled:
  "settled s \<Longrightarrow> settled (worker_state (stateMachineWorker fuel ful cd wakes s))"
  using worker_walk [of fuel ful cd wakes s] by (auto simp add: settled_def)

lemma reachable_settled: "reachable ful cd r \<Longrightarrow> settled (members r)"
proof (induction rule: reachable.induct)
  case (constructed retransmission_interval)
  show ?case by (simp add: H5Transport_new_def settled_def)
next
  case (received r data r')
  have pp: "settled m \<Longrightarrow> processPacket cd p m = Inr m' \<Longrightarrow> settled m'" for p m m'
    using quiet_settled [OF quiet_processPacket] by blast
  from received.hyps(2) have "dataHandler_with (processPacket cd) data r = Inr r'"
    by (simp add: dataHandler_def)
  from dataHandler_with_members [of settled "processPacket cd", OF pp this received.IH]
  show ?case .
next
  case (status r code)
  then show ?case by (simp add: quiet_settled [OF quiet_statusHandler])
next
  case (sent r data waits rc m)
  from send_settled [OF sent.IH, of cd data waits] sent.hyps(2) show ?case by simp
next
  case (opened r errorCode0 status_callback data_callback errorCode reached rc m)
  from open_settled [OF opened.IH opened.hyps(2)] show ?case by simp
next
  case (closed r errorCode1 errorCode2 rc m)
  from close_settled [OF closed.IH, of errorCode1 errorCode2] closed.hyps(2) show ?case by simp
next
  case (worked r fuel wakes m)
  from worker_settled [OF worked.IH, of fuel ful cd wakes] worked.hyps(2) show ?case by simp
qed

lemma action_ACTIVE_entry:
  "action_ACTIVE ful wakes (s\<lparr>seqNum := a, ackNum := b\<rparr>) = action_ACTIVE ful wakes s"
  by (simp add: action_ACTIVE_def)

lemma action_ACTIVE_undisturbed:
  "seqNum (action_state (action_ACTIVE ful [] s)) = 0 \<and>
   ackNum (action_state (action_ACTIVE ful [] s)) = 0"
  by (simp add: action_ACTIVE_def)

lemma action_ACTIVE_range:
  "seqNum (action_state (action_ACTIVE ful wakes s)) \<le> 7 \<and>
   ackNum (action_state (action_ACTIVE ful wakes s)) \<le> 7"
proof -
  let ?z = "s\<lparr>seqNum := 0, ackNum := 0\<rparr>"
  have same: "action_ACTIVE ful wakes s = action_ACTIVE ful wakes ?z"
    by (rule action_ACTIVE_entry [symmetric])
  have z: "seqNum ?z \<le> 7 \<and> ackNum ?z \<le> 7"
    by simp
  show ?thesis
  proof (cases "action_ACTIVE ful wakes ?z")
    case (Returns n s' wakes')
    from action_ACTIVE_result [OF Returns, where s' = s' and n = n and wakes' = wakes']
    have "quiet_step ?z s'" by simp
    with z have "seqNum s' \<le> 7 \<and> ackNum s' \<le> 7"
      unfolding quiet_step_def by blast
    with Returns same show ?thesis by simp
  next
    case (NeverReturns s')
    from action_ACTIVE_result [OF NeverReturns, where s' = s']
    have "quiet_step ?z s'" by simp
    with z have "seqNum s' \<le> 7 \<and> ackNum s' \<le> 7"
      unfolding quiet_step_def by blast
    with NeverReturns same show ?thesis by simp
  next
    case (Throws f s')
    from action_ACTIVE_result [OF Throws, where s' = s' and f = f]
    show ?thesis by simp
  qed
qed

lemma write_shared_counters:
  assumes "seqNum s1 = seqNum s2" and "ackNum s1 = ackNum s2"
  shows "seqNum (write_shared cls w s1) = seqNum (write_shared cls w s2) \<and>
         ackNum (write_shared cls w s1) = ackNum (write_shared cls w s2)"
  using assms by (cases cls; cases w) simp_all

lemma interfere_counters:
  "seqNum s1 = seqNum s2 \<Longrightarrow> ackNum s1 = ackNum s2 \<Longrightarrow>
   seqNum (interfere cls wake s1) = seqNum (interfere cls wake s2) \<and>
   ackNum (interfere cls wake s1) = ackNum (interfere cls wake s2)"
  unfolding interfere_def
proof (induction wake arbitrary: s1 s2)
  case Nil
  then show ?case by simp
next
  case (Cons w wake)
  from write_shared_counters [OF Cons.prems, of cls w]
  have "seqNum (write_shared cls w s1) = seqNum (write_shared cls w s2)"
    and "ackNum (write_shared cls w s1) = ackNum (write_shared cls w s2)"
    by simp_all
  from Cons.IH [OF this] show ?case by simp
qed

lemma interfere_append:
  "interfere cls (xs @ ys) s = interfere cls ys (interfere cls xs s)"
  by (simp add: interfere_def)

lemma wait_while_Resumed_counters:
  "wait_while cls fulfilled wakes s = Resumed s' wakes' \<Longrightarrow>
   \<exists>consumed. wakes = consumed @ wakes' \<and>
     seqNum s' = seqNum (interfere cls (concat consumed) s) \<and>
     ackNum s' = ackNum (interfere cls (concat consumed) s)"
proof (induction wakes arbitrary: s)
  case Nil
  then have "[] = [] @ wakes' \<and> seqNum s' = seqNum (interfere cls (concat []) s) \<and>
     ackNum s' = ackNum (interfere cls (concat []) s)"
    by (auto simp add: interfere_def split: if_splits)
  then show ?case by (rule exI)
next
  case (Cons wake wakes)
  show ?case
  proof (cases "fulfilled s")
    case True
    with Cons.prems have "wake # wakes = [] @ wakes' \<and>
        seqNum s' = seqNum (interfere cls (concat []) s) \<and>
        ackNum s' = ackNum (interfere cls (concat []) s)"
      by (simp add: interfere_def)
    then show ?thesis by (rule exI)
  next
    case False
    let ?s1 = "interfere cls wake (emit (Wait stateMachineChange) s)"
    from Cons.prems False have "wait_while cls fulfilled wakes ?s1 = Resumed s' wakes'"
      by simp
    from Cons.IH [OF this] obtain consumed where c: "wakes = consumed @ wakes'"
      and sq: "seqNum s' = seqNum (interfere cls (concat consumed) ?s1)"
      and ak: "ackNum s' = ackNum (interfere cls (concat consumed) ?s1)"
      by blast
    have same: "seqNum ?s1 = seqNum (interfere cls wake s) \<and>
        ackNum ?s1 = ackNum (interfere cls wake s)"
      by (rule interfere_counters) simp_all
    from interfere_counters [of ?s1 "interfere cls wake s" cls "concat consumed"] same
    have "seqNum (interfere cls (concat consumed) ?s1) =
          seqNum (interfere cls (concat (wake # consumed)) s) \<and>
        ackNum (interfere cls (concat consumed) ?s1) =
          ackNum (interfere cls (concat (wake # consumed)) s)"
      by (simp add: interfere_append)
    with c sq ak have "wake # wakes = (wake # consumed) @ wakes' \<and>
        seqNum s' = seqNum (interfere cls (concat (wake # consumed)) s) \<and>
        ackNum s' = ackNum (interfere cls (concat (wake # consumed)) s)"
      by simp
    then show ?thesis by (rule exI)
  qed
qed

lemma wait_while_Blocked_counters:
  "wait_while cls fulfilled wakes s = Blocked s' \<Longrightarrow>
     seqNum s' = seqNum (interfere cls (concat wakes) s) \<and>
     ackNum s' = ackNum (interfere cls (concat wakes) s)"
proof (induction wakes arbitrary: s)
  case Nil
  then show ?case by (auto simp add: interfere_def split: if_splits)
next
  case (Cons wake wakes)
  show ?case
  proof (cases "fulfilled s")
    case True
    with Cons.prems show ?thesis by simp
  next
    case False
    let ?s1 = "interfere cls wake (emit (Wait stateMachineChange) s)"
    from Cons.prems False have "wait_while cls fulfilled wakes ?s1 = Blocked s'"
      by simp
    from Cons.IH [OF this] have sq: "seqNum s' = seqNum (interfere cls (concat wakes) ?s1)"
      and ak: "ackNum s' = ackNum (interfere cls (concat wakes) ?s1)"
      by simp_all
    have same: "seqNum ?s1 = seqNum (interfere cls wake s) \<and>
        ackNum ?s1 = ackNum (interfere cls wake s)"
      by (rule interfere_counters) simp_all
    from interfere_counters [of ?s1 "interfere cls wake s" cls "concat wakes"] same
    have "seqNum (interfere cls (concat wakes) ?s1) =
          seqNum (interfere cls (concat (wake # wakes)) s) \<and>
        ackNum (interfere cls (concat wakes) ?s1) =
          ackNum (interfere cls (concat (wake # wakes)) s)"
      by (simp add: interfere_append)
    with sq ak show ?thesis by simp
  qed
qed

lemma action_ACTIVE_counters:
  "(action_ACTIVE ful wakes s = Returns n s' wakes' \<longrightarrow>
      (\<exists>consumed. wakes = consumed @ wakes' \<and>
         seqNum s' =
           seqNum (interfere ActiveExit (concat consumed) (s\<lparr>seqNum := 0, ackNum := 0\<rparr>)) \<and>
         ackNum s' =
           ackNum (interfere ActiveExit (concat consumed) (s\<lparr>seqNum := 0, ackNum := 0\<rparr>)))) \<and>
   (action_ACTIVE ful wakes s = NeverReturns s' \<longrightarrow>
      seqNum s' = seqNum (interfere ActiveExit (concat wakes) (s\<lparr>seqNum := 0, ackNum := 0\<rparr>)) \<and>
      ackNum s' = ackNum (interfere ActiveExit (concat wakes) (s\<lparr>seqNum := 0, ackNum := 0\<rparr>)))"
proof -
  let ?z = "s\<lparr>seqNum := 0, ackNum := 0\<rparr>"
  let ?s0 = "statusHandler CONNECTION_ACTIVE
      (s\<lparr>activeExit := reset_ActiveExit, seqNum := 0, ackNum := 0\<rparr>)"
  let ?w = "wait_while ActiveExit (\<lambda>s. isFullfilled_Active ful (activeExit s)) wakes ?s0"
  have z: "seqNum ?s0 = seqNum ?z" "ackNum ?s0 = ackNum ?z"
    by simp_all
  note same = interfere_counters [OF z, of ActiveExit]
  show ?thesis
  proof (cases ?w)
    case (Blocked s1)
    from wait_while_Blocked_counters [OF Blocked] same [of "concat wakes"]
    have cnt: "seqNum s1 = seqNum (interfere ActiveExit (concat wakes) ?z) \<and>
      ackNum s1 = ackNum (interfere ActiveExit (concat wakes) ?z)"
      by simp
    have r: "action_ACTIVE ful wakes s = NeverReturns s1"
      using Blocked by (simp add: action_ACTIVE_def)
    show ?thesis
    proof (intro conjI impI)
      assume "action_ACTIVE ful wakes s = Returns n s' wakes'"
      with r show "\<exists>consumed. wakes = consumed @ wakes' \<and>
         seqNum s' = seqNum (interfere ActiveExit (concat consumed) ?z) \<and>
         ackNum s' = ackNum (interfere ActiveExit (concat consumed) ?z)"
        by simp
    next
      assume "action_ACTIVE ful wakes s = NeverReturns s'"
      with r have "s' = s1" by simp
      with cnt show "seqNum s' = seqNum (interfere ActiveExit (concat wakes) ?z)"
        and "ackNum s' = ackNum (interfere ActiveExit (concat wakes) ?z)"
        by simp_all
    qed
  next
    case (Resumed s1 wakes1)
    from wait_while_Resumed_counters [OF Resumed] obtain consumed where
      c: "wakes = consumed @ wakes1"
      and sq: "seqNum s1 = seqNum (interfere ActiveExit (concat consumed) ?s0)"
      and ak: "ackNum s1 = ackNum (interfere ActiveExit (concat consumed) ?s0)"
      by blast
    from sq ak same [of "concat consumed"]
    have "seqNum s1 = seqNum (interfere ActiveExit (concat consumed) ?z) \<and>
      ackNum s1 = ackNum (interfere ActiveExit (concat consumed) ?z)"
      by simp
    with c have ex: "\<exists>consumed. wakes = consumed @ wakes1 \<and>
         seqNum s1 = seqNum (interfere ActiveExit (concat consumed) ?z) \<and>
         ackNum s1 = ackNum (interfere ActiveExit (concat consumed) ?z)"
      by blast
    have r: "\<exists>n1. action_ACTIVE ful wakes s = Returns n1 s1 wakes1"
      using Resumed by (simp add: action_ACTIVE_def)
    show ?thesis
    proof (intro conjI impI)
      assume "action_ACTIVE ful wakes s = Returns n s' wakes'"
      with r have "s' = s1" and "wakes' = wakes1" by auto
      with ex show "\<exists>consumed. wakes = consumed @ wakes' \<and>
         seqNum s' = seqNum (interfere ActiveExit (concat consumed) ?z) \<and>
         ackNum s' = ackNum (interfere ActiveExit (concat consumed) ?z)"
        by simp
    next
      assume "action_ACTIVE ful wakes s = NeverReturns s'"
      with r have False by auto
      then show "seqNum s' = seqNum (interfere ActiveExit (concat wakes) ?z)"
        and "ackNum s' = ackNum (interfere ActiveExit (concat wakes) ?z)"
        by simp_all
    qed
  qed
qed

lemma processLinkControl_counters:
  "processLinkControl cd pl s = Inr s' \<Longrightarrow> seqNum s' = seqNum s \<and> ackNum s' = ackNum s"
  by (auto simp add: processLinkControl_def through_cast_def split: if_splits)

lemma processVendorSpecific_counters:
  "processVendorSpecific cd h s = Inr s' \<Longrightarrow>
   seqNum s' = seqNum s \<and> (ackNum s' = ackNum s \<or> ackNum s' = (ackNum s + 1) AND 0x07)"
  by (auto simp add: processVendorSpecific_def upperDataCallback_def split: if_splits)

lemma processAck_counters:
  "processAck h s = Inr s' \<Longrightarrow>
   (seqNum s' = seqNum s \<or> seqNum s' = (seqNum s + 1) AND 0x07) \<and> ackNum s' = ackNum s"
  by (auto simp add: processAck_def through_cast_def split: if_splits)

lemma processPacket_counters:
  assumes "processPacket cd packet s = Inr s'"
  shows "(seqNum s' = seqNum s \<or> seqNum s' = (seqNum s + 1) AND 0x07) \<and>
         (ackNum s' = ackNum s \<or> ackNum s' = (ackNum s + 1) AND 0x07)"
proof (cases "slip_decode cd packet")
  case None
  with assms show ?thesis
    by (auto simp add: processPacket_def)
next
  case (Some slipPayload)
  show ?thesis
  proof (cases "h5_decode cd slipPayload")
    case None
    with Some assms show ?thesis
      by (auto simp add: processPacket_def Let_def)
  next
    case h: (Some h)
    let ?s = "logPacket False s"
    from assms have "(seqNum s' = seqNum ?s \<or> seqNum s' = (seqNum ?s + 1) AND 0x07) \<and>
         (ackNum s' = ackNum ?s \<or> ackNum s' = (ackNum ?s + 1) AND 0x07)"
      unfolding processPacket_decoded [OF Some h] Let_def
      by (auto split: if_splits dest: processLinkControl_counters
          processVendorSpecific_counters processAck_counters)
    then show ?thesis
      by simp
  qed
qed

text \<open>
  C6: both counters are 0 in a new object; \<^verbatim>\<open>incrementSeqNum\<close> and
  \<^verbatim>\<open>incrementAckNum\<close> add one and keep the low three bits, so their result is at most 7.
  The ACTIVE action writes 0 to both on entry: what it does is the same whatever the
  counters were when it was called, and when no other thread writes while it waits,
  both are 0 where it is left, whether it returns or stays blocked. The dispatcher
  advances them while the action waits, so they need not be 0 when it returns; they are
  at most 7 there, whatever they were on entry, and they are what the writes of the
  other threads during the waits the action went through make of 0. A call of
  \<^verbatim>\<open>processPacket\<close> leaves each counter as it is or puts it to the value of its
  increment. In every object the program can reach, both counters are at most 7.
\<close>

theorem counters_in_range:
  "seqNum (members (H5Transport_new retransmission_interval)) = 0 \<and>
   ackNum (members (H5Transport_new retransmission_interval)) = 0 \<and>
   seqNum (incrementSeqNum s) = (seqNum s + 1) AND 0x07 \<and>
   ackNum (incrementAckNum s) = (ackNum s + 1) AND 0x07 \<and>
   seqNum (incrementSeqNum s) \<le> 7 \<and> ackNum (incrementAckNum s) \<le> 7 \<and>
   action_ACTIVE ful wakes (s\<lparr>seqNum := a, ackNum := b\<rparr>) = action_ACTIVE ful wakes s \<and>
   seqNum (action_state (action_ACTIVE ful [] s)) = 0 \<and>
   ackNum (action_state (action_ACTIVE ful [] s)) = 0 \<and>
   seqNum (action_state (action_ACTIVE ful wakes s)) \<le> 7 \<and>
   ackNum (action_state (action_ACTIVE ful wakes s)) \<le> 7 \<and>
   (action_ACTIVE ful wakes s = Returns n s' wakes' \<longrightarrow>
      (\<exists>consumed. wakes = consumed @ wakes' \<and>
         seqNum s' =
           seqNum (interfere ActiveExit (concat consumed) (s\<lparr>seqNum := 0, ackNum := 0\<rparr>)) \<and>
         ackNum s' =
           ackNum (interfere ActiveExit (concat consumed) (s\<lparr>seqNum := 0, ackNum := 0\<rparr>)))) \<and>
   (action_ACTIVE ful wakes s = NeverReturns s' \<longrightarrow>
      seqNum s' = seqNum (interfere ActiveExit (concat wakes) (s\<lparr>seqNum := 0, ackNum := 0\<rparr>)) \<and>
      ackNum s' = ackNum (interfere ActiveExit (concat wakes) (s\<lparr>seqNum := 0, ackNum := 0\<rparr>))) \<and>
   (processPacket cd packet s = Inr s' \<longrightarrow>
      (seqNum s' = seqNum s \<or> seqNum s' = (seqNum s + 1) AND 0x07) \<and>
      (ackNum s' = ackNum s \<or> ackNum s' = (ackNum s + 1) AND 0x07)) \<and>
   (reachable ful cd r \<longrightarrow> seqNum (members r) \<le> 7 \<and> ackNum (members r) \<le> 7)"
proof (intro conjI impI)
  show "seqNum (members (H5Transport_new retransmission_interval)) = 0"
    and "ackNum (members (H5Transport_new retransmission_interval)) = 0"
    by (simp_all add: H5Transport_new_def)
  show "seqNum (incrementSeqNum s) = (seqNum s + 1) AND 0x07"
    and "ackNum (incrementAckNum s) = (ackNum s + 1) AND 0x07"
    by simp_all
  show "seqNum (incrementSeqNum s) \<le> 7" and "ackNum (incrementAckNum s) \<le> 7"
    by (simp_all add: and7_le)
  show "action_ACTIVE ful wakes (s\<lparr>seqNum := a, ackNum := b\<rparr>) = action_ACTIVE ful wakes s"
    by (rule action_ACTIVE_entry)
  from action_ACTIVE_undisturbed [of ful s]
  show "seqNum (action_state (action_ACTIVE ful [] s)) = 0"
    and "ackNum (action_state (action_ACTIVE ful [] s)) = 0"
    by simp_all
  from action_ACTIVE_range [of ful wakes s]
  show "seqNum (action_state (action_ACTIVE ful wakes s)) \<le> 7"
    and "ackNum (action_state (action_ACTIVE ful wakes s)) \<le> 7"
    by simp_all
next
  assume "action_ACTIVE ful wakes s = Returns n s' wakes'"
  with action_ACTIVE_counters [of ful wakes s n s' wakes']
  show "\<exists>consumed. wakes = consumed @ wakes' \<and>
         seqNum s' =
           seqNum (interfere ActiveExit (concat consumed) (s\<lparr>seqNum := 0, ackNum := 0\<rparr>)) \<and>
         ackNum s' =
           ackNum (interfere ActiveExit (concat consumed) (s\<lparr>seqNum := 0, ackNum := 0\<rparr>))"
    by blast
next
  assume "action_ACTIVE ful wakes s = NeverReturns s'"
  with action_ACTIVE_counters [of ful wakes s n s' wakes']
  show "seqNum s' = seqNum (interfere ActiveExit (concat wakes) (s\<lparr>seqNum := 0, ackNum := 0\<rparr>))"
    and "ackNum s' = ackNum (interfere ActiveExit (concat wakes) (s\<lparr>seqNum := 0, ackNum := 0\<rparr>))"
    by blast+
next
  assume a: "processPacket cd packet s = Inr s'"
  from processPacket_counters [OF a]
  show "seqNum s' = seqNum s \<or> seqNum s' = (seqNum s + 1) AND 0x07"
    and "ackNum s' = ackNum s \<or> ackNum s' = (ackNum s + 1) AND 0x07"
    by simp_all
next
  assume "reachable ful cd r"
  from reachable_settled [OF this] show "seqNum (members r) \<le> 7" and "ackNum (members r) \<le> 7"
    by (simp_all add: settled_def)
qed

theorem counters_in_range_witness:
  "reachable isFullfilled_spec plain_codec
     \<lparr>unprocessedData = [], c0Found = False,
      members = (members (H5Transport_new 250))
        \<lparr>seqNum := 1, incomingPacketCount := 1, effects := [NotifyAll ackWaitCondition]\<rparr>\<rparr> \<and>
   seqNum (members
     \<lparr>unprocessedData = [], c0Found = False,
      members = (members (H5Transport_new 250))
        \<lparr>seqNum := 1, incomingPacketCount := 1, effects := [NotifyAll ackWaitCondition]\<rparr>\<rparr>) \<le> 7 \<and>
   ackNum (members
     \<lparr>unprocessedData = [], c0Found = False,
      members = (members (H5Transport_new 250))
        \<lparr>seqNum := 1, incomingPacketCount := 1, effects := [NotifyAll ackWaitCondition]\<rparr>\<rparr>) \<le> 7 \<and>
   action_ACTIVE isFullfilled_spec [[AckNumIncremented, SeqNumIncremented], [AckNumIncremented, Close]]
     ((members (H5Transport_new 250))\<lparr>currentState := STATE_ACTIVE, seqNum := 5, ackNum := 3\<rparr>) =
     Returns STATE_CLOSED
       ((members (H5Transport_new 250))
          \<lparr>currentState := STATE_ACTIVE, seqNum := 1, ackNum := 2,
           activeExit := \<lparr>ioResourceError = False, close = True, syncReceived = False,
                          irrecoverableSyncError = False\<rparr>,
           effects := [Wait stateMachineChange, Wait stateMachineChange]\<rparr>) [] \<and>
   action_ACTIVE isFullfilled_spec []
     ((members (H5Transport_new 250))\<lparr>currentState := STATE_ACTIVE, seqNum := 5, ackNum := 3\<rparr>) =
     NeverReturns
       ((members (H5Transport_new 250))
          \<lparr>currentState := STATE_ACTIVE, seqNum := 0, ackNum := 0,
           effects := [Wait stateMachineChange]\<rparr>) \<and>
   reachable isFullfilled_spec plain_codec
     ((H5Transport_new 250)
        \<lparr>members := worker_state (stateMachineWorker 5 isFullfilled_spec plain_codec
           [[IsOpened], [], [SyncRspReceived], [SyncConfigRspReceived],
            [AckNumIncremented, Close]]
           (members (H5Transport_new 250)))\<rparr>) \<and>
   currentState (worker_state (stateMachineWorker 5 isFullfilled_spec plain_codec
           [[IsOpened], [], [SyncRspReceived], [SyncConfigRspReceived],
            [AckNumIncremented, Close]]
           (members (H5Transport_new 250)))) = STATE_CLOSED \<and>
   ackNum (worker_state (stateMachineWorker 5 isFullfilled_spec plain_codec
           [[IsOpened], [], [SyncRspReceived], [SyncConfigRspReceived],
            [AckNumIncremented, Close]]
           (members (H5Transport_new 250)))) = 1"
proof -
  let ?w = "worker_state (stateMachineWorker 5 isFullfilled_spec plain_codec
           [[IsOpened], [], [SyncRspReceived], [SyncConfigRspReceived],
            [AckNumIncremented, Close]]
           (members (H5Transport_new 250)))"
  have worker: "reachable isFullfilled_spec plain_codec ((H5Transport_new 250)\<lparr>members := ?w\<rparr>)"
    by (rule reachable.worked [OF reachable.constructed refl])
  have ended: "currentState ?w = STATE_CLOSED \<and> ackNum ?w = 1"
    by (simp add: eval_nat_numeral H5Transport_new_def isFullfilled_spec_def action_START_def
        action_RESET_def action_UNINITIALIZED_def action_INITIALIZED_def action_ACTIVE_def
        PACKET_RETRANSMISSIONS_def wait_for_def interfere_def reset_StartExit_def
        reset_ResetExit_def reset_UninitializedExit_def reset_InitializedExit_def
        reset_ActiveExit_def emit_def sendControlPacket_def logPacket_def statusHandler_def
        Let_def incrementAckNum_def)
  let ?r = "\<lparr>unprocessedData = [], c0Found = False,
      members = (members (H5Transport_new 250))
        \<lparr>seqNum := 1, incomingPacketCount := 1, effects := [NotifyAll ackWaitCondition]\<rparr>\<rparr>"
  have run: "dataHandler plain_codec [0xC0, 0, 1, 0, 0, 0xC0] (H5Transport_new 250) = Inr ?r"
    by (simp add: dataHandler_def dataHandler_with_def processPacket_def plain_codec_def
        plain_slip_decode_def plain_pkt_type_def H5Transport_new_def Let_def logPacket_def
        processAck_def incrementSeqNum_def emit_def)
  have reach: "reachable isFullfilled_spec plain_codec ?r"
    by (rule reachable.received [OF reachable.constructed run])
  have advanced: "action_ACTIVE isFullfilled_spec
       [[AckNumIncremented, SeqNumIncremented], [AckNumIncremented, Close]]
     ((members (H5Transport_new 250))\<lparr>currentState := STATE_ACTIVE, seqNum := 5, ackNum := 3\<rparr>) =
     Returns STATE_CLOSED
       ((members (H5Transport_new 250))
          \<lparr>currentState := STATE_ACTIVE, seqNum := 1, ackNum := 2,
           activeExit := \<lparr>ioResourceError = False, close = True, syncReceived = False,
                          irrecoverableSyncError = False\<rparr>,
           effects := [Wait stateMachineChange, Wait stateMachineChange]\<rparr>) []"
    by (simp add: action_ACTIVE_def H5Transport_new_def isFullfilled_spec_def statusHandler_def
        reset_ActiveExit_def interfere_def emit_def incrementSeqNum_def incrementAckNum_def)
  have blocked: "action_ACTIVE isFullfilled_spec []
     ((members (H5Transport_new 250))\<lparr>currentState := STATE_ACTIVE, seqNum := 5, ackNum := 3\<rparr>) =
     NeverReturns
       ((members (H5Transport_new 250))
          \<lparr>currentState := STATE_ACTIVE, seqNum := 0, ackNum := 0,
           effects := [Wait stateMachineChange]\<rparr>)"
    by (simp add: action_ACTIVE_def H5Transport_new_def isFullfilled_spec_def statusHandler_def
        reset_ActiveExit_def emit_def)
  from counters_in_range [where ful = isFullfilled_spec and cd = plain_codec and r = ?r,
      THEN conjunct2, THEN conjunct2, THEN conjunct2, THEN conjunct2, THEN conjunct2,
      THEN conjunct2, THEN conjunct2, THEN conjunct2, THEN conjunct2, THEN conjunct2,
      THEN conjunct2, THEN conjunct2, THEN conjunct2, THEN conjunct2, THEN mp, OF reach]
  have "seqNum (members ?r) \<le> 7 \<and> ackNum (members ?r) \<le> 7" .
  with reach advanced blocked worker ended show ?thesis
    by (intro conjI) blast+
qed

subsection \<open>The outcomes of \<^verbatim>\<open>send\<close>\<close>

text \<open>
  C3: outside \<^verbatim>\<open>STATE_ACTIVE\<close>, \<^verbatim>\<open>send\<close> returns \<^verbatim>\<open>NRF_ERROR_INVALID_STATE\<close> and the
  object is as it was. In \<^verbatim>\<open>STATE_ACTIVE\<close> it hands the same encoded packet to the lower
  transport between one and six times, each time followed by one wait on the ack
  condition; it returns \<^verbatim>\<open>NRF_SUCCESS\<close> exactly when one of the six waits ends with
  \<^verbatim>\<open>seqNum\<close> different from what it was before the wait, and \<^verbatim>\<open>NRF_ERROR_TIMEOUT\<close>
  exactly when none does, then after six transmissions; \<^verbatim>\<open>lastPacket\<close> is empty on both
  returns. So \<^verbatim>\<open>lastPacket\<close>, empty before a call, is empty after it, and it is empty
  after a call on any object the program can reach.
\<close>

theorem send_outcomes:
  "(currentState s \<noteq> STATE_ACTIVE \<longrightarrow> send cd data waits s = (NRF_ERROR_INVALID_STATE, s)) \<and>
   (currentState s = STATE_ACTIVE \<longrightarrow>
      (\<exists>k. 1 \<le> k \<and> k \<le> 6 \<and>
         effects (snd (send cd data waits s)) =
           effects s @ concat (replicate k
             [LowerSend (slip_encode cd
                (h5_encode cd data (seqNum s) (ackNum s) True True VENDOR_SPECIFIC_PACKET)),
              WaitFor ackWaitCondition (retransmissionInterval s)]) \<and>
         (fst (send cd data waits s) = NRF_ERROR_TIMEOUT \<longrightarrow> k = 6)) \<and>
      lastPacket (snd (send cd data waits s)) = [] \<and>
      (fst (send cd data waits s) = NRF_SUCCESS) =
        (\<exists>i<6. i < length waits \<and> seq_after (waits ! i) (seqNum s) \<noteq> seqNum s) \<and>
      (fst (send cd data waits s) = NRF_ERROR_TIMEOUT) =
        (\<not> (\<exists>i<6. i < length waits \<and> seq_after (waits ! i) (seqNum s) \<noteq> seqNum s))) \<and>
   (lastPacket s = [] \<longrightarrow> lastPacket (snd (send cd data waits s)) = []) \<and>
   (reachable ful cd r \<longrightarrow> lastPacket (snd (send cd data waits (members r))) = [])"
proof -
  let ?pkt = "slip_encode cd
      (h5_encode cd data (seqNum s) (ackNum s) True True VENDOR_SPECIFIC_PACKET)"
  let ?s0 = "s\<lparr>lastPacket := ?pkt\<rparr>"
  have idle: "send cd data waits s = (NRF_ERROR_INVALID_STATE, s)"
    if "currentState s \<noteq> STATE_ACTIVE"
    using that by (simp add: send_def)
  have busy: "send cd data waits s = send_loop 6 waits ?s0" if "currentState s = STATE_ACTIVE"
    using that by (simp add: send_def PACKET_RETRANSMISSIONS_def)
  from send_loop_outcome [of 6 waits ?s0] obtain k where k: "k \<le> 6" "1 \<le> k"
    and e: "effects (snd (send_loop 6 waits ?s0)) =
       effects s @ concat (replicate k
         [LowerSend ?pkt, WaitFor ackWaitCondition (retransmissionInterval s)])"
    and t: "fst (send_loop 6 waits ?s0) = NRF_ERROR_TIMEOUT \<longrightarrow> k = 6"
    and l: "lastPacket (snd (send_loop 6 waits ?s0)) = []"
    and ok: "(fst (send_loop 6 waits ?s0) = NRF_SUCCESS) =
       (\<exists>i<6. i < length waits \<and> seq_after (waits ! i) (seqNum s) \<noteq> seqNum s)"
    and to: "(fst (send_loop 6 waits ?s0) = NRF_ERROR_TIMEOUT) =
       (\<not> (\<exists>i<6. i < length waits \<and> seq_after (waits ! i) (seqNum s) \<noteq> seqNum s))"
    by auto
  have active: "(\<exists>k. 1 \<le> k \<and> k \<le> 6 \<and>
         effects (snd (send cd data waits s)) =
           effects s @ concat (replicate k
             [LowerSend ?pkt, WaitFor ackWaitCondition (retransmissionInterval s)]) \<and>
         (fst (send cd data waits s) = NRF_ERROR_TIMEOUT \<longrightarrow> k = 6)) \<and>
      lastPacket (snd (send cd data waits s)) = [] \<and>
      (fst (send cd data waits s) = NRF_SUCCESS) =
        (\<exists>i<6. i < length waits \<and> seq_after (waits ! i) (seqNum s) \<noteq> seqNum s) \<and>
      (fst (send cd data waits s) = NRF_ERROR_TIMEOUT) =
        (\<not> (\<exists>i<6. i < length waits \<and> seq_after (waits ! i) (seqNum s) \<noteq> seqNum s))"
    if act: "currentState s = STATE_ACTIVE"
    unfolding busy [OF act] using k e t l ok to by blast
  have empty: "lastPacket (snd (send cd data waits s)) = []" if "lastPacket s = []"
  proof (cases "currentState s = STATE_ACTIVE")
    case True
    then show ?thesis using l by (simp add: busy)
  next
    case False
    then show ?thesis using that by (simp add: idle)
  qed
  have reached: "lastPacket (snd (send cd data waits (members r))) = []" if "reachable ful cd r"
    using send_settled [OF reachable_settled [OF that], of cd data waits]
    by (simp add: settled_def)
  from idle active empty reached show ?thesis
    by blast
qed

theorem send_outcomes_witness:
  "send plain_codec [0xAA] [] (members (H5Transport_new 250)) =
     (NRF_ERROR_INVALID_STATE, members (H5Transport_new 250)) \<and>
   fst (send plain_codec [0xAA] [[], [IncrementSeqNum]]
          ((members (H5Transport_new 250))\<lparr>currentState := STATE_ACTIVE\<rparr>)) = NRF_SUCCESS \<and>
   lastPacket (snd (send plain_codec [0xAA] [[], [IncrementSeqNum]]
          ((members (H5Transport_new 250))\<lparr>currentState := STATE_ACTIVE\<rparr>))) = [] \<and>
   fst (send plain_codec [0xAA] []
          ((members (H5Transport_new 250))\<lparr>currentState := STATE_ACTIVE\<rparr>)) = NRF_ERROR_TIMEOUT"
proof -
  let ?new = "members (H5Transport_new 250)"
  let ?s = "?new\<lparr>currentState := STATE_ACTIVE\<rparr>"
  have idle: "currentState ?new \<noteq> STATE_ACTIVE"
    by (simp add: H5Transport_new_def)
  have act: "currentState ?s = STATE_ACTIVE"
    by simp
  have seq0: "seqNum ?s = 0"
    by (simp add: H5Transport_new_def)
  have changed: "\<exists>i<6. i < length [[], [IncrementSeqNum]] \<and>
      seq_after ([[], [IncrementSeqNum]] ! i) (seqNum ?s) \<noteq> seqNum ?s"
    unfolding seq0 by (rule exI [of _ 1]) simp
  have unchanged: "\<not> (\<exists>i<6. i < length ([] :: counter_write list list) \<and>
      seq_after ([] ! i) (seqNum ?s) \<noteq> seqNum ?s)"
    by simp
  note a = send_outcomes [of ?new plain_codec "[0xAA]" "[]", THEN conjunct1, THEN mp, OF idle]
  note b = send_outcomes [of ?s plain_codec "[0xAA]" "[[], [IncrementSeqNum]]", THEN conjunct2,
      THEN conjunct1, THEN mp, OF act]
  note c = send_outcomes [of ?s plain_codec "[0xAA]" "[]", THEN conjunct2,
      THEN conjunct1, THEN mp, OF act]
  from b changed have b1: "fst (send plain_codec [0xAA] [[], [IncrementSeqNum]] ?s) = NRF_SUCCESS"
    by blast
  from b have b2: "lastPacket (snd (send plain_codec [0xAA] [[], [IncrementSeqNum]] ?s)) = []"
    by blast
  from c unchanged have c1: "fst (send plain_codec [0xAA] [] ?s) = NRF_ERROR_TIMEOUT"
    by blast
  from a b1 b2 c1 show ?thesis
    by blast
qed

subsection \<open>Status and close after the state machine has ended\<close>

text \<open>
  C10: in \<^verbatim>\<open>STATE_FAILED\<close>, \<^verbatim>\<open>STATE_CLOSED\<close> and \<^verbatim>\<open>STATE_UNKNOWN\<close> the table of exit
  criteria answers with a null pointer. \<^verbatim>\<open>statusHandler\<close> on
  \<^verbatim>\<open>IO_RESOURCES_UNAVAILABLE\<close> then sets no flag, notifies, and passes the code to the
  upper status callback when there is one; \<^verbatim>\<open>close\<close> sets no flag, notifies, joins the
  thread when it is joinable, closes the lower transport and releases the callbacks.
  Nothing else of the object changes.
\<close>

theorem no_record_after_termination:
  "currentState s = STATE_FAILED \<or> currentState s = STATE_CLOSED \<or>
     currentState s = STATE_UNKNOWN \<longrightarrow>
   exitCriterias (currentState s) = None \<and>
   statusHandler IO_RESOURCES_UNAVAILABLE s =
     (if upperStatusCallbackSet s then
        s\<lparr>effects := effects s @
             [NotifyAll stateMachineChange, UpperStatus IO_RESOURCES_UNAVAILABLE]\<rparr>
      else s\<lparr>effects := effects s @ [NotifyAll stateMachineChange]\<rparr>) \<and>
   close_transport errorCode1 errorCode2 s =
     (if errorCode1 \<noteq> NRF_SUCCESS then errorCode1 else errorCode2,
      s\<lparr>upperStatusCallbackSet := False, upperDataCallbackSet := False,
        threadJoinable := False,
        effects := effects s @ [NotifyAll stateMachineChange] @
          (if threadJoinable s then [JoinStateMachineThread] else []) @ [LowerClose]\<rparr>)"
proof (intro impI)
  assume "currentState s = STATE_FAILED \<or> currentState s = STATE_CLOSED \<or>
     currentState s = STATE_UNKNOWN"
  then have none: "exitCriterias (currentState s) = None"
    by auto
  have st: "statusHandler IO_RESOURCES_UNAVAILABLE s =
     (if upperStatusCallbackSet s then
        s\<lparr>effects := effects s @
             [NotifyAll stateMachineChange, UpperStatus IO_RESOURCES_UNAVAILABLE]\<rparr>
      else s\<lparr>effects := effects s @ [NotifyAll stateMachineChange]\<rparr>)"
    by (simp add: statusHandler_def none emit_def)
  have cl: "close_transport errorCode1 errorCode2 s =
     (if errorCode1 \<noteq> NRF_SUCCESS then errorCode1 else errorCode2,
      s\<lparr>upperStatusCallbackSet := False, upperDataCallbackSet := False,
        threadJoinable := False,
        effects := effects s @ [NotifyAll stateMachineChange] @
          (if threadJoinable s then [JoinStateMachineThread] else []) @ [LowerClose]\<rparr>)"
    by (simp add: close_transport_def none Let_def stopStateMachine_def Transport_close_def
        emit_def)
  from none st cl show "exitCriterias (currentState s) = None \<and>
   statusHandler IO_RESOURCES_UNAVAILABLE s =
     (if upperStatusCallbackSet s then
        s\<lparr>effects := effects s @
             [NotifyAll stateMachineChange, UpperStatus IO_RESOURCES_UNAVAILABLE]\<rparr>
      else s\<lparr>effects := effects s @ [NotifyAll stateMachineChange]\<rparr>) \<and>
   close_transport errorCode1 errorCode2 s =
     (if errorCode1 \<noteq> NRF_SUCCESS then errorCode1 else errorCode2,
      s\<lparr>upperStatusCallbackSet := False, upperDataCallbackSet := False,
        threadJoinable := False,
        effects := effects s @ [NotifyAll stateMachineChange] @
          (if threadJoinable s then [JoinStateMachineThread] else []) @ [LowerClose]\<rparr>)"
    by blast
qed

theorem no_record_after_termination_witness:
  "statusHandler IO_RESOURCES_UNAVAILABLE
     ((members (H5Transport_new 250))
        \<lparr>currentState := STATE_FAILED, upperStatusCallbackSet := True, threadJoinable := True\<rparr>) =
   (members (H5Transport_new 250))
     \<lparr>currentState := STATE_FAILED, upperStatusCallbackSet := True, threadJoinable := True,
      effects := [NotifyAll stateMachineChange, UpperStatus IO_RESOURCES_UNAVAILABLE]\<rparr> \<and>
   close_transport NRF_SUCCESS NRF_SUCCESS
     ((members (H5Transport_new 250))
        \<lparr>currentState := STATE_FAILED, upperStatusCallbackSet := True, threadJoinable := True\<rparr>) =
   (NRF_SUCCESS,
    (members (H5Transport_new 250))
      \<lparr>currentState := STATE_FAILED, upperStatusCallbackSet := False, threadJoinable := False,
       effects := [NotifyAll stateMachineChange, JoinStateMachineThread, LowerClose]\<rparr>)"
proof -
  let ?s = "(members (H5Transport_new 250))
        \<lparr>currentState := STATE_FAILED, upperStatusCallbackSet := True, threadJoinable := True\<rparr>"
  have st: "currentState ?s = STATE_FAILED \<or> currentState ?s = STATE_CLOSED \<or>
     currentState ?s = STATE_UNKNOWN"
    by simp
  show ?thesis
    using no_record_after_termination [of ?s NRF_SUCCESS NRF_SUCCESS, THEN mp, OF st]
    by (simp add: H5Transport_new_def)
qed


subsection \<open>The pattern predicate\<close>

lemma checkPattern_loop_prefix:
  "checkPattern_loop rest pattern = (take (length pattern) rest = pattern)"
  by (induction rest pattern rule: checkPattern_loop.induct) auto

text \<open>
  C9: \<^verbatim>\<open>checkPattern(packet, offset, pattern)\<close> is true exactly when the offset is
  inside the packet and the pattern is what the packet holds from the offset on, all of
  it inside the packet. On the packet and pattern of the unit test it is true at
  offset 4 and false at offsets 0, 1, 8 and 100.
\<close>

theorem checkPattern_exact:
  "(\<forall>packet offset pattern.
      checkPattern packet offset pattern =
        (unat offset < length packet \<and>
         unat offset + length pattern \<le> length packet \<and>
         take (length pattern) (drop (unat offset) packet) = pattern)) \<and>
   checkPattern [0xFF, 0x01, 0x02, 0xFF, 0x01, 0x02, 0x03, 0xFF] 4 [0x01, 0x02, 0x03] \<and>
   \<not> checkPattern [0xFF, 0x01, 0x02, 0xFF, 0x01, 0x02, 0x03, 0xFF] 0 [0x01, 0x02, 0x03] \<and>
   \<not> checkPattern [0xFF, 0x01, 0x02, 0xFF, 0x01, 0x02, 0x03, 0xFF] 1 [0x01, 0x02, 0x03] \<and>
   \<not> checkPattern [0xFF, 0x01, 0x02, 0xFF, 0x01, 0x02, 0x03, 0xFF] 8 [0x01, 0x02, 0x03] \<and>
   \<not> checkPattern [0xFF, 0x01, 0x02, 0xFF, 0x01, 0x02, 0x03, 0xFF] 100 [0x01, 0x02, 0x03]"
proof -
  have general: "checkPattern packet offset pattern =
     (unat offset < length packet \<and>
      unat offset + length pattern \<le> length packet \<and>
      take (length pattern) (drop (unat offset) packet) = pattern)"
    for packet offset pattern
  proof (cases "unat offset < length packet")
    case False
    then show ?thesis by (simp add: checkPattern_def)
  next
    case True
    have "unat offset + length pattern \<le> length packet"
      if eq: "take (length pattern) (drop (unat offset) packet) = pattern"
    proof -
      have "length (take (length pattern) (drop (unat offset) packet)) = length pattern"
        using eq by simp
      with True show ?thesis by (simp add: min_def split: if_splits)
    qed
    with True show ?thesis
      by (auto simp add: checkPattern_def checkPattern_loop_prefix)
  qed
  show ?thesis
    by (simp add: general)
qed

theorem checkPattern_exact_witness:
  "checkPattern [0x05, 0x01, 0x7E] 1 [0x01, 0x7E] \<and> \<not> checkPattern [0x05, 0x01] 1 [0x01, 0x7E]"
proof -
  note general = checkPattern_exact [THEN conjunct1, rule_format]
  show ?thesis
    by (simp add: general [of "[0x05, 0x01, 0x7E]" 1 "[0x01, 0x7E]"]
        general [of "[0x05, 0x01]" 1 "[0x01, 0x7E]"])
qed

end
